(* ===== verification/Rust_Prelude.thy ===== *)
theory Rust_Prelude
  imports Main "HOL-Library.Word" "HOL-Library.AList" "HOL-Library.Sublist" "HOL-Library.Multiset"
begin

section \<open>What the daemon uses of Rust\<close>

text \<open>
  The shared vocabulary of the development: machine integers and their checked conversions,
  strings as UTF-8 byte sequences, \<open>anyhow\<close> results with panics, the state-and-error
  computations in which every effectful function of the daemon is written, and hash maps as
  association lists. Integers keep their width: \<open>u32\<close>/\<open>i32\<close> are both \<^typ>\<open>32 word\<close>, read
  with \<^const>\<open>uint\<close> or \<^const>\<open>sint\<close> according to the Rust type. The daemon is built for a 64-bit
  target with overflow checks on, so \<open>c_ulong\<close> and \<open>c_long\<close> have 64 bits and an arithmetic
  overflow is a panic.
\<close>

named_theorems io_simps \<open>the defining equations of the computation combinators\<close>

type_synonym u8 = "8 word"
type_synonym u32 = "32 word"
type_synonym i32 = "32 word"
type_synonym u64 = "64 word"
type_synonym i64 = "64 word"
type_synonym c_ulong = "64 word"
type_synonym c_long = "64 word"

subsection \<open>Errors and results\<close>

text \<open>
  \<open>anyhow::Error\<close> as the daemon inspects it: it downcasts to \<open>UprobeStatsError\<close> and to the
  marker \<open>ReportedToStatsd\<close>; every other error is only printed, and is identified here by its
  format string (the interpolated arguments reach nothing but the log).
\<close>

datatype err =
    BpfProgramError i64
  | BpfDataInvalid i64
  | ReportedToStatsd err
  | Anyhow string

text \<open>
  The outcome of running a Rust function: a value, an \<open>Err\<close>, or a panic. \<open>NoFuel\<close> is the
  outcome of a loop that was given too few iterations; no Rust code produces or handles it.
\<close>

datatype 'a res = Ok 'a | Err err | Panic string | NoFuel

fun res_bind :: "'a res \<Rightarrow> ('a \<Rightarrow> 'b res) \<Rightarrow> 'b res" where
  "res_bind (Ok x) f = f x"
| "res_bind (Err e) f = Err e"
| "res_bind (Panic p) f = Panic p"
| "res_bind NoFuel f = NoFuel"

definition ok_or :: "'a option \<Rightarrow> err \<Rightarrow> 'a res" where
  "ok_or v e = (case v of None \<Rightarrow> Err e | Some x \<Rightarrow> Ok x)"

definition ensure :: "bool \<Rightarrow> err \<Rightarrow> unit res" where
  "ensure b e = (if b then Ok () else Err e)"

fun map_err :: "(err \<Rightarrow> err) \<Rightarrow> 'a res \<Rightarrow> 'a res" where
  "map_err f (Err e) = Err (f e)"
| "map_err f r = r"

text \<open>\<open>iter().map(f).collect::<Result<Vec<_>>>()\<close>: stops at the first error.\<close>

fun collect_res :: "('a \<Rightarrow> 'b res) \<Rightarrow> 'a list \<Rightarrow> 'b list res" where
  "collect_res f [] = Ok []"
| "collect_res f (x # xs) = res_bind (f x) (\<lambda>y. res_bind (collect_res f xs) (\<lambda>ys. Ok (y # ys)))"

lemma res_bind_Ok_iff:
  "res_bind r f = Ok y \<longleftrightarrow> (\<exists>x. r = Ok x \<and> f x = Ok y)"
  by (cases r) auto

lemma res_bind_cong [fundef_cong]:
  "r = r' \<Longrightarrow> (\<And>x. r' = Ok x \<Longrightarrow> f x = g x) \<Longrightarrow> res_bind r f = res_bind r' g"
  by (cases r') auto

lemma res_bind_Ok [simp]: "res_bind r Ok = r"
  by (cases r) auto

lemma ok_or_simps [simp]: "ok_or None e = Err e" "ok_or (Some x) e = Ok x"
  by (simp_all add: ok_or_def)

lemma ok_or_Ok_iff: "ok_or v e = Ok x \<longleftrightarrow> v = Some x"
  by (cases v) auto

lemma ensure_simps [simp]: "ensure True e = Ok ()" "ensure False e = Err e"
  by (simp_all add: ensure_def)

lemma ensure_Ok_iff: "ensure b e = Ok u \<longleftrightarrow> b"
  by (simp add: ensure_def)

lemma map_err_Ok_iff: "map_err f r = Ok x \<longleftrightarrow> r = Ok x"
  by (cases r) auto

lemmas res_Ok_iffs = res_bind_Ok_iff ok_or_Ok_iff ensure_Ok_iff map_err_Ok_iff

lemma collect_res_Ok_iff:
  "collect_res f xs = Ok ys \<longleftrightarrow> list_all2 (\<lambda>x y. f x = Ok y) xs ys"
  by (induction xs arbitrary: ys) (auto simp: res_bind_Ok_iff list_all2_Cons1)

lemma collect_res_total:
  "(\<And>x. x \<in> set xs \<Longrightarrow> f x = Ok (g x)) \<Longrightarrow> collect_res f xs = Ok (map g xs)"
  by (induction xs) auto

lemma collect_res_Ok_length: "collect_res f xs = Ok ys \<Longrightarrow> length ys = length xs"
  by (auto simp: collect_res_Ok_iff dest: list_all2_lengthD)

text \<open>A function \<open>returns\<close> when it neither panics nor runs out of fuel.\<close>

fun returns :: "'a res \<Rightarrow> bool" where
  "returns (Ok x) = True"
| "returns (Err e) = True"
| "returns (Panic p) = False"
| "returns NoFuel = False"

lemma returns_iff: "returns r \<longleftrightarrow> (\<exists>x. r = Ok x) \<or> (\<exists>e. r = Err e)"
  by (cases r) auto

lemma returns_bind [intro]:
  "returns r \<Longrightarrow> (\<And>x. r = Ok x \<Longrightarrow> returns (f x)) \<Longrightarrow> returns (res_bind r f)"
  by (cases r) auto

lemma returns_basic [simp]: "returns (ok_or v e)" "returns (ensure b e)"
  by (simp_all add: ok_or_def ensure_def split: option.split)

lemma returns_collect_res: "(\<And>x. x \<in> set xs \<Longrightarrow> returns (f x)) \<Longrightarrow> returns (collect_res f xs)"
  by (induction xs) (auto intro!: returns_bind)

subsection \<open>Checked integer conversions\<close>

text \<open>
  \<open>TryFrom\<close> between integer types, on the mathematical value of the argument (\<^term>\<open>uint x\<close>
  for an unsigned and \<^term>\<open>sint x\<close> for a signed source).
\<close>

definition try_into_signed :: "int \<Rightarrow> 'n::len word res" where
  "try_into_signed v =
     (if - (2 ^ (LENGTH('n) - 1)) \<le> v \<and> v < 2 ^ (LENGTH('n) - 1) then Ok (word_of_int v)
      else Err (Anyhow ''out of range integral type conversion attempted''))"

definition try_into_unsigned :: "int \<Rightarrow> 'n::len word res" where
  "try_into_unsigned v =
     (if 0 \<le> v \<and> v < 2 ^ LENGTH('n) then Ok (word_of_int v)
      else Err (Anyhow ''out of range integral type conversion attempted''))"

lemma returns_try_into [simp]: "returns (try_into_signed v)" "returns (try_into_unsigned v)"
  by (simp_all add: try_into_signed_def try_into_unsigned_def)

lemma sint_of_int_in_range:
  assumes "- (2 ^ (LENGTH('n) - 1)) \<le> v" and "v < 2 ^ (LENGTH('n) - 1)"
  shows "sint (word_of_int v :: 'n::len word) = v"
  using assms by (simp add: sint_sbintrunc' signed_take_bit_int_eq_self)

lemma try_into_signed_Ok_iff:
  "try_into_signed v = Ok (w :: 'n::len word) \<longleftrightarrow> sint w = v"
proof
  assume "try_into_signed v = Ok w"
  then show "sint w = v"
    by (auto simp: try_into_signed_def sint_of_int_in_range split: if_splits)
next
  assume v: "sint w = v"
  have "- (2 ^ (LENGTH('n) - 1)) \<le> sint w" and "sint w < 2 ^ (LENGTH('n) - 1)"
    using sint_greater_eq [of w] sint_less [of w] by simp_all
  with v show "try_into_signed v = Ok w"
    by (auto simp: try_into_signed_def)
qed

lemma try_into_unsigned_Ok_iff:
  "try_into_unsigned v = Ok (w :: 'n::len word) \<longleftrightarrow> uint w = v"
proof
  assume "try_into_unsigned v = Ok w"
  then show "uint w = v"
    by (auto simp: try_into_unsigned_def take_bit_int_eq_self uint_word_of_int_eq split: if_splits)
next
  assume v: "uint w = v"
  moreover have "0 \<le> uint w" and "uint w < 2 ^ LENGTH('n)" by simp_all
  ultimately show "try_into_unsigned v = Ok w"
    by (auto simp: try_into_unsigned_def)
qed

subsection \<open>Computations\<close>

text \<open>
  A computation takes the mutable state and returns an outcome with the state as the code left
  it, whatever the outcome is. \<^term>\<open>io_bind m f\<close> is Rust's sequencing with \<open>?\<close>.
\<close>

type_synonym ('s, 'a) io = "'s \<Rightarrow> 'a res \<times> 's"

abbreviation ret :: "'a \<Rightarrow> ('s, 'a) io" where
  "ret x \<equiv> Pair (Ok x)"

abbreviation lift_res :: "'a res \<Rightarrow> ('s, 'a) io" where
  "lift_res r \<equiv> Pair r"

abbreviation fail :: "err \<Rightarrow> ('s, 'a) io" where
  "fail e \<equiv> lift_res (Err e)"

abbreviation panic :: "string \<Rightarrow> ('s, 'a) io" where
  "panic p \<equiv> lift_res (Panic p)"

definition io_bind :: "('s, 'a) io \<Rightarrow> ('a \<Rightarrow> ('s, 'b) io) \<Rightarrow> ('s, 'b) io" where
  "io_bind m f s =
     (case m s of (r, s') \<Rightarrow>
        (case r of Ok x \<Rightarrow> f x s' | Err e \<Rightarrow> (Err e, s') | Panic p \<Rightarrow> (Panic p, s')
         | NoFuel \<Rightarrow> (NoFuel, s')))"

abbreviation io_then :: "('s, unit) io \<Rightarrow> ('s, 'b) io \<Rightarrow> ('s, 'b) io" where
  "io_then m k \<equiv> io_bind m (\<lambda>_. k)"

text \<open>
  \<open>on_err m h\<close> runs the handler \<open>h\<close> when \<open>m\<close> returns an \<open>Err\<close> (\<open>match\<close>, \<open>map_err\<close>
  with effects, \<open>if let Err(e)\<close>); a panic unwinds past it. \<open>finally_do m k\<close> runs \<open>k\<close> when
  the scope of \<open>m\<close> is left in any way (\<open>Drop\<close>).
\<close>

definition on_err :: "('s, 'a) io \<Rightarrow> (err \<Rightarrow> ('s, 'a) io) \<Rightarrow> ('s, 'a) io" where
  "on_err m h s = (case m s of (r, s') \<Rightarrow> (case r of Err e \<Rightarrow> h e s' | _ \<Rightarrow> (r, s')))"

definition finally_do :: "('s, 'a) io \<Rightarrow> ('s, unit) io \<Rightarrow> ('s, 'a) io" where
  "finally_do m k s = (case m s of (r, s') \<Rightarrow> (r, snd (k s')))"

fun for_each :: "('x \<Rightarrow> ('s, unit) io) \<Rightarrow> 'x list \<Rightarrow> ('s, unit) io" where
  "for_each f [] = ret ()"
| "for_each f (x # xs) = io_then (f x) (for_each f xs)"

fun collect_io :: "('x \<Rightarrow> ('s, 'y) io) \<Rightarrow> 'x list \<Rightarrow> ('s, 'y list) io" where
  "collect_io f [] = ret []"
| "collect_io f (x # xs) =
     io_bind (f x) (\<lambda>y. io_bind (collect_io f xs) (\<lambda>ys. ret (y # ys)))"

declare io_bind_def [io_simps] on_err_def [io_simps] finally_do_def [io_simps]

lemma io_bind_simps [simp]:
  "io_bind (ret x) f = f x"
  "io_bind (fail e) f = fail e"
  "io_bind (panic p) f = panic p"
  "io_bind (lift_res NoFuel) f = lift_res NoFuel"
  by (auto simp: io_bind_def)

lemma io_bind_assoc [simp]: "io_bind (io_bind m f) g = io_bind m (\<lambda>x. io_bind (f x) g)"
  by (rule ext) (simp add: io_bind_def split: prod.split res.split)

lemma io_bind_ret [simp]: "io_bind m ret = m"
  by (rule ext) (simp add: io_bind_def split: prod.split res.split)

lemma io_then_ret [simp]: "io_bind m (\<lambda>_. ret ()) = m"
  by (rule ext) (simp add: io_bind_def split: prod.split res.split)

lemma io_bind_run:
  "m s = (Ok x, s') \<Longrightarrow> io_bind m f s = f x s'"
  "m s = (Err e, s') \<Longrightarrow> io_bind m f s = (Err e, s')"
  "m s = (Panic p, s') \<Longrightarrow> io_bind m f s = (Panic p, s')"
  "m s = (NoFuel, s') \<Longrightarrow> io_bind m f s = (NoFuel, s')"
  by (simp_all add: io_bind_def)

lemma io_bind_Ok_iff:
  "io_bind m f s = (Ok y, s'') \<longleftrightarrow> (\<exists>x s'. m s = (Ok x, s') \<and> f x s' = (Ok y, s''))"
  by (auto simp: io_bind_def split: prod.splits res.splits)

lemma finally_do_Ok_iff:
  "finally_do m k s = (Ok x, s'') \<longleftrightarrow> (\<exists>s'. m s = (Ok x, s') \<and> s'' = snd (k s'))"
  by (auto simp: finally_do_def split: prod.splits)

lemma returns_lift:
  "returns r \<Longrightarrow> (\<And>x. r = Ok x \<Longrightarrow> returns (fst (f x s))) \<Longrightarrow>
     returns (fst (io_bind (lift_res r) f s))"
  by (cases r) simp_all

lemma returns_io_bind:
  "returns (fst (m s)) \<Longrightarrow> (\<And>x s'. m s = (Ok x, s') \<Longrightarrow> returns (fst (f x s'))) \<Longrightarrow>
     returns (fst (io_bind m f s))"
  by (cases "m s"; cases "fst (m s)") (auto simp: io_bind_def)

lemma on_err_run:
  "m s = (Ok x, s') \<Longrightarrow> on_err m h s = (Ok x, s')"
  "m s = (Err e, s') \<Longrightarrow> on_err m h s = h e s'"
  "m s = (Panic p, s') \<Longrightarrow> on_err m h s = (Panic p, s')"
  "m s = (NoFuel, s') \<Longrightarrow> on_err m h s = (NoFuel, s')"
  by (simp_all add: on_err_def)

lemma for_each_append:
  "for_each f (xs @ ys) = io_then (for_each f xs) (for_each f ys)"
  by (induction xs) simp_all

lemma for_each_map: "for_each (\<lambda>x. f (g x)) xs = for_each f (map g xs)"
  by (induction xs) simp_all

lemma for_each_cong_set:
  "(\<And>x. x \<in> set xs \<Longrightarrow> f x = g x) \<Longrightarrow> for_each f xs = for_each g xs"
  by (induction xs) auto

lemma for_each_Ok:
  "(\<And>x s. x \<in> set xs \<Longrightarrow> fst (f x s) = Ok ()) \<Longrightarrow> fst (for_each f xs s) = Ok ()"
proof (induction xs arbitrary: s)
  case (Cons x xs)
  obtain s' where "f x s = (Ok (), s')"
    using Cons.prems [of x s] by (cases "f x s") auto
  with Cons show ?case by (simp add: io_bind_run)
qed simp

subsection \<open>What a computation does to its state\<close>

text \<open>
  \<^term>\<open>io_steps R m\<close>: on every outcome the final state of \<open>m\<close> is related to the initial one.
  For a preorder \<open>R\<close> this passes through every combinator, so that an operation built from
  calls that respect \<open>R\<close> respects it too: the interface below is interpreted for trace growth
  and for the invariants of the handlers.
\<close>

definition io_steps :: "('s \<Rightarrow> 's \<Rightarrow> bool) \<Rightarrow> ('s, 'a) io \<Rightarrow> bool" where
  "io_steps R m \<longleftrightarrow> (\<forall>s. R s (snd (m s)))"

locale io_preorder =
  fixes R :: "'s \<Rightarrow> 's \<Rightarrow> bool"
  assumes R_refl: "R s s"
    and R_trans: "R s t \<Longrightarrow> R t u \<Longrightarrow> R s u"
begin

lemma steps_pure: "io_steps R (lift_res r)"
  by (simp add: io_steps_def R_refl)

lemma steps_bind:
  assumes "io_steps R m" and "\<And>x. io_steps R (f x)"
  shows "io_steps R (io_bind m f)"
  unfolding io_steps_def
proof
  fix s
  obtain r s' where m: "m s = (r, s')" by (cases "m s")
  then have "R s s'" using assms(1) by (metis io_steps_def snd_conv)
  moreover have "R s' (snd (f x s'))" for x using assms(2) by (simp add: io_steps_def)
  ultimately show "R s (snd (io_bind m f s))"
    using m by (auto simp: io_bind_def split: res.split intro: R_trans)
qed

lemma steps_on_err:
  assumes "io_steps R m" and "\<And>e. io_steps R (h e)"
  shows "io_steps R (on_err m h)"
  unfolding io_steps_def
proof
  fix s
  obtain r s' where m: "m s = (r, s')" by (cases "m s")
  then have "R s s'" using assms(1) by (metis io_steps_def snd_conv)
  moreover have "R s' (snd (h e s'))" for e using assms(2) by (simp add: io_steps_def)
  ultimately show "R s (snd (on_err m h s))"
    using m by (auto simp: on_err_def split: res.split intro: R_trans)
qed

lemma steps_finally_do:
  assumes "io_steps R m" and "io_steps R k"
  shows "io_steps R (finally_do m k)"
  using assms by (auto simp: io_steps_def finally_do_def split: prod.split)
    (metis R_trans snd_conv)

lemma steps_for_each: "(\<And>x. io_steps R (f x)) \<Longrightarrow> io_steps R (for_each f xs)"
  by (induction xs) (auto intro: steps_pure steps_bind)

lemma steps_collect_io: "(\<And>x. io_steps R (f x)) \<Longrightarrow> io_steps R (collect_io f xs)"
  by (induction xs) (auto intro!: steps_pure steps_bind)

lemma steps_if:
  "(b \<Longrightarrow> io_steps R m) \<Longrightarrow> (\<not> b \<Longrightarrow> io_steps R k) \<Longrightarrow> io_steps R (if b then m else k)"
  by simp

lemma steps_case_option:
  "io_steps R m \<Longrightarrow> (\<And>x. io_steps R (k x)) \<Longrightarrow>
     io_steps R (case v of None \<Rightarrow> m | Some x \<Rightarrow> k x)"
  by (cases v) auto

lemmas steps_intros = steps_pure steps_bind steps_on_err steps_finally_do steps_for_each
  steps_collect_io steps_if steps_case_option

end

subsection \<open>Computations without unbounded loops\<close>

text \<open>\<open>fuel_free m\<close>: whatever happens, \<open>m\<close> does not run out of fuel. Everything but the loops that
  are given fuel is of this kind.\<close>

definition fuel_free :: "('s, 'a) io \<Rightarrow> bool" where
  "fuel_free m \<longleftrightarrow> (\<forall>s. fst (m s) \<noteq> NoFuel)"

lemma fuel_freeD: "fuel_free m \<Longrightarrow> m s \<noteq> (NoFuel, s')"
  by (metis fuel_free_def fst_conv)

lemma returns_not_NoFuel: "returns r \<Longrightarrow> r \<noteq> NoFuel"
  by (cases r) auto

lemma fuel_free_pure: "r \<noteq> NoFuel \<Longrightarrow> fuel_free (lift_res r)"
  by (simp add: fuel_free_def)

lemma fuel_free_bind:
  assumes "fuel_free m" and "\<And>x. fuel_free (f x)"
  shows "fuel_free (io_bind m f)"
  unfolding fuel_free_def
proof
  fix s
  obtain r s' where m: "m s = (r, s')" by (cases "m s")
  with assms(1) have "r \<noteq> NoFuel" by (metis fuel_free_def fst_conv)
  with m assms(2) show "fst (io_bind m f s) \<noteq> NoFuel"
    by (cases r) (simp_all add: io_bind_def fuel_free_def)
qed

lemma fuel_free_on_err:
  assumes "fuel_free m" and "\<And>e. fuel_free (h e)"
  shows "fuel_free (on_err m h)"
  unfolding fuel_free_def
proof
  fix s
  obtain r s' where m: "m s = (r, s')" by (cases "m s")
  with assms(1) have "r \<noteq> NoFuel" by (metis fuel_free_def fst_conv)
  with m assms(2) show "fst (on_err m h s) \<noteq> NoFuel"
    by (cases r) (simp_all add: on_err_def fuel_free_def)
qed

lemma fuel_free_finally_do: "fuel_free m \<Longrightarrow> fuel_free (finally_do m k)"
  by (simp add: fuel_free_def finally_do_def split_def)

lemma fuel_free_for_each: "(\<And>x. fuel_free (f x)) \<Longrightarrow> fuel_free (for_each f xs)"
  by (induction xs) (auto intro: fuel_free_pure fuel_free_bind)

lemma fuel_free_collect_io: "(\<And>x. fuel_free (f x)) \<Longrightarrow> fuel_free (collect_io f xs)"
  by (induction xs) (auto intro!: fuel_free_pure fuel_free_bind)

lemma fuel_free_if:
  "(b \<Longrightarrow> fuel_free m) \<Longrightarrow> (\<not> b \<Longrightarrow> fuel_free k) \<Longrightarrow> fuel_free (if b then m else k)"
  by simp

lemma fuel_free_case_option:
  "fuel_free m \<Longrightarrow> (\<And>x. fuel_free (k x)) \<Longrightarrow> fuel_free (case v of None \<Rightarrow> m | Some x \<Rightarrow> k x)"
  by (cases v) auto

lemmas fuel_free_intros = fuel_free_pure fuel_free_bind fuel_free_on_err fuel_free_finally_do
  fuel_free_for_each fuel_free_collect_io fuel_free_if fuel_free_case_option

lemma res_NoFuel_simps [simp]:
  "ok_or v e \<noteq> NoFuel" "ensure b e \<noteq> NoFuel" "try_into_signed i \<noteq> NoFuel"
  "try_into_unsigned i \<noteq> NoFuel"
  by (simp_all add: returns_not_NoFuel)

lemma res_bind_NoFuel: "r \<noteq> NoFuel \<Longrightarrow> (\<And>x. f x \<noteq> NoFuel) \<Longrightarrow> res_bind r f \<noteq> NoFuel"
  by (cases r) auto

lemma collect_res_NoFuel: "(\<And>x. f x \<noteq> NoFuel) \<Longrightarrow> collect_res f xs \<noteq> NoFuel"
proof (induction xs)
  case (Cons x xs)
  then show ?case unfolding collect_res.simps
    by (intro res_bind_NoFuel) simp_all
qed simp

subsection \<open>Strings and bytes\<close>

text \<open>
  A Rust string is its UTF-8 bytes, one \<^typ>\<open>char\<close> per byte; a \<open>c_char\<close> array is a byte list
  too. \<^term>\<open>valid_utf8\<close> is the table of well-formed byte sequences that \<open>str::from_utf8\<close> checks.
\<close>

abbreviation NUL :: char where "NUL \<equiv> CHR 0x00"

abbreviation byte_of :: "char \<Rightarrow> nat" where "byte_of c \<equiv> of_char c"

definition utf8_cont :: "nat \<Rightarrow> bool" where
  "utf8_cont b \<longleftrightarrow> 128 \<le> b \<and> b \<le> 191"

definition utf8_second3 :: "nat \<Rightarrow> nat \<Rightarrow> bool" where
  "utf8_second3 a b \<longleftrightarrow>
     (if a = 224 then 160 \<le> b \<and> b \<le> 191
      else if a = 237 then 128 \<le> b \<and> b \<le> 159
      else utf8_cont b)"

definition utf8_second4 :: "nat \<Rightarrow> nat \<Rightarrow> bool" where
  "utf8_second4 a b \<longleftrightarrow>
     (if a = 240 then 144 \<le> b \<and> b \<le> 191
      else if a = 244 then 128 \<le> b \<and> b \<le> 143
      else utf8_cont b)"

fun utf8_ok :: "nat list \<Rightarrow> bool" where
  "utf8_ok [] = True"
| "utf8_ok (a # bs) =
     (if a < 128 then utf8_ok bs
      else if 194 \<le> a \<and> a \<le> 223 then
        (case bs of b # r \<Rightarrow> utf8_cont b \<and> utf8_ok r | _ \<Rightarrow> False)
      else if 224 \<le> a \<and> a \<le> 239 then
        (case bs of b # c # r \<Rightarrow> utf8_second3 a b \<and> utf8_cont c \<and> utf8_ok r | _ \<Rightarrow> False)
      else if 240 \<le> a \<and> a \<le> 244 then
        (case bs of b # c # d # r \<Rightarrow> utf8_second4 a b \<and> utf8_cont c \<and> utf8_cont d \<and> utf8_ok r
         | _ \<Rightarrow> False)
      else False)"

definition valid_utf8 :: "string \<Rightarrow> bool" where
  "valid_utf8 s \<longleftrightarrow> utf8_ok (map byte_of s)"

definition ascii :: "string \<Rightarrow> bool" where
  "ascii s \<longleftrightarrow> (\<forall>c \<in> set s. byte_of c < (128 :: nat))"

lemma valid_utf8_Nil [simp]: "valid_utf8 []"
  by (simp add: valid_utf8_def)

lemma ascii_valid_utf8: "ascii s \<Longrightarrow> valid_utf8 s"
  by (induction s) (auto simp: ascii_def valid_utf8_def)

text \<open>\<open>String::from_utf8_lossy\<close>: every maximal prefix of an ill-formed sequence becomes one replacement
  character. The result of one step is the number of bytes it takes and whether they are well-formed.\<close>

definition utf8_step :: "nat \<Rightarrow> nat list \<Rightarrow> nat \<times> bool" where
  "utf8_step a bs =
     (let at = (\<lambda>i. if i < length bs then bs ! i else 0) in
      if a < 128 then (1, True)
      else if 194 \<le> a \<and> a \<le> 223 then
        (if utf8_cont (at 0) then (2, True) else (1, False))
      else if 224 \<le> a \<and> a \<le> 239 then
        (if \<not> utf8_second3 a (at 0) then (1, False)
         else if \<not> utf8_cont (at 1) then (2, False) else (3, True))
      else if 240 \<le> a \<and> a \<le> 244 then
        (if \<not> utf8_second4 a (at 0) then (1, False)
         else if \<not> utf8_cont (at 1) then (2, False)
         else if \<not> utf8_cont (at 2) then (3, False) else (4, True))
      else (1, False))"

function lossy_bytes :: "nat list \<Rightarrow> nat list" where
  "lossy_bytes [] = []"
| "lossy_bytes (a # bs) =
     (case utf8_step a bs of (n, ok) \<Rightarrow>
       (if ok then take n (a # bs) else [239, 191, 189]) @ lossy_bytes (drop (n - 1) bs))"
  by pat_completeness auto
termination
  by (relation "measure length") auto

definition from_utf8_lossy :: "char list \<Rightarrow> string" where
  "from_utf8_lossy bs = map char_of (lossy_bytes (map byte_of bs))"

lemma utf8_step_ok:
  assumes "utf8_ok (a # bs)"
  obtains n where "utf8_step a bs = (Suc n, True)" and "utf8_ok (drop n bs)"
proof -
  consider (one) "a < 128" "utf8_ok bs"
    | (two) b r where "194 \<le> a" "a \<le> 223" "bs = b # r" "utf8_cont b" "utf8_ok r"
    | (three) b c r where "224 \<le> a" "a \<le> 239" "bs = b # c # r" "utf8_second3 a b" "utf8_cont c" "utf8_ok r"
    | (four) b c d r where "240 \<le> a" "a \<le> 244" "bs = b # c # d # r" "utf8_second4 a b" "utf8_cont c"
        "utf8_cont d" "utf8_ok r"
    using assms by (auto split: if_splits list.splits)
  then show thesis
  proof cases
    case one
    then show thesis by (intro that [of 0]) (simp_all add: utf8_step_def Let_def)
  next
    case two
    then show thesis by (intro that [of 1]) (simp_all add: utf8_step_def Let_def)
  next
    case three
    then show thesis by (intro that [of 2]) (simp_all add: utf8_step_def Let_def)
  next
    case four
    then show thesis by (intro that [of 3]) (simp_all add: utf8_step_def Let_def)
  qed
qed

lemma lossy_bytes_ok: "utf8_ok bs \<Longrightarrow> lossy_bytes bs = bs"
proof (induction bs rule: lossy_bytes.induct)
  case (2 a bs)
  from utf8_step_ok [OF 2(2)] obtain n where n: "utf8_step a bs = (Suc n, True)" "utf8_ok (drop n bs)" .
  with 2(1) [of "Suc n" True] have "lossy_bytes (drop n bs) = drop n bs" by simp
  with n show ?case by simp
qed simp

text \<open>A string, which is valid UTF-8, is unchanged.\<close>

lemma from_utf8_lossy_id: "valid_utf8 s \<Longrightarrow> from_utf8_lossy s = s"
  by (simp add: from_utf8_lossy_def valid_utf8_def lossy_bytes_ok comp_def)

text \<open>\<open>CStr::from_bytes_until_nul\<close> followed by \<open>to_str\<close>, and \<open>CString::new\<close>.\<close>

definition from_bytes_until_nul :: "char list \<Rightarrow> char list res" where
  "from_bytes_until_nul bs =
     (if NUL \<in> set bs then Ok (takeWhile (\<lambda>c. c \<noteq> NUL) bs)
      else Err (Anyhow ''data provided does not contain a nul''))"

definition to_str :: "char list \<Rightarrow> string res" where
  "to_str bs = (if valid_utf8 bs then Ok bs else Err (Anyhow ''invalid utf-8 sequence''))"

text \<open>\<open>str::contains\<close>, \<open>starts_with\<close> and \<open>ends_with\<close> are \<^const>\<open>sublist\<close>, \<^const>\<open>prefix\<close> and
  \<^const>\<open>suffix\<close>; \<open>rsplit(c).next()\<close> is what follows the last \<open>c\<close>, and never \<^const>\<open>None\<close>.\<close>

definition rsplit_next :: "char \<Rightarrow> string \<Rightarrow> string option" where
  "rsplit_next c s = Some (rev (takeWhile (\<lambda>x. x \<noteq> c) (rev s)))"

fun split_on :: "char \<Rightarrow> string \<Rightarrow> string list" where
  "split_on c [] = [[]]"
| "split_on c (x # xs) =
     (if x = c then [] # split_on c xs
      else (case split_on c xs of [] \<Rightarrow> [[x]] | p # ps \<Rightarrow> (x # p) # ps))"

lemma takeWhile_append_NUL:
  "NUL \<notin> set s \<Longrightarrow> takeWhile (\<lambda>c. c \<noteq> NUL) (s @ NUL # r) = s"
  by (induction s) auto

lemma rsplit_next_after: "c \<notin> set s \<Longrightarrow> rsplit_next c (d @ c # s) = Some s"
  by (simp add: rsplit_next_def rev_swap)
    (metis (mono_tags, lifting) set_rev takeWhile_eq_all_conv takeWhile_tail)

subsection \<open>Durations\<close>

text \<open>\<open>std::time::Duration\<close> in nanoseconds; \<open>saturating_sub\<close> is subtraction on \<^typ>\<open>nat\<close>.\<close>

type_synonym duration = nat

definition from_secs :: "nat \<Rightarrow> duration" where "from_secs n = n * 1000000000"
definition from_millis :: "nat \<Rightarrow> duration" where "from_millis n = n * 1000000"
definition from_nanos :: "u64 \<Rightarrow> duration" where "from_nanos n = unat n"
definition as_millis :: "duration \<Rightarrow> nat" where "as_millis d = d div 1000000"

lemma as_millis_from_nanos: "as_millis (from_nanos n) < 2 ^ 63"
proof -
  have "unat n < 2 ^ 64" using unsigned_less [of n, where ?'a = nat] by simp
  then show ?thesis by (simp add: as_millis_def from_nanos_def)
qed

lemma as_millis_from_secs [simp]: "as_millis (from_secs n) = n * 1000"
  by (simp add: as_millis_def from_secs_def)

subsection \<open>Hash maps\<close>

text \<open>
  A \<open>HashMap\<close> is an association list with distinct keys. Its iteration order is unspecified in
  Rust; the list order stands for one such order, and facts about iteration are stated up to it.
  \<open>HashMap::insert\<close> returns the value it replaced.
\<close>

type_synonym ('k, 'v) hashmap = "('k \<times> 'v) list"

definition hm_wf :: "('k, 'v) hashmap \<Rightarrow> bool" where
  "hm_wf m \<longleftrightarrow> distinct (map fst m)"

definition hm_insert :: "'k \<Rightarrow> 'v \<Rightarrow> ('k, 'v) hashmap \<Rightarrow> 'v option \<times> ('k, 'v) hashmap" where
  "hm_insert k v m = (map_of m k, AList.update k v m)"

lemma hm_insert_lookup [simp]: "map_of (snd (hm_insert k v m)) = (map_of m)(k \<mapsto> v)"
  by (simp add: hm_insert_def update_conv')

lemma hm_insert_wf [simp]: "hm_wf m \<Longrightarrow> hm_wf (snd (hm_insert k v m))"
  by (simp add: hm_insert_def hm_wf_def distinct_update)

lemma update_new: "k \<notin> fst ` set m \<Longrightarrow> AList.update k v m = m @ [(k, v)]"
  by (induction m) auto

lemma hm_insert_new:
  "map_of m k = None \<Longrightarrow> hm_insert k v m = (None, m @ [(k, v)])"
  by (simp add: hm_insert_def update_new map_of_eq_None_iff)

lemma map_filter_append [simp]:
  "List.map_filter f (xs @ ys) = List.map_filter f xs @ List.map_filter f ys"
  by (simp add: map_filter_def)

end
