(* ===== verification/Atoms.thy ===== *)
theory Atoms
  imports Rust_Prelude
begin

section \<open>Atoms and events\<close>

text \<open>
  The data that leaves the daemon: \<open>core/atom.rs\<close> (unstructured and codegen atoms), the AIDL
  event of the bridge service, and the enumerations of the generated statsd bindings as
  \<open>android/atom.rs\<close> names them. The bindings duplicate two enumerations per atom, so there
  are two types of BPF programs and of map paths, converted into each other here as there.
\<close>

subsection \<open>core/atom.rs\<close>

datatype Value =
    VBool bool
  | VInt32 i32
  | VInt64 i64
  | VString string
  | VInt32Vec "i32 list"
  | VInt64Vec "i64 list"

datatype FieldAnnotation = IsUid bool

record Field =
  fld_value :: Value
  fld_annotations :: "FieldAnnotation list"

definition Field_new :: "Value \<Rightarrow> Field" where
  "Field_new v = \<lparr>fld_value = v, fld_annotations = []\<rparr>"

definition Field_new_with_annotation :: "Value \<Rightarrow> FieldAnnotation \<Rightarrow> Field" where
  "Field_new_with_annotation v a = \<lparr>fld_value = v, fld_annotations = [a]\<rparr>"

record UnstructuredAtom =
  ua_atom_id :: u32
  ua_fields :: "Field list"

datatype CodegenAtom =
    SetComponentEnabledSettingReported string string i32 string bool
  | DisabledLauncherActivityUidsReported i32 i32
  | BindServiceLockedWithBalFlagsReported string i64 string string string string
  | BindServiceLockedWithBalFlagsUidsReported i32 i32
  | AndroidGraphicsBitmapAllocated i32 i32 i32
  | AndroidGraphicsBitmapScaled i32 i32 i32 i32 i32 i32 string
  | AndroidGraphicsBitmapAllocationSnapshot i32 i32 i32 i32 i64 i32 string

subsection \<open>The AIDL event\<close>

datatype AidlValue = StringValue string | IntValue i32

record Entry =
  entry_key :: string
  entry_val :: AidlValue

record AidlEvent =
  ev_uid :: i32
  ev_timestampMs :: i64
  ev_payloadId :: i32
  ev_payload :: "Entry list"

datatype DynamicInstrumentationPayloadIds =
    BinderTransactionId
  | DisabledLauncherActivityId
  | BindAllowBackgroundActivityStartsId
  | RuntimePermissionGrantId

fun payload_id_as_i32 :: "DynamicInstrumentationPayloadIds \<Rightarrow> i32" where
  "payload_id_as_i32 BinderTransactionId = 1"
| "payload_id_as_i32 DisabledLauncherActivityId = 2"
| "payload_id_as_i32 BindAllowBackgroundActivityStartsId = 3"
| "payload_id_as_i32 RuntimePermissionGrantId = 4"

subsection \<open>The enumerations of the generated bindings\<close>

datatype BpfProgram =
    UprobeStatsBpfProgramUnspecified
  | ProgAccessibilityUprobeAccessibilityServiceConnection
  | ProgAccessibilityUprobeGrantRuntimePermission
  | ProgBinderUprobeExecTransactInternal
  | ProgBitmapAllocationOutput
  | ProgBitmapAllocationUprobeActivityPerformStart
  | ProgBitmapAllocationUprobeApplyFreeFunction
  | ProgBitmapAllocationUprobeBitmapCreationForSnapshot
  | ProgBitmapAllocationUprobeCreateScaledBitmap
  | ProgDisruptiveAppUprobeBindServiceLocked
  | ProgDisruptiveAppUprobeSetComponentEnabledSetting
  | ProgGenericInstrumentationUprobeCallDetail
  | ProgGenericInstrumentationUprobeCallTimestamp
  | ProgKeepaliveUprobeAcquireWakeLockInternal
  | ProgKeepaliveUprobeReleaseWakeLockInternal

datatype MapPath =
    UprobeStatsBpfMapPathUnspecified
  | BpfMapPathAccessibilityOutputBuf
  | BpfMapPathBinderOutputBuf
  | BpfMapPathBitmapAllocationOutput
  | BpfMapPathDisruptiveAppBindServiceLockedOutputBuf
  | BpfMapPathDisruptiveAppComponentEnabledSettingOutputBuf
  | BpfMapPathGenericInstrumentationCallDetailBuf
  | BpfMapPathGenericInstrumentationCallTimestampBuf
  | BpfMapPathKeepaliveOutputBuf

text \<open>The copies in the bindings of \<open>uprobe_stats_internal_error\<close>.\<close>

datatype IeBpfProgram =
    IeUprobeStatsBpfProgramUnspecified
  | IeProgAccessibilityUprobeAccessibilityServiceConnection
  | IeProgAccessibilityUprobeGrantRuntimePermission
  | IeProgBinderUprobeExecTransactInternal
  | IeProgBitmapAllocationOutput
  | IeProgBitmapAllocationUprobeActivityPerformStart
  | IeProgBitmapAllocationUprobeApplyFreeFunction
  | IeProgBitmapAllocationUprobeBitmapCreationForSnapshot
  | IeProgBitmapAllocationUprobeCreateScaledBitmap
  | IeProgDisruptiveAppUprobeBindServiceLocked
  | IeProgDisruptiveAppUprobeSetComponentEnabledSetting
  | IeProgGenericInstrumentationUprobeCallDetail
  | IeProgGenericInstrumentationUprobeCallTimestamp
  | IeProgKeepaliveUprobeAcquireWakeLockInternal
  | IeProgKeepaliveUprobeReleaseWakeLockInternal

datatype IeMapPath =
    IeUprobeStatsBpfMapPathUnspecified
  | IeBpfMapPathAccessibilityOutputBuf
  | IeBpfMapPathBinderOutputBuf
  | IeBpfMapPathBitmapAllocationOutput
  | IeBpfMapPathDisruptiveAppBindServiceLockedOutputBuf
  | IeBpfMapPathDisruptiveAppComponentEnabledSettingOutputBuf
  | IeBpfMapPathGenericInstrumentationCallDetailBuf
  | IeBpfMapPathGenericInstrumentationCallTimestampBuf
  | IeBpfMapPathKeepaliveOutputBuf

datatype ErrorType =
    ErrorTypeConfigParseFailed
  | ErrorTypeTaskConflict
  | ErrorTypeTaskExecutionFailed
  | ErrorTypeBinderFilterSetupFailed
  | ErrorTypeBinderFilterCleanupFailed
  | ErrorTypeBpfProgramAttachFailed
  | ErrorTypeBpfRingBufferCreateFailed
  | ErrorTypeBpfRingBufferPollFailed
  | ErrorTypeBpfProgramError
  | ErrorTypeBpfRingBufferDataInvalid

datatype InvocationType = InvocationTypeServiceStarted | InvocationTypeStartTasksReceived

datatype PixelStorageType =
    PixelStorageTypeUnspecified
  | PixelStorageTypeWrappedPixelRef
  | PixelStorageTypeHeap
  | PixelStorageTypeAshmem
  | PixelStorageTypeHardware

datatype SnapshotType =
    SnapshotTypeUnspecified
  | SnapshotTypeMaxAllocationSize
  | SnapshotTypeRandomSample

text \<open>The calls into the generated writers of the codegen atoms, with their arguments.\<close>

datatype CodegenCall =
    set_component_enabled_setting_reported string string i32 string bool
  | disabled_launcher_activity_uids_reported i32 i32
  | bind_service_locked_with_bal_flags_reported string i64 string string string string
  | bind_service_locked_with_bal_flags_uids_reported i32 i32
  | android_graphics_bitmap_allocated i32 i32 i32
  | android_graphics_bitmap_scaled i32 i32 i32 i32 i32 PixelStorageType string
  | android_graphics_bitmap_allocation_snapshot i32 i32 i32 PixelStorageType i64 SnapshotType string

subsection \<open>android/atom.rs: paths and codes to enumerations\<close>

text \<open>The \<open>match\<close> on the file name, first arm first.\<close>

fun match_str :: "(string \<times> 'a) list \<Rightarrow> 'a \<Rightarrow> string \<Rightarrow> 'a" where
  "match_str [] d s = d"
| "match_str ((p, v) # arms) d s = (if s = p then v else match_str arms d s)"

definition program_arms :: "(string \<times> BpfProgram) list" where
  "program_arms =
    [(''prog_Accessibility_uprobe_dispatch_gesture'',
        ProgAccessibilityUprobeAccessibilityServiceConnection),
     (''prog_Accessibility_uprobe_grant_runtime_permission'',
        ProgAccessibilityUprobeGrantRuntimePermission),
     (''prog_Binder_uprobe_exec_transact_internal'', ProgBinderUprobeExecTransactInternal),
     (''prog_BitmapAllocation_uprobe_activity_perform_start'',
        ProgBitmapAllocationUprobeActivityPerformStart),
     (''prog_BitmapAllocation_uprobe_apply_free_function'',
        ProgBitmapAllocationUprobeApplyFreeFunction),
     (''prog_BitmapAllocation_uprobe_bitmap_creation_for_snapshot'',
        ProgBitmapAllocationUprobeBitmapCreationForSnapshot),
     (''prog_BitmapAllocation_uprobe_create_scaled_bitmap'',
        ProgBitmapAllocationUprobeCreateScaledBitmap),
     (''prog_DisruptiveApp_uprobe_bind_service_locked'', ProgDisruptiveAppUprobeBindServiceLocked),
     (''prog_DisruptiveApp_uprobe_set_component_enabled_setting'',
        ProgDisruptiveAppUprobeSetComponentEnabledSetting),
     (''prog_GenericInstrumentation_uprobe_call_detail'',
        ProgGenericInstrumentationUprobeCallDetail),
     (''prog_GenericInstrumentation_uprobe_call_timestamp'',
        ProgGenericInstrumentationUprobeCallTimestamp)]"

definition bpf_program_path_to_enum :: "string \<Rightarrow> BpfProgram res" where
  "bpf_program_path_to_enum path =
     (case rsplit_next (CHR ''/'') path of
        None \<Rightarrow> Err (Anyhow ''Failed to extract filename from path: {path}'')
      | Some filename \<Rightarrow> Ok (match_str program_arms UprobeStatsBpfProgramUnspecified filename))"

definition map_path_arms :: "(string \<times> MapPath) list" where
  "map_path_arms =
    [(''map_Accessibility_output_buf'', BpfMapPathAccessibilityOutputBuf),
     (''map_Binder_output_buf'', BpfMapPathBinderOutputBuf),
     (''map_BitmapAllocation_output'', BpfMapPathBitmapAllocationOutput),
     (''map_DisruptiveApp_BindServiceLocked_output_buf'',
        BpfMapPathDisruptiveAppBindServiceLockedOutputBuf),
     (''map_DisruptiveApp_ComponentEnabledSetting_output_buf'',
        BpfMapPathDisruptiveAppComponentEnabledSettingOutputBuf),
     (''map_GenericInstrumentation_call_detail_buf'',
        BpfMapPathGenericInstrumentationCallDetailBuf),
     (''map_GenericInstrumentation_call_timestamp_buf'',
        BpfMapPathGenericInstrumentationCallTimestampBuf)]"

definition bpf_map_path_to_enum :: "string \<Rightarrow> MapPath res" where
  "bpf_map_path_to_enum map_path =
     (case rsplit_next (CHR ''/'') map_path of
        None \<Rightarrow> Err (Anyhow ''Failed to extract filename from map_path: {map_path}'')
      | Some filename \<Rightarrow> Ok (match_str map_path_arms UprobeStatsBpfMapPathUnspecified filename))"

fun to_internal_error_bpf_attached_program :: "BpfProgram \<Rightarrow> IeBpfProgram" where
  "to_internal_error_bpf_attached_program UprobeStatsBpfProgramUnspecified =
     IeUprobeStatsBpfProgramUnspecified"
| "to_internal_error_bpf_attached_program ProgAccessibilityUprobeAccessibilityServiceConnection =
     IeProgAccessibilityUprobeAccessibilityServiceConnection"
| "to_internal_error_bpf_attached_program ProgAccessibilityUprobeGrantRuntimePermission =
     IeProgAccessibilityUprobeGrantRuntimePermission"
| "to_internal_error_bpf_attached_program ProgBinderUprobeExecTransactInternal =
     IeProgBinderUprobeExecTransactInternal"
| "to_internal_error_bpf_attached_program ProgBitmapAllocationOutput = IeProgBitmapAllocationOutput"
| "to_internal_error_bpf_attached_program ProgBitmapAllocationUprobeActivityPerformStart =
     IeProgBitmapAllocationUprobeActivityPerformStart"
| "to_internal_error_bpf_attached_program ProgBitmapAllocationUprobeApplyFreeFunction =
     IeProgBitmapAllocationUprobeApplyFreeFunction"
| "to_internal_error_bpf_attached_program ProgBitmapAllocationUprobeBitmapCreationForSnapshot =
     IeProgBitmapAllocationUprobeBitmapCreationForSnapshot"
| "to_internal_error_bpf_attached_program ProgBitmapAllocationUprobeCreateScaledBitmap =
     IeProgBitmapAllocationUprobeCreateScaledBitmap"
| "to_internal_error_bpf_attached_program ProgDisruptiveAppUprobeBindServiceLocked =
     IeProgDisruptiveAppUprobeBindServiceLocked"
| "to_internal_error_bpf_attached_program ProgDisruptiveAppUprobeSetComponentEnabledSetting =
     IeProgDisruptiveAppUprobeSetComponentEnabledSetting"
| "to_internal_error_bpf_attached_program ProgGenericInstrumentationUprobeCallDetail =
     IeProgGenericInstrumentationUprobeCallDetail"
| "to_internal_error_bpf_attached_program ProgGenericInstrumentationUprobeCallTimestamp =
     IeProgGenericInstrumentationUprobeCallTimestamp"
| "to_internal_error_bpf_attached_program ProgKeepaliveUprobeAcquireWakeLockInternal =
     IeProgKeepaliveUprobeAcquireWakeLockInternal"
| "to_internal_error_bpf_attached_program ProgKeepaliveUprobeReleaseWakeLockInternal =
     IeProgKeepaliveUprobeReleaseWakeLockInternal"

fun to_internal_error_bpf_map_polled_path :: "MapPath \<Rightarrow> IeMapPath" where
  "to_internal_error_bpf_map_polled_path UprobeStatsBpfMapPathUnspecified =
     IeUprobeStatsBpfMapPathUnspecified"
| "to_internal_error_bpf_map_polled_path BpfMapPathAccessibilityOutputBuf =
     IeBpfMapPathAccessibilityOutputBuf"
| "to_internal_error_bpf_map_polled_path BpfMapPathBinderOutputBuf = IeBpfMapPathBinderOutputBuf"
| "to_internal_error_bpf_map_polled_path BpfMapPathBitmapAllocationOutput =
     IeBpfMapPathBitmapAllocationOutput"
| "to_internal_error_bpf_map_polled_path BpfMapPathDisruptiveAppBindServiceLockedOutputBuf =
     IeBpfMapPathDisruptiveAppBindServiceLockedOutputBuf"
| "to_internal_error_bpf_map_polled_path BpfMapPathDisruptiveAppComponentEnabledSettingOutputBuf =
     IeBpfMapPathDisruptiveAppComponentEnabledSettingOutputBuf"
| "to_internal_error_bpf_map_polled_path BpfMapPathGenericInstrumentationCallDetailBuf =
     IeBpfMapPathGenericInstrumentationCallDetailBuf"
| "to_internal_error_bpf_map_polled_path BpfMapPathGenericInstrumentationCallTimestampBuf =
     IeBpfMapPathGenericInstrumentationCallTimestampBuf"
| "to_internal_error_bpf_map_polled_path BpfMapPathKeepaliveOutputBuf =
     IeBpfMapPathKeepaliveOutputBuf"

definition convert_to_pixel_storage_type_enum :: "i32 \<Rightarrow> PixelStorageType" where
  "convert_to_pixel_storage_type_enum t =
     (if t = 0 then PixelStorageTypeWrappedPixelRef
      else if t = 1 then PixelStorageTypeHeap
      else if t = 2 then PixelStorageTypeAshmem
      else if t = 3 then PixelStorageTypeHardware
      else PixelStorageTypeUnspecified)"

definition convert_to_bitmap_scaled_pixel_storage_type_enum :: "i32 \<Rightarrow> PixelStorageType" where
  "convert_to_bitmap_scaled_pixel_storage_type_enum t =
     (if t = 0 then PixelStorageTypeWrappedPixelRef
      else if t = 1 then PixelStorageTypeHeap
      else if t = 2 then PixelStorageTypeAshmem
      else if t = 3 then PixelStorageTypeHardware
      else PixelStorageTypeUnspecified)"

definition convert_to_snapshot_type_enum :: "i32 \<Rightarrow> SnapshotType" where
  "convert_to_snapshot_type_enum t =
     (if t = 1 then SnapshotTypeMaxAllocationSize
      else if t = 2 then SnapshotTypeRandomSample
      else SnapshotTypeUnspecified)"

subsection \<open>The path lookups are total and follow the tables\<close>

lemma match_str_map_of: "match_str arms d s = (case map_of arms s of None \<Rightarrow> d | Some v \<Rightarrow> v)"
  by (induction arms) auto

lemma path_to_enum_total [simp]:
  "bpf_program_path_to_enum path =
     Ok (match_str program_arms UprobeStatsBpfProgramUnspecified
          (rev (takeWhile (\<lambda>c. c \<noteq> CHR ''/'') (rev path))))"
  "bpf_map_path_to_enum path =
     Ok (match_str map_path_arms UprobeStatsBpfMapPathUnspecified
          (rev (takeWhile (\<lambda>c. c \<noteq> CHR ''/'') (rev path))))"
  by (simp_all add: bpf_program_path_to_enum_def bpf_map_path_to_enum_def rsplit_next_def)

lemma to_internal_error_inj:
  "inj to_internal_error_bpf_attached_program" "inj to_internal_error_bpf_map_polled_path"
  by (rule injI, rename_tac p q, case_tac p; case_tac q; simp)+

end
