(* ===== verification/World.thy ===== *)
theory World
  imports Atoms
begin

section \<open>The world of the daemon\<close>

text \<open>
  Everything the daemon does to the outside is an \<^emph>\<open>effect\<close>, and the world is the list of
  effects so far, oldest first. Code outside the repository (the kernel, \<open>libstatssocket\<close>, the
  bridge service behind Binder, the clocks) is a parameter: a function from the trace so far and
  the arguments of the call to its reply, so that a reply may depend on everything that happened
  before. The state of a computation is a pair of the mutable Rust object it works on (a handler,
  or \<^typ>\<open>unit\<close>) and the trace.
\<close>

subsection \<open>Effects\<close>

text \<open>The calls that fill an \<open>AStatsEvent\<close> of \<open>libstatssocket\<close>.\<close>

datatype stats_call =
    WriteBool bool
  | WriteInt32 i32
  | WriteInt64 i64
  | WriteString string
  | WriteInt32Array "i32 list"
  | WriteInt64Array "i64 list"
  | AddBoolAnnotation u8 bool

type_synonym CKey = "char list"
type_synonym CValue = "c_ulong list"

text \<open>The objects that the C interfaces of the platform hand out and take back.\<close>

datatype foreign =
    TargetProcessObj
  | MethodDescriptorObj
  | MethodFileOffsetsObj
  | RunningProcessListObj
  | ProcessObserverObj

datatype effect =
    StatsObtain u32
  | StatsWrite u32 "stats_call list" int
  | StatsRelease
  | CodegenStatsWrite CodegenCall bool
  | InternalErrorWrite ErrorType i64 IeBpfProgram IeMapPath i64
  | BpfAttachedWrite BpfProgram string string string i64
  | BpfMapPolledWrite MapPath i64 i64 i64
  | InvocationWrite InvocationType
  | BridgeGet
  | BridgeIsLauncherActivity string string bool
  | BridgeGetUidForPackage string
  | BridgeHasEnabledA11y string
  | BridgeEnqueueEvent AidlEvent bool bool
  | InstantNow
  | SystemTimeNow
  | RandomI64
  | ThreadSleep duration
  | RingCreate string bool
  | RingPoll string i32 int
  | RingDestroy
  | RingDiscard string int
  | PerfEventOpen string i32 i32 string int
  | FdClose int
  | MapOpen string int
  | MapUpdate CKey CValue u64 int
  | MapLookup CKey int
  | MapGetFirstKey int
  | MapDelete CKey int
  | MapClose
  | ForeignCreate foreign
  | ForeignDestroy foreign
  | GetMethodOffsets int
  | ReadProc
  | GetRunningProcesses int
  | ObserverRegister int
  | ChannelRecv
  | ReadConfigFile
  | RegisterService bool
  | ThreadSpawned nat
  | ThreadScope "effect list list"

type_synonym trace = "effect list"
type_synonym 'h st = "'h \<times> trace"

text \<open>
  The three ways a computation touches its state: an external call whose reply \<open>q\<close> depends on
  the trace and which is logged as \<open>e\<close>; an effect with no reply; and the object's own fields.
\<close>

definition ext_call :: "(trace \<Rightarrow> 'r) \<Rightarrow> ('r \<Rightarrow> effect) \<Rightarrow> ('h st, 'r) io" where
  "ext_call q e = (\<lambda>(h, t). (Ok (q t), (h, t @ [e (q t)])))"

definition emit :: "effect \<Rightarrow> ('h st, unit) io" where
  "emit e = (\<lambda>(h, t). (Ok (), (h, t @ [e])))"

definition get_self :: "('h st, 'h) io" where
  "get_self = (\<lambda>(h, t). (Ok h, (h, t)))"

definition modify_self :: "('h \<Rightarrow> 'h) \<Rightarrow> ('h st, unit) io" where
  "modify_self f = (\<lambda>(h, t). (Ok (), (f h, t)))"

text \<open>Running a computation on an object of its own (a local variable), which is dropped after.\<close>

definition with_local :: "'l \<Rightarrow> ('l st, 'a) io \<Rightarrow> ('h st, 'a) io" where
  "with_local l m = (\<lambda>(h, t). (case m (l, t) of (r, (l', t')) \<Rightarrow> (r, (h, t'))))"

lemma world_simps [simp]:
  "ext_call q e (h, t) = (Ok (q t), (h, t @ [e (q t)]))"
  "emit e' (h, t) = (Ok (), (h, t @ [e']))"
  "get_self (h, t) = (Ok h, (h, t))"
  "modify_self f (h, t) = (Ok (), (f h, t))"
  "with_local l m (h, t) = (fst (m (l, t)), (h, snd (snd (m (l, t)))))"
  by (simp_all add: ext_call_def emit_def get_self_def modify_self_def with_local_def
      split: prod.split)

lemma io_bind_world [simp]:
  "io_bind (ext_call q e) k (h, t) = k (q t) (h, t @ [e (q t)])"
  "io_bind (emit e') k' (h, t) = k' () (h, t @ [e'])"
  "io_bind get_self k'' (h, t) = k'' h (h, t)"
  "io_bind (modify_self f) k' (h, t) = k' () (f h, t)"
  by (simp_all add: io_bind_def)

subsection \<open>Traces only grow\<close>

definition grows :: "'h st \<Rightarrow> 'h st \<Rightarrow> bool" where
  "grows s s' \<longleftrightarrow> prefix (snd s) (snd s')"

interpretation grow: io_preorder grows
  by unfold_locales (auto simp: grows_def)

lemma grows_prim:
  "io_steps grows (ext_call q e)" "io_steps grows (emit e')" "io_steps grows get_self"
  "io_steps grows (modify_self f)"
  by (auto simp: io_steps_def grows_def ext_call_def emit_def get_self_def modify_self_def)

lemma grows_with_local: "io_steps grows m \<Longrightarrow> io_steps grows (with_local l m)"
  unfolding io_steps_def grows_def
proof (rule allI)
  fix s assume *: "\<forall>s. prefix (snd s) (snd (snd (m s)))"
  show "prefix (snd s) (snd (snd (with_local l m s)))"
    using * [rule_format, of "(l, snd s)"] by (cases s) simp
qed

lemma growsD: "io_steps grows m \<Longrightarrow> m (h, t) = (r, (h', t')) \<Longrightarrow> prefix t t'"
  unfolding io_steps_def grows_def by (metis snd_conv)

lemmas grows_intros = grow.steps_intros grows_prim grows_with_local

lemma fuel_free_world:
  "fuel_free (ext_call q e)" "fuel_free (emit e')" "fuel_free get_self" "fuel_free (modify_self f)"
  "fuel_free m \<Longrightarrow> fuel_free (with_local l m)"
  by (simp_all add: fuel_free_def ext_call_def emit_def get_self_def modify_self_def with_local_def
      split_def)

text \<open>What a computation appends, and the part of it that a reader of the trace is interested
  in: every effect predicate extends to computations.\<close>

definition never_emits :: "(effect \<Rightarrow> bool) \<Rightarrow> 'h st \<Rightarrow> 'h st \<Rightarrow> bool" where
  "never_emits P s s' \<longleftrightarrow> filter P (snd s') = filter P (snd s)"

interpretation never: io_preorder "never_emits P"
  by unfold_locales (auto simp: never_emits_def)

lemma never_prim:
  "(\<And>r. \<not> P (e r)) \<Longrightarrow> io_steps (never_emits P) (ext_call q e)"
  "\<not> P e' \<Longrightarrow> io_steps (never_emits P) (emit e')"
  "io_steps (never_emits P) get_self"
  "io_steps (never_emits P) (modify_self f)"
  by (auto simp: io_steps_def never_emits_def ext_call_def emit_def get_self_def modify_self_def)

lemma never_with_local:
  "io_steps (never_emits P) m \<Longrightarrow> io_steps (never_emits P) (with_local l m)"
  unfolding io_steps_def never_emits_def
proof (rule allI)
  fix s assume *: "\<forall>s. filter P (snd (snd (m s))) = filter P (snd s)"
  show "filter P (snd (snd (with_local l m s))) = filter P (snd s)"
    using * [rule_format, of "(l, snd s)"] by (cases s) simp
qed

lemma neverD: "io_steps (never_emits P) m \<Longrightarrow> m (h, t) = (r, (h', t')) \<Longrightarrow> filter P t' = filter P t"
  unfolding io_steps_def never_emits_def by (metis snd_conv)

lemmas never_intros = never.steps_intros never_prim never_with_local

subsection \<open>Device\<close>

text \<open>Read-only properties of the device and the feature flags of the build.\<close>

record device =
  api_level :: int
  read_property :: "string \<Rightarrow> string option"

record flags =
  uprobestats_monitor_disruptive_app_activities :: bool
  enable_bitmap_snapshot :: bool
  enable_bitmap_instrumentation :: bool
  enable_bitmap_scaled_instrumentation :: bool
  enable_binder_transaction :: bool
  use_process_observer_api :: bool
  a11y_runtime_permission :: bool
  feature_art_test :: bool

definition is_user_build :: "device \<Rightarrow> bool" where
  "is_user_build d =
     (case read_property d ''ro.build.type'' of Some v \<Rightarrow> v = ''user'' | None \<Rightarrow> True)"

definition is_at_least_cinnamon_bun :: "device \<Rightarrow> bool" where
  "is_at_least_cinnamon_bun d \<longleftrightarrow> api_level d \<ge> 37"

subsection \<open>Strings from foreign memory\<close>

definition bytes_as_str :: "char list \<Rightarrow> string res" where
  "bytes_as_str bytes = res_bind (from_bytes_until_nul bytes) to_str"

definition bytes_as_nonempty_str :: "char list \<Rightarrow> string res" where
  "bytes_as_nonempty_str bytes =
     res_bind (bytes_as_str bytes) (\<lambda>s.
       if s = [] then Err (Anyhow ''bytes_as_str returned an unexpected empty string'')
       else Ok s)"

definition c_string :: "string \<Rightarrow> string res" where
  "c_string s = (if NUL \<in> set s then Err (Anyhow ''Failed to create CString'') else Ok s)"

lemma c_string_Ok_iff: "c_string s = Ok r \<longleftrightarrow> r = s \<and> NUL \<notin> set s"
  by (auto simp: c_string_def)

lemma bytes_as_str_Ok_iff:
  "bytes_as_str bs = Ok s \<longleftrightarrow>
     NUL \<notin> set s \<and> valid_utf8 s \<and> (\<exists>rest. bs = s @ NUL # rest)"
proof
  assume "bytes_as_str bs = Ok s"
  then have N: "NUL \<in> set bs" and s: "s = takeWhile (\<lambda>c. c \<noteq> NUL) bs" and v: "valid_utf8 s"
    by (auto simp: bytes_as_str_def from_bytes_until_nul_def to_str_def split: if_splits)
  from s have "NUL \<notin> set s" by (auto dest: set_takeWhileD)
  moreover have "dropWhile (\<lambda>c. c \<noteq> NUL) bs \<noteq> []"
    using N by auto
  then have "\<exists>rest. dropWhile (\<lambda>c. c \<noteq> NUL) bs = NUL # rest"
    using hd_dropWhile [of "\<lambda>c. c \<noteq> NUL" bs] by (cases "dropWhile (\<lambda>c. c \<noteq> NUL) bs") auto
  then have "\<exists>rest. bs = s @ NUL # rest"
    using s by (metis takeWhile_dropWhile_id)
  ultimately show "NUL \<notin> set s \<and> valid_utf8 s \<and> (\<exists>rest. bs = s @ NUL # rest)"
    using v by blast
next
  assume "NUL \<notin> set s \<and> valid_utf8 s \<and> (\<exists>rest. bs = s @ NUL # rest)"
  then show "bytes_as_str bs = Ok s"
    by (auto simp: bytes_as_str_def from_bytes_until_nul_def to_str_def takeWhile_append_NUL)
qed

lemma bytes_as_nonempty_str_Ok_iff:
  "bytes_as_nonempty_str bs = Ok s \<longleftrightarrow> bytes_as_str bs = Ok s \<and> s \<noteq> []"
  by (auto simp: bytes_as_nonempty_str_def res_bind_Ok_iff split: if_splits)

lemma bytes_as_str_NoFuel [simp]:
  "bytes_as_str bs \<noteq> NoFuel" "bytes_as_nonempty_str bs \<noteq> NoFuel" "c_string s \<noteq> NoFuel"
  by (auto simp: bytes_as_str_def bytes_as_nonempty_str_def from_bytes_until_nul_def to_str_def
      c_string_def)

lemma bytes_as_str_never_panics:
  "\<exists>v. bytes_as_str bs = Ok v \<or> (\<exists>m. bytes_as_str bs = Err (Anyhow m))"
  by (auto simp: bytes_as_str_def from_bytes_until_nul_def to_str_def)

subsection \<open>Clocks\<close>

text \<open>The monotonic clock (nanoseconds since boot), the wall clock (nanoseconds since the epoch,
  negative before it) and the random number generator.\<close>

record clock =
  instant_now :: "trace \<Rightarrow> nat"
  system_time_now :: "trace \<Rightarrow> int"
  rng_gen :: "trace \<Rightarrow> i64"

definition get_current_timestamp_millis :: "clock \<Rightarrow> ('h st, i64) io" where
  "get_current_timestamp_millis clk =
     io_bind (ext_call (system_time_now clk) (\<lambda>_. SystemTimeNow)) (\<lambda>now.
       if now < 0 then panic ''Time went backwards''
       else case try_into_signed (int (as_millis (nat now))) of
              Ok ms \<Rightarrow> ret ms
            | _ \<Rightarrow> panic ''Overflow in timestamp'')"

record Timer =
  timer_now :: nat
  timer_duration :: duration

definition Timer_new :: "clock \<Rightarrow> duration \<Rightarrow> ('h st, Timer) io" where
  "Timer_new clk d =
     io_bind (ext_call (instant_now clk) (\<lambda>_. InstantNow)) (\<lambda>now.
       ret \<lparr>timer_now = now, timer_duration = d\<rparr>)"

definition remaining_millis :: "clock \<Rightarrow> Timer \<Rightarrow> ('h st, nat option) io" where
  "remaining_millis clk tm =
     io_bind (ext_call (instant_now clk) (\<lambda>_. InstantNow)) (\<lambda>now.
       let total = as_millis (timer_duration tm); elapsed = as_millis (now - timer_now tm)
       in ret (if elapsed \<le> total then Some (total - elapsed) else None))"

text \<open>The monotonic clock does not go back, and a poll takes at least a nanosecond.\<close>

definition ticking :: "clock \<Rightarrow> bool" where
  "ticking clk \<longleftrightarrow> (\<forall>t u. instant_now clk t \<le> instant_now clk (t @ u))
     \<and> (\<forall>t p ms r. instant_now clk t < instant_now clk (t @ [RingPoll p ms r]))"

lemma ticking_mono: "ticking clk \<Longrightarrow> prefix t t' \<Longrightarrow> instant_now clk t \<le> instant_now clk t'"
  by (auto simp: ticking_def prefix_def)

lemma io_bind_NoFuel_iff:
  "io_bind m f s = (NoFuel, s'') \<longleftrightarrow>
     m s = (NoFuel, s'') \<or> (\<exists>x s'. m s = (Ok x, s') \<and> f x s' = (NoFuel, s''))"
  by (auto simp: io_bind_def split: prod.splits res.splits)

lemma NoFuel_run_iff: "fst (m s) = NoFuel \<longleftrightarrow> (\<exists>s'. m s = (NoFuel, s'))"
  by (cases "m s") auto

lemma finally_do_NoFuel_iff:
  "finally_do m k s = (NoFuel, s'') \<longleftrightarrow> (\<exists>s'. m s = (NoFuel, s') \<and> s'' = snd (k s'))"
  by (auto simp: finally_do_def split: prod.splits)

text \<open>The first instant at which a timer has expired.\<close>

definition expiry :: "Timer \<Rightarrow> nat" where
  "expiry tm = timer_now tm + (as_millis (timer_duration tm) + 1) * 1000000"

lemma remaining_millis_None_iff:
  "(\<exists>s'. remaining_millis clk tm (h, t) = (Ok None, s')) \<longleftrightarrow> expiry tm \<le> instant_now clk t"
proof -
  let ?d = "as_millis (timer_duration tm)" and ?e = "instant_now clk t - timer_now tm"
  have "\<not> as_millis ?e \<le> ?d \<longleftrightarrow> (?d + 1) * 1000000 \<le> ?e"
    using less_eq_div_iff_mult_less_eq [of 1000000 "?d + 1" ?e]
    by (simp only: as_millis_def not_le Suc_eq_plus1 Suc_le_eq [symmetric])
  also have "\<dots> \<longleftrightarrow> expiry tm \<le> instant_now clk t" by (simp add: expiry_def) arith
  finally show ?thesis by (auto simp: remaining_millis_def Let_def)
qed

subsection \<open>Computations that always return\<close>

definition io_returns :: "('s, 'a) io \<Rightarrow> bool" where
  "io_returns m \<longleftrightarrow> (\<forall>s. returns (fst (m s)))"

lemma io_returns_pure: "returns r \<Longrightarrow> io_returns (lift_res r)"
  by (simp add: io_returns_def)

lemma io_returns_bind: "io_returns m \<Longrightarrow> (\<And>x. io_returns (f x)) \<Longrightarrow> io_returns (io_bind m f)"
  unfolding io_returns_def by (auto intro!: returns_io_bind)

lemma io_returns_on_err:
  assumes "io_returns m" and "\<And>e. io_returns (h e)"
  shows "io_returns (on_err m h)"
  unfolding io_returns_def
proof
  fix s
  obtain r s' where m: "m s = (r, s')" by (cases "m s")
  with assms(1) have "returns r" by (metis io_returns_def fst_conv)
  with m assms(2) show "returns (fst (on_err m h s))"
    by (cases r) (simp_all add: on_err_def io_returns_def)
qed

lemma io_returns_finally_do: "io_returns m \<Longrightarrow> io_returns (finally_do m k)"
  by (simp add: io_returns_def finally_do_def split_def)

lemma io_returns_for_each: "(\<And>x. io_returns (f x)) \<Longrightarrow> io_returns (for_each f xs)"
  by (induction xs) (auto intro: io_returns_pure io_returns_bind)

lemma io_returns_if:
  "(b \<Longrightarrow> io_returns m) \<Longrightarrow> (\<not> b \<Longrightarrow> io_returns k) \<Longrightarrow> io_returns (if b then m else k)"
  by simp

lemma io_returns_world: "io_returns (ext_call q e)" "io_returns (emit e')"
  by (auto simp: io_returns_def ext_call_def emit_def)

lemmas io_returns_intros = io_returns_pure io_returns_bind io_returns_on_err io_returns_finally_do
  io_returns_for_each io_returns_if io_returns_world

lemma returns_c_string [simp]: "returns (c_string s)"
  by (simp add: c_string_def)

subsection \<open>The bridge service\<close>

text \<open>
  The Java service behind Binder. \<open>bridge_interface\<close> is the outcome of the one lookup that the
  \<open>LazyLock\<close> performs; a method reply \<^const>\<open>None\<close> is a failed Binder transaction.
\<close>

record bridge =
  bridge_interface :: bool
  is_launcher_activity :: "trace \<Rightarrow> string \<Rightarrow> string \<Rightarrow> bool \<Rightarrow> bool option"
  get_uid_for_package :: "trace \<Rightarrow> string \<Rightarrow> i32 option"
  package_has_enabled_a11y_service :: "trace \<Rightarrow> string \<Rightarrow> bool option"
  enqueue_event_ok :: "trace \<Rightarrow> AidlEvent \<Rightarrow> bool \<Rightarrow> bool"

definition binder_error :: err where
  "binder_error = Anyhow ''binder Status''"

definition bridge_service_get :: "device \<Rightarrow> bridge \<Rightarrow> ('h st, unit) io" where
  "bridge_service_get d b =
     io_then (emit BridgeGet)
       (if \<not> is_at_least_cinnamon_bun d then
          fail (Anyhow ''UprobeStatsBridgeService is not supported below the CINNAMON_BUN platform SDK level'')
        else if bridge_interface b then ret ()
        else fail (Anyhow ''Failed to get {UPROBESTATS_BRIDGE_SERVICE_NAME} service''))"

definition isLauncherActivity :: "bridge \<Rightarrow> string \<Rightarrow> string \<Rightarrow> bool \<Rightarrow> ('h st, bool) io" where
  "isLauncherActivity b pkg cls dis =
     io_bind (ext_call (\<lambda>t. is_launcher_activity b t pkg cls dis)
                (\<lambda>_. BridgeIsLauncherActivity pkg cls dis))
       (\<lambda>r. lift_res (ok_or r binder_error))"

definition getUidForPackage :: "bridge \<Rightarrow> string \<Rightarrow> ('h st, i32) io" where
  "getUidForPackage b pkg =
     io_bind (ext_call (\<lambda>t. get_uid_for_package b t pkg) (\<lambda>_. BridgeGetUidForPackage pkg))
       (\<lambda>r. lift_res (ok_or r binder_error))"

definition packageHasEnabledAccessibilityService :: "bridge \<Rightarrow> string \<Rightarrow> ('h st, bool) io" where
  "packageHasEnabledAccessibilityService b pkg =
     io_bind (ext_call (\<lambda>t. package_has_enabled_a11y_service b t pkg)
                (\<lambda>_. BridgeHasEnabledA11y pkg))
       (\<lambda>r. lift_res (ok_or r binder_error))"

definition enqueueEvent :: "bridge \<Rightarrow> AidlEvent \<Rightarrow> bool \<Rightarrow> ('h st, unit) io" where
  "enqueueEvent b ev flush =
     io_bind (ext_call (\<lambda>t. enqueue_event_ok b t ev flush) (\<lambda>ok. BridgeEnqueueEvent ev flush ok))
       (\<lambda>ok. lift_res (if ok then Ok () else Err binder_error))"

lemmas bridge_defs = bridge_service_get_def isLauncherActivity_def getUidForPackage_def
  packageHasEnabledAccessibilityService_def enqueueEvent_def

lemma grows_bridge:
  "io_steps grows (bridge_service_get d b)" "io_steps grows (isLauncherActivity b p c m)"
  "io_steps grows (getUidForPackage b p)"
  "io_steps grows (packageHasEnabledAccessibilityService b p)"
  "io_steps grows (enqueueEvent b ev fl)"
  by (auto simp: bridge_defs intro!: grows_intros)

lemma grows_clock:
  "io_steps grows (get_current_timestamp_millis clk)" "io_steps grows (Timer_new clk d)"
  "io_steps grows (remaining_millis clk tm)"
  by (auto simp: get_current_timestamp_millis_def Timer_new_def remaining_millis_def Let_def
      intro!: grows_intros split: res.split)

lemma fuel_free_bridge:
  "fuel_free (bridge_service_get d b)" "fuel_free (isLauncherActivity b p c m)"
  "fuel_free (getUidForPackage b p)" "fuel_free (packageHasEnabledAccessibilityService b p)"
  "fuel_free (enqueueEvent b ev fl)" "fuel_free (get_current_timestamp_millis clk)"
  "fuel_free (Timer_new clk dur)" "fuel_free (remaining_millis clk tm)"
  by (auto simp: bridge_defs get_current_timestamp_millis_def Timer_new_def remaining_millis_def
      Let_def intro!: fuel_free_intros fuel_free_world split: res.split if_splits)

subsection \<open>Reporting internal errors\<close>

definition write_internal_error ::
  "ErrorType \<Rightarrow> i64 \<Rightarrow> string option \<Rightarrow> string option \<Rightarrow> i64 \<Rightarrow> ('h st, unit) io" where
  "write_internal_error error_type task_id bpf_program_path bpf_map_path failure_point =
     io_bind
       (case bpf_program_path of
          Some path \<Rightarrow>
            (case bpf_program_path_to_enum path of
               Ok p \<Rightarrow> ret (to_internal_error_bpf_attached_program p)
             | _ \<Rightarrow> panic ''called unwrap on an Err value'')
        | None \<Rightarrow> ret IeUprobeStatsBpfProgramUnspecified)
       (\<lambda>bpf_program_enum.
     io_bind
       (case bpf_map_path of
          Some path \<Rightarrow>
            (case bpf_map_path_to_enum path of
               Ok p \<Rightarrow> ret (to_internal_error_bpf_map_polled_path p)
             | _ \<Rightarrow> panic ''called unwrap on an Err value'')
        | None \<Rightarrow> ret IeUprobeStatsBpfMapPathUnspecified)
       (\<lambda>map_path_enum.
     emit (InternalErrorWrite error_type task_id bpf_program_enum map_path_enum failure_point)))"

text \<open>The two \<open>unwrap\<close>s never panic, so reporting always succeeds and logs exactly one atom.\<close>

definition ie_program :: "string option \<Rightarrow> IeBpfProgram" where
  "ie_program p =
     (case p of
        None \<Rightarrow> IeUprobeStatsBpfProgramUnspecified
      | Some path \<Rightarrow> to_internal_error_bpf_attached_program
                       (match_str program_arms UprobeStatsBpfProgramUnspecified
                          (rev (takeWhile (\<lambda>c. c \<noteq> CHR ''/'') (rev path)))))"

definition ie_map :: "string option \<Rightarrow> IeMapPath" where
  "ie_map p =
     (case p of
        None \<Rightarrow> IeUprobeStatsBpfMapPathUnspecified
      | Some path \<Rightarrow> to_internal_error_bpf_map_polled_path
                       (match_str map_path_arms UprobeStatsBpfMapPathUnspecified
                          (rev (takeWhile (\<lambda>c. c \<noteq> CHR ''/'') (rev path)))))"

lemma write_internal_error_eq [simp]:
  "write_internal_error ty tid prog mp fp =
     emit (InternalErrorWrite ty tid (ie_program prog) (ie_map mp) fp)"
  by (cases prog; cases mp) (simp_all add: write_internal_error_def ie_program_def ie_map_def)

end
