(* ===== verification/Config.thy ===== *)
theory Config
  imports World
begin

section \<open>Resolving a configuration\<close>

text \<open>
  \<open>core/config_resolver.rs\<close> with \<open>guardrail.rs\<close>, \<open>offsets.rs\<close> and \<open>process.rs\<close>: from the bytes of
  a \<open>UprobestatsConfig\<close> proto (\<open>config/config.proto\<close>) to a \<open>ResolvedTask\<close>. The protobuf parser and
  the two resolvers of the device are parameters.
\<close>

subsection \<open>The proto messages\<close>

record EventServiceConfigProto =
  flush :: "bool option"

record AtomConfigProto =
  acp_atom_id :: "i32 option"
  acp_atom_field_positions :: "i32 list"

record MethodConfigProto =
  mcp_method_id :: "i64 option"
  mcp_event_service_config :: "EventServiceConfigProto option"
  mcp_atom_config :: "AtomConfigProto option"

record BinderTransactionFilter =
  interface_name :: "string option"
  method_configs :: "MethodConfigProto list"

record ProbeConfig =
  bpf_name :: "string option"
  file_paths :: "string list"
  method_signature :: "string option"
  fully_qualified_class_name :: "string option"
  method_name :: "string option"
  fully_qualified_parameters :: "string list"
  binder_transaction_filters :: "BinderTransactionFilter list"

record StatsdLoggingConfig =
  slc_atom_id :: "i64 option"
  primitive_argument_positions :: "i32 list"

record Task =
  probe_configs :: "ProbeConfig list"
  bpf_maps :: "string list"
  target_process_name :: "string option"
  duration_seconds :: "i32 option"
  task_statsd_logging_config :: "StatsdLoggingConfig option"
  target_process_selection :: "i32 option"
  task_id :: "i64 option"

record UprobestatsConfig =
  tasks :: "Task list"

text \<open>Enumerations travel as numbers; \<open>enum_value_or_default\<close> maps an unknown one to the default.\<close>

datatype TargetProcessSelection =
    TPS_UNKNOWN
  | SPECIFIC_PROCESS_NAME
  | ANY_APP_PROCESS_ON_START
  | SPECIFIC_APP_PROCESS_ON_START

definition tps_value_or_default :: "i32 \<Rightarrow> TargetProcessSelection" where
  "tps_value_or_default v =
     (if v = 1 then SPECIFIC_PROCESS_NAME
      else if v = 2 then ANY_APP_PROCESS_ON_START
      else if v = 3 then SPECIFIC_APP_PROCESS_ON_START
      else TPS_UNKNOWN)"

datatype AtomFieldPosition = AFP_UNKNOWN | CALLING_UID | INTERFACE_NAME | CODE | KTIME_NS

definition afp_value_or_default :: "i32 \<Rightarrow> AtomFieldPosition" where
  "afp_value_or_default v =
     (if v = 1 then CALLING_UID
      else if v = 2 then INTERFACE_NAME
      else if v = 3 then CODE
      else if v = 4 then KTIME_NS
      else AFP_UNKNOWN)"

subsection \<open>The resolved task\<close>

datatype EventMode = Flush | Buffer

record EventServiceConfig =
  esc_mode :: EventMode

record AtomConfig =
  ac_atom_id :: u32
  ac_atom_field_positions :: "AtomFieldPosition list"

record MethodConfig =
  event_service_config :: "EventServiceConfig option"
  atom_config :: "AtomConfig option"

record InterfaceConfig =
  methods :: "(c_ulong, MethodConfig) hashmap"

record ResolvedProcess =
  rp_pid :: i32
  rp_uid :: i32
  rp_name :: string

record MethodDescriptor =
  md_fully_qualified_class_name :: string
  md_method_name :: string
  md_fully_qualified_parameters :: "string list"

record ExecutableMethodFileOffsets =
  container_path :: string
  container_offset :: u64
  method_offset :: u64

record ResolvedProbe =
  method_descriptor :: MethodDescriptor
  probe_offsets :: ExecutableMethodFileOffsets
  bpf_program_path :: string
  probe_filters :: "(string, InterfaceConfig) hashmap"

record ResolvedTask =
  rt_id :: i64
  rt_duration :: duration
  resolved_process :: ResolvedProcess
  bpf_map_paths :: "string list"
  statsd_logging_config :: "StatsdLoggingConfig option"
  resolved_probes :: "ResolvedProbe list"

definition method_identifier :: "ExecutableMethodFileOffsets \<Rightarrow> u64 res" where
  "method_identifier offs =
     (if suffix ''so'' (container_path offs) then Ok (container_offset offs)
      else if uint (container_offset offs) + uint (method_offset offs) < 2 ^ 64
           then Ok (container_offset offs + method_offset offs)
           else Panic ''attempt to add with overflow'')"

definition InterfaceConfig_default :: InterfaceConfig where
  "InterfaceConfig_default = \<lparr>methods = []\<rparr>"

definition insert_method ::
  "c_ulong \<Rightarrow> MethodConfig \<Rightarrow> InterfaceConfig \<Rightarrow> unit res \<times> InterfaceConfig" where
  "insert_method method_id mc ic =
     (case hm_insert method_id mc (methods ic) of (old, ms) \<Rightarrow>
        (if old \<noteq> None then Err (Anyhow ''Duplicate method_id {}'') else Ok (),
         ic\<lparr>methods := ms\<rparr>))"

definition get_method :: "InterfaceConfig \<Rightarrow> c_ulong \<Rightarrow> MethodConfig option" where
  "get_method ic method_id = map_of (methods ic) method_id"

definition method_ids :: "InterfaceConfig \<Rightarrow> c_ulong list" where
  "method_ids ic = map fst (methods ic)"

definition EventServiceConfig_from :: "EventServiceConfigProto \<Rightarrow> EventServiceConfig" where
  "EventServiceConfig_from p =
     \<lparr>esc_mode = (case flush p of Some True \<Rightarrow> Flush | _ \<Rightarrow> Buffer)\<rparr>"

definition AtomConfig_try_from :: "AtomConfigProto \<Rightarrow> AtomConfig res" where
  "AtomConfig_try_from p =
     (case acp_atom_id p of
        None \<Rightarrow> Err (Anyhow ''atom_config.atom_id is required'')
      | Some atom_id \<Rightarrow>
          if sint atom_id \<le> 0 then Err (Anyhow ''atom_config.atom_id must be positive integer'')
          else res_bind (try_into_unsigned (sint atom_id)) (\<lambda>atom_id.
                 Ok \<lparr>ac_atom_id = atom_id,
                     ac_atom_field_positions =
                       map afp_value_or_default (acp_atom_field_positions p)\<rparr>))"

datatype ConfigError = TaskValidation i64 err | OtherError err

fun ConfigError_task_id :: "ConfigError \<Rightarrow> i64 option" where
  "ConfigError_task_id (TaskValidation tid e) = Some tid"
| "ConfigError_task_id (OtherError e) = None"

subsection \<open>guardrail.rs\<close>

definition ALLOWED_METHOD_PREFIXES :: "string list" where
  "ALLOWED_METHOD_PREFIXES =
    [''com.android.server.am.ActivityManagerService$LocalService.updateDeviceIdleTempAllowlist'',
     ''com.android.server.am.CachedAppOptimizer'',
     ''com.android.server.am.OomAdjuster'',
     ''com.android.server.am.OomAdjusterModernImpl'',
     ''com.android.server.pm.PackageManagerService$IPackageManagerImpl.setComponentEnabledSetting'',
     ''com.android.server.am.ActiveServices.bindServiceLocked'',
     ''com.android.server.pm.permission.PermissionManagerService.grantRuntimePermission'']"

definition PROG_BINDER_A11Y_SERVICE_CONNECTION :: string where
  "PROG_BINDER_A11Y_SERVICE_CONNECTION = ''prog_Accessibility_uprobe_dispatch_gesture''"

definition get_full_method_name :: "ProbeConfig \<Rightarrow> bool \<Rightarrow> string res" where
  "get_full_method_name probe_config offsets_api_enabled =
     (if offsets_api_enabled then
        (case fully_qualified_class_name probe_config of
           None \<Rightarrow> Err (Anyhow ''Fully qualified class name is empty'')
         | Some fqcn \<Rightarrow>
             (case method_name probe_config of
                None \<Rightarrow> Err (Anyhow ''Method name is empty'')
              | Some m \<Rightarrow> Ok (fqcn @ ''.'' @ m)))
      else
        (case method_signature probe_config of
           None \<Rightarrow> Err (Anyhow ''Method signature is empty'')
         | Some sig \<Rightarrow>
             (case split_on (CHR '' '') sig of
                _ # part # _ \<Rightarrow> Ok part
              | _ \<Rightarrow> Err (Anyhow ''Method signature is invalid''))))"

text \<open>The inner loop over the allowlist, with its \<open>break\<close>.\<close>

fun prefix_loop :: "string \<Rightarrow> string list \<Rightarrow> bool" where
  "prefix_loop full_method_name [] = False"
| "prefix_loop full_method_name (p # ps) =
     (if full_method_name = p
         \<or> prefix (p @ ''('') full_method_name
         \<or> prefix (p @ ''.'') full_method_name
         \<or> prefix (p @ ''$'') full_method_name
      then True else prefix_loop full_method_name ps)"

text \<open>The loop over the probes of a task: \<^term>\<open>Some b\<close> is an early return of \<open>b\<close>.\<close>

fun guard_probes :: "bool \<Rightarrow> ProbeConfig list \<Rightarrow> bool option res" where
  "guard_probes api [] = Ok None"
| "guard_probes api (probe # probes) =
     (case bpf_name probe of
        None \<Rightarrow> Err (Anyhow ''BPF program name is empty'')
      | Some bpf_program_name \<Rightarrow>
          if bpf_program_name = PROG_BINDER_A11Y_SERVICE_CONNECTION then Ok (Some True)
          else res_bind (get_full_method_name probe api) (\<lambda>full_method_name.
                 if prefix_loop full_method_name ALLOWED_METHOD_PREFIXES
                 then guard_probes api probes else Ok (Some False)))"

fun guard_tasks :: "bool \<Rightarrow> Task list \<Rightarrow> bool res" where
  "guard_tasks api [] = Ok True"
| "guard_tasks api (task # rest) =
     res_bind (guard_probes api (probe_configs task)) (\<lambda>r.
       case r of Some b \<Rightarrow> Ok b | None \<Rightarrow> guard_tasks api rest)"

definition is_allowed :: "UprobestatsConfig \<Rightarrow> bool \<Rightarrow> bool \<Rightarrow> bool res" where
  "is_allowed config user_build offsets_api_enabled =
     (if \<not> user_build then Ok True else guard_tasks offsets_api_enabled (tasks config))"

subsection \<open>BPF file names\<close>

definition is_bpf_file_enabled :: "flags \<Rightarrow> string \<Rightarrow> bool" where
  "is_bpf_file_enabled fl name =
     (if sublist ''DisruptiveApp'' name then
        uprobestats_monitor_disruptive_app_activities fl
      else if sublist ''prog_BitmapAllocation_uprobe_bitmap_creation_for_snapshot'' name
              \<or> sublist ''prog_BitmapAllocation_uprobe_apply_free_function'' name then
        enable_bitmap_snapshot fl
      else if sublist ''BitmapAllocation'' name then
        enable_bitmap_instrumentation fl \<or> enable_bitmap_snapshot fl
      else if sublist ''Binder'' name then
        enable_binder_transaction fl
      else if sublist ''prog_BitmapAllocation_uprobe_create_scaled_bitmap'' name then
        enable_bitmap_scaled_instrumentation fl
      else if sublist ''Accessibility'' name then
        a11y_runtime_permission fl
      else True)"

definition BPF_DIR :: string where
  "BPF_DIR = ''/sys/fs/bpf/uprobestats/''"

definition prefix_bpf :: "string \<Rightarrow> string" where
  "prefix_bpf path = BPF_DIR @ path"

subsection \<open>Binder transaction filters\<close>

definition BINDER_BPF_PROGRAM_NAME :: string where
  "BINDER_BPF_PROGRAM_NAME = ''prog_Binder_uprobe_exec_transact_internal''"

definition resolve_method_id :: "MethodConfigProto \<Rightarrow> c_ulong res" where
  "resolve_method_id p =
     (case mcp_method_id p of
        Some mid \<Rightarrow>
          if sint mid > 0 then try_into_unsigned (sint mid)
          else Err (Anyhow ''binder_transaction_filter.method_config.method_id is required and must be a positive integer'')
      | None \<Rightarrow> Err (Anyhow ''binder_transaction_filter.method_config.method_id is required and must be a positive integer''))"

definition resolve_method_config :: "MethodConfigProto \<Rightarrow> (c_ulong \<times> MethodConfig) res" where
  "resolve_method_config p =
     res_bind (resolve_method_id p) (\<lambda>method_id.
     res_bind (ensure (mcp_event_service_config p \<noteq> None \<or> mcp_atom_config p \<noteq> None)
        (Anyhow ''either method_config.event_service_config, method_config.atom_config, or both, must be present'')) (\<lambda>_.
     let esc = map_option EventServiceConfig_from (mcp_event_service_config p) in
     res_bind (case mcp_atom_config p of
                 None \<Rightarrow> Ok None
               | Some c \<Rightarrow> res_bind (AtomConfig_try_from c) (\<lambda>a. Ok (Some a))) (\<lambda>ac.
     Ok (method_id, \<lparr>event_service_config = esc, atom_config = ac\<rparr>))))"

fun resolve_methods :: "MethodConfigProto list \<Rightarrow> InterfaceConfig \<Rightarrow> InterfaceConfig res" where
  "resolve_methods [] ic = Ok ic"
| "resolve_methods (p # ps) ic =
     res_bind (resolve_method_config p) (\<lambda>(method_id, mc).
       case insert_method method_id mc ic of (r, ic') \<Rightarrow>
         res_bind r (\<lambda>_. resolve_methods ps ic'))"

fun resolve_filters ::
  "BinderTransactionFilter list \<Rightarrow> (string, InterfaceConfig) hashmap \<Rightarrow>
     (string, InterfaceConfig) hashmap res" where
  "resolve_filters [] filters = Ok filters"
| "resolve_filters (f # fs) filters =
     (case interface_name f of
        None \<Rightarrow> Err (Anyhow ''binder_transaction_filter.interface_name is required'')
      | Some iname \<Rightarrow>
          res_bind (ensure (iname \<noteq> [])
            (Anyhow ''binder_transaction_filter.interface_name must be non-empty'')) (\<lambda>_.
          res_bind (ensure (method_configs f \<noteq> [])
            (Anyhow ''binder_transaction_filter.method_configs must be non-empty'')) (\<lambda>_.
          res_bind (resolve_methods (method_configs f) InterfaceConfig_default) (\<lambda>interface_config.
          case hm_insert iname interface_config filters of (old, filters') \<Rightarrow>
            if old \<noteq> None then Err (Anyhow ''Duplicate interface_name {}'')
            else resolve_filters fs filters'))))"

definition resolve_binder_transaction_filters ::
  "ProbeConfig \<Rightarrow> string \<Rightarrow> (string, InterfaceConfig) hashmap res" where
  "resolve_binder_transaction_filters probe name =
     (if name = BINDER_BPF_PROGRAM_NAME then
        res_bind (ensure (binder_transaction_filters probe \<noteq> [])
          (Anyhow ''{BINDER_BPF_PROGRAM_NAME} requires at least one binder_transaction_filter''))
          (\<lambda>_. resolve_filters (binder_transaction_filters probe) [])
      else
        res_bind (ensure (binder_transaction_filters probe = [])
          (Anyhow ''binder_transaction_filters is only supported for {BINDER_BPF_PROGRAM_NAME} but got {bpf_name}''))
          (\<lambda>_. Ok []))"

subsection \<open>Probes, the task, the configuration\<close>

type_synonym 'h process_resolver =
  "string option \<Rightarrow> TargetProcessSelection \<Rightarrow> duration \<Rightarrow> ('h st, ResolvedProcess) io"

type_synonym 'h offset_resolver =
  "ResolvedProcess \<Rightarrow> MethodDescriptor \<Rightarrow> ('h st, ExecutableMethodFileOffsets option) io"

definition resolve_probe ::
  "flags \<Rightarrow> 'h offset_resolver \<Rightarrow> ResolvedProcess \<Rightarrow> ProbeConfig \<Rightarrow> ('h st, ResolvedProbe) io" where
  "resolve_probe fl resolve_offsets process probe =
     io_bind (lift_res (ok_or (bpf_name probe) (Anyhow ''bpf_name is required''))) (\<lambda>name.
     io_bind (lift_res (ensure (is_bpf_file_enabled fl name) (Anyhow ''{} is disabled by flag''))) (\<lambda>_.
     io_bind (lift_res (resolve_binder_transaction_filters probe name)) (\<lambda>filters.
     io_bind (lift_res (ok_or (fully_qualified_class_name probe)
        (Anyhow ''fully_qualified_class_name is required''))) (\<lambda>cls.
     io_bind (lift_res (ok_or (method_name probe) (Anyhow ''method_name is required''))) (\<lambda>m.
     let desc = \<lparr>md_fully_qualified_class_name = cls, md_method_name = m,
                 md_fully_qualified_parameters = fully_qualified_parameters probe\<rparr> in
     io_bind (resolve_offsets process desc) (\<lambda>offsets.
     io_bind (lift_res (ok_or offsets
        (Anyhow ''Failed to get offsets for class: {}, method: {}, params: {:?}''))) (\<lambda>offsets.
     ret \<lparr>method_descriptor = desc, probe_offsets = offsets,
          bpf_program_path = prefix_bpf name, probe_filters = filters\<rparr>)))))))"

definition resolve_probes ::
  "flags \<Rightarrow> 'h offset_resolver \<Rightarrow> ResolvedProcess \<Rightarrow> ProbeConfig list
     \<Rightarrow> ('h st, ResolvedProbe list) io" where
  "resolve_probes fl resolve_offsets process probes =
     collect_io (resolve_probe fl resolve_offsets process) probes"

definition resolve_map_path :: "flags \<Rightarrow> string \<Rightarrow> string res" where
  "resolve_map_path fl bpf_map =
     res_bind (ensure (is_bpf_file_enabled fl bpf_map) (Anyhow ''{} is disabled by flag''))
       (\<lambda>_. Ok (prefix_bpf bpf_map))"

definition resolve_duration :: "Task \<Rightarrow> duration res" where
  "resolve_duration task =
     res_bind (ok_or (duration_seconds task) (Anyhow ''Task duration is required'')) (\<lambda>secs.
       if sint secs \<le> 0 then Err (Anyhow ''Task duration must be greater than 0'')
       else res_bind (try_into_unsigned (sint secs)) (\<lambda>secs :: u64. Ok (from_secs (unat secs))))"

definition resolve_single_task ::
  "flags \<Rightarrow> 'h process_resolver \<Rightarrow> 'h offset_resolver \<Rightarrow> Task \<Rightarrow> i64 \<Rightarrow> ('h st, ResolvedTask) io" where
  "resolve_single_task fl resolve_process resolve_offsets task tid =
     io_bind (lift_res (collect_res (resolve_map_path fl) (bpf_maps task))) (\<lambda>paths.
     io_bind (lift_res (resolve_duration task)) (\<lambda>dur.
     let selection =
           tps_value_or_default (case target_process_selection task of Some v \<Rightarrow> v | None \<Rightarrow> 0) in
     io_bind (resolve_process (target_process_name task) selection dur) (\<lambda>process.
     io_bind (resolve_probes fl resolve_offsets process (probe_configs task)) (\<lambda>probes.
     ret \<lparr>rt_id = tid, rt_duration = dur, resolved_process = process,
          bpf_map_paths = remdups paths,
          statsd_logging_config = task_statsd_logging_config task,
          resolved_probes = probes\<rparr>))))"

definition read_config_from_bytes ::
  "(char list \<Rightarrow> UprobestatsConfig option) \<Rightarrow> char list \<Rightarrow> UprobestatsConfig res" where
  "read_config_from_bytes parse_from_bytes config_bytes =
     ok_or (parse_from_bytes config_bytes) (Anyhow ''Failed to parse config from bytes: {e}'')"

text \<open>\<open>?\<close> on a \<open>Result\<close> whose error is wrapped into a \<open>ConfigError\<close>; a panic stays a panic.\<close>

definition wrap_config_err ::
  "(err \<Rightarrow> ConfigError) \<Rightarrow> ('s, 'a) io \<Rightarrow> ('s, ConfigError + 'a) io" where
  "wrap_config_err w m = on_err (io_bind m (\<lambda>x. ret (Inr x))) (\<lambda>e. ret (Inl (w e)))"

definition resolve_allowed ::
  "flags \<Rightarrow> UprobestatsConfig \<Rightarrow> bool \<Rightarrow> 'h process_resolver \<Rightarrow> 'h offset_resolver \<Rightarrow> Task
     \<Rightarrow> ('h st, ConfigError + ResolvedTask) io" where
  "resolve_allowed fl config user_build resolve_process resolve_offsets task =
     (let tid = (case task_id task of Some i \<Rightarrow> i | None \<Rightarrow> 0) in
      io_bind (wrap_config_err (TaskValidation tid)
        (lift_res (is_allowed config user_build True))) (\<lambda>a.
      case a of Inl e \<Rightarrow> ret (Inl e) | Inr allowed \<Rightarrow>
        if \<not> allowed then
          ret (Inl (TaskValidation tid
            (Anyhow ''uprobestats probing config disallowed on this device'')))
        else wrap_config_err (TaskValidation tid)
          (resolve_single_task fl resolve_process resolve_offsets task tid)))"

definition resolve_config ::
  "flags \<Rightarrow> (char list \<Rightarrow> UprobestatsConfig option) \<Rightarrow> char list \<Rightarrow> bool
     \<Rightarrow> 'h process_resolver \<Rightarrow> 'h offset_resolver \<Rightarrow> ('h st, ConfigError + ResolvedTask) io" where
  "resolve_config fl parse config_bytes user_build resolve_process resolve_offsets =
     io_bind (wrap_config_err OtherError (lift_res (read_config_from_bytes parse config_bytes)))
     (\<lambda>c. case c of Inl e \<Rightarrow> ret (Inl e) | Inr config \<Rightarrow>
     (case tasks config of
        [task] \<Rightarrow> resolve_allowed fl config user_build resolve_process resolve_offsets task
      | _ \<Rightarrow> ret (Inl (OtherError (Anyhow ''Config must have exactly one task, got {}'')))))"

subsection \<open>What the guardrail lets through\<close>

text \<open>A name is on the allowlist when it is an entry, or an entry followed by one of the three
  separators that end a class or method name.\<close>

definition on_allowlist :: "string \<Rightarrow> bool" where
  "on_allowlist m \<longleftrightarrow>
     (\<exists>p \<in> set ALLOWED_METHOD_PREFIXES.
        m = p \<or> (\<exists>c rest. c \<in> {CHR ''('', CHR ''.'', CHR ''$''} \<and> m = p @ c # rest))"

definition probe_permitted :: "bool \<Rightarrow> ProbeConfig \<Rightarrow> bool" where
  "probe_permitted api p \<longleftrightarrow>
     bpf_name p \<noteq> None \<and> (\<exists>m. get_full_method_name p api = Ok m \<and> on_allowlist m)"

abbreviation a11y_probe :: "ProbeConfig \<Rightarrow> bool" where
  "a11y_probe p \<equiv> bpf_name p = Some PROG_BINDER_A11Y_SERVICE_CONNECTION"

lemma prefix_snoc_iff: "prefix (p @ [c]) m \<longleftrightarrow> (\<exists>rest. m = p @ c # rest)"
  by (auto simp: prefix_def)

lemma prefix_loop_iff:
  "prefix_loop m ps \<longleftrightarrow>
     (\<exists>p \<in> set ps. m = p \<or> (\<exists>c rest. c \<in> {CHR ''('', CHR ''.'', CHR ''$''} \<and> m = p @ c # rest))"
proof (induction ps)
  case (Cons p ps)
  have "(m = p \<or> prefix (p @ ''('') m \<or> prefix (p @ ''.'') m \<or> prefix (p @ ''$'') m) \<longleftrightarrow>
      m = p \<or> (\<exists>c rest. c \<in> {CHR ''('', CHR ''.'', CHR ''$''} \<and> m = p @ c # rest)"
    by (simp only: prefix_snoc_iff) blast
  with Cons show ?case by (simp only: prefix_loop.simps if_True list.set bex_simps if_cancel) argo
qed simp

lemma prefix_loop_allowlist: "prefix_loop m ALLOWED_METHOD_PREFIXES \<longleftrightarrow> on_allowlist m"
  unfolding on_allowlist_def by (rule prefix_loop_iff)

lemma get_full_method_name_cases:
  "(\<exists>m. get_full_method_name p api = Ok m) \<or> (\<exists>e. get_full_method_name p api = Err (Anyhow e))"
  by (auto simp: get_full_method_name_def split: option.split list.split)

text \<open>One step of the probe loop, by the two questions it asks of the probe.\<close>

lemma guard_probes_step:
  "a11y_probe p \<Longrightarrow> guard_probes api (p # ps) = Ok (Some True)"
  "\<not> a11y_probe p \<Longrightarrow> probe_permitted api p \<Longrightarrow> guard_probes api (p # ps) = guard_probes api ps"
  "\<not> a11y_probe p \<Longrightarrow> \<not> probe_permitted api p \<Longrightarrow>
     guard_probes api (p # ps) = Ok (Some False) \<or> (\<exists>e. guard_probes api (p # ps) = Err (Anyhow e))"
  using get_full_method_name_cases [of p api]
  by (auto simp: probe_permitted_def prefix_loop_allowlist split: option.split)

lemma guard_probes_Ok:
  "guard_probes api ps = Ok (Some True) \<or> guard_probes api ps = Ok None \<longleftrightarrow>
     list_all (probe_permitted api) (takeWhile (\<lambda>p. \<not> a11y_probe p) ps)"
  "guard_probes api ps = Ok (Some True) \<Longrightarrow> list_ex a11y_probe ps"
  "guard_probes api ps = Ok None \<Longrightarrow> list_all (\<lambda>p. \<not> a11y_probe p) ps"
proof (induction ps)
  case (Cons p ps)
  {
    case 1
    show ?case using Cons.IH(1) guard_probes_step [of p api ps]
      by (cases "a11y_probe p"; cases "probe_permitted api p") (simp_all del: guard_probes.simps, auto)
  next
    case 2
    then show ?case using Cons.IH(2) guard_probes_step [of p api ps]
      by (cases "a11y_probe p"; cases "probe_permitted api p") (auto simp del: guard_probes.simps)
  next
    case 3
    then show ?case using Cons.IH(3) guard_probes_step [of p api ps]
      by (cases "a11y_probe p"; cases "probe_permitted api p") (auto simp del: guard_probes.simps)
  }
qed simp_all

lemma takeWhile_list_all: "list_all P xs \<Longrightarrow> takeWhile P (xs @ ys) = xs @ takeWhile P ys"
  by (induction xs) auto

lemma list_all_takeWhile: "list_all P xs \<Longrightarrow> list_all Q (takeWhile P xs) \<longleftrightarrow> list_all Q xs"
  by (induction xs) auto

lemma takeWhile_list_ex: "list_ex (\<lambda>x. \<not> P x) xs \<Longrightarrow> takeWhile P (xs @ ys) = takeWhile P xs"
  by (induction xs) auto

lemma guard_tasks_Ok_True:
  "guard_tasks api ts = Ok True \<longleftrightarrow>
     list_all (probe_permitted api)
       (takeWhile (\<lambda>p. \<not> a11y_probe p) (concat (map probe_configs ts)))"
proof (induction ts)
  case (Cons t ts)
  let ?ps = "probe_configs t" and ?Q = "\<lambda>p. \<not> a11y_probe p"
  consider (yes) "guard_probes api ?ps = Ok (Some True)" | (go) "guard_probes api ?ps = Ok None"
    | (no) "\<not> list_all (probe_permitted api) (takeWhile ?Q ?ps)"
    using guard_probes_Ok(1) by blast
  then show ?case
  proof cases
    case yes
    then have "takeWhile ?Q (?ps @ concat (map probe_configs ts)) = takeWhile ?Q ?ps"
      by (intro takeWhile_list_ex) (simp add: guard_probes_Ok(2))
    then show ?thesis using yes guard_probes_Ok(1) [of api ?ps] by simp
  next
    case go
    then have a: "list_all ?Q ?ps" by (rule guard_probes_Ok(3))
    then have "takeWhile ?Q (?ps @ concat (map probe_configs ts))
        = ?ps @ takeWhile ?Q (concat (map probe_configs ts))" by (rule takeWhile_list_all)
    moreover have "list_all (probe_permitted api) ?ps"
      using go guard_probes_Ok(1) [of api ?ps] list_all_takeWhile [OF a] by blast
    ultimately show ?thesis using go Cons.IH by simp
  next
    case no
    then have "guard_tasks api (t # ts) \<noteq> Ok True"
      using guard_probes_Ok(1) [of api ?ps]
      by (auto simp: res_bind_Ok_iff split: option.splits)
    moreover have "\<not> list_all (probe_permitted api) (takeWhile ?Q (?ps @ concat (map probe_configs ts)))"
      using no takeWhile_list_all [of ?Q ?ps] takeWhile_list_all [of ?Q ?ps "[]"]
        takeWhile_list_ex [of ?Q ?ps]
      by (cases "list_all ?Q ?ps") (auto simp: list_all_iff list_ex_iff dest: set_takeWhileD)
    ultimately show ?thesis by simp
  qed
qed simp

text \<open>
  C29. The guardrail on a user build, exactly: a configuration is allowed if and only if every
  probe that comes before the first probe with the accessibility program names a BPF program and
  has a full method name on the allowlist. Nothing is required of the probes after that one.
\<close>

theorem is_allowed_user_build_iff:
  "is_allowed config True api = Ok True \<longleftrightarrow>
     list_all (probe_permitted api)
       (takeWhile (\<lambda>p. \<not> a11y_probe p) (concat (map probe_configs (tasks config))))"
  by (simp add: is_allowed_def guard_tasks_Ok_True)

text \<open>
  C11. Without an accessibility probe the guardrail is tight: if a user build allows a configuration
  in which no probe uses the accessibility program, then every method it instruments is on the
  allowlist.
\<close>

theorem is_allowed_safe:
  assumes "is_allowed config True True = Ok True"
    and "list_all (\<lambda>p. \<not> a11y_probe p) (concat (map probe_configs (tasks config)))"
    and "t \<in> set (tasks config)" and "p \<in> set (probe_configs t)"
  shows "\<exists>cls m. fully_qualified_class_name p = Some cls \<and> method_name p = Some m
           \<and> on_allowlist (cls @ ''.'' @ m)"
proof -
  let ?ps = "concat (map probe_configs (tasks config))"
  have "list_all (probe_permitted True) ?ps"
    using assms(1) list_all_takeWhile [OF assms(2)] guard_tasks_Ok_True
    unfolding is_allowed_def by (metis (full_types))
  moreover have "p \<in> set ?ps" using assms(3,4) by auto
  ultimately have "probe_permitted True p" by (simp only: list_all_iff)
  then show ?thesis
    by (auto simp: probe_permitted_def get_full_method_name_def split: option.splits)
qed

theorem is_allowed_safe_witness:
  "\<exists>cls m. fully_qualified_class_name
       \<lparr>bpf_name = Some ''prog_x'', file_paths = [], method_signature = None,
        fully_qualified_class_name = Some ''com.android.server.am.OomAdjuster'',
        method_name = Some ''updateOomAdj'', fully_qualified_parameters = [],
        binder_transaction_filters = []\<rparr> = Some cls
     \<and> method_name
       \<lparr>bpf_name = Some ''prog_x'', file_paths = [], method_signature = None,
        fully_qualified_class_name = Some ''com.android.server.am.OomAdjuster'',
        method_name = Some ''updateOomAdj'', fully_qualified_parameters = [],
        binder_transaction_filters = []\<rparr> = Some m
     \<and> on_allowlist (cls @ ''.'' @ m)"
  by (rule is_allowed_safe [where t = "\<lparr>probe_configs =
        [\<lparr>bpf_name = Some ''prog_x'', file_paths = [], method_signature = None,
          fully_qualified_class_name = Some ''com.android.server.am.OomAdjuster'',
          method_name = Some ''updateOomAdj'', fully_qualified_parameters = [],
          binder_transaction_filters = []\<rparr>], bpf_maps = [], target_process_name = None,
      duration_seconds = None, task_statsd_logging_config = None,
      target_process_selection = None, task_id = None\<rparr>" and
      config = "\<lparr>tasks = [\<lparr>probe_configs =
        [\<lparr>bpf_name = Some ''prog_x'', file_paths = [], method_signature = None,
          fully_qualified_class_name = Some ''com.android.server.am.OomAdjuster'',
          method_name = Some ''updateOomAdj'', fully_qualified_parameters = [],
          binder_transaction_filters = []\<rparr>], bpf_maps = [], target_process_name = None,
      duration_seconds = None, task_statsd_logging_config = None,
      target_process_selection = None, task_id = None\<rparr>]\<rparr>"])
    (simp_all add: is_allowed_def get_full_method_name_def ALLOWED_METHOD_PREFIXES_def
      PROG_BINDER_A11Y_SERVICE_CONNECTION_def prefix_def)

subsection \<open>What a flag controls\<close>

lemma sublist_trans_append: "sublist a b \<Longrightarrow> sublist b c \<Longrightarrow> sublist a c"
  by (auto simp: sublist_def) (metis append.assoc)

text \<open>
  The branch for the scaled-bitmap program is never taken, because every name that contains
  the program's name also contains the more general one tested before: the flag
  \<open>enable_bitmap_scaled_instrumentation\<close> has no influence on which BPF files are enabled.
\<close>

theorem scaled_bitmap_flag_dead:
  "is_bpf_file_enabled (fl\<lparr>enable_bitmap_scaled_instrumentation := b\<rparr>) name
     = is_bpf_file_enabled fl name"
proof -
  have "sublist ''BitmapAllocation'' ''prog_BitmapAllocation_uprobe_create_scaled_bitmap''"
    unfolding sublist_def
    by (rule exI [of _ "''prog_''"], rule exI [of _ "''_uprobe_create_scaled_bitmap''"]) simp
  then have "sublist ''BitmapAllocation'' name"
    if "sublist ''prog_BitmapAllocation_uprobe_create_scaled_bitmap'' name"
    using that by (rule sublist_trans_append)
  then show ?thesis unfolding is_bpf_file_enabled_def by (simp del: sublist_Cons_right)
qed

subsection \<open>Which filters resolve, and to what\<close>

text \<open>The declarative reading of a filter: what the resolver demands of the proto, and the map
  entries it builds. A positive signed number and its unsigned conversion have the same bits.\<close>

definition atom_config_valid :: "AtomConfigProto \<Rightarrow> bool" where
  "atom_config_valid c \<longleftrightarrow> (\<exists>i. acp_atom_id c = Some i \<and> sint i > 0)"

definition method_config_valid :: "MethodConfigProto \<Rightarrow> bool" where
  "method_config_valid p \<longleftrightarrow>
     (\<exists>i. mcp_method_id p = Some i \<and> sint i > 0)
     \<and> (mcp_event_service_config p \<noteq> None \<or> mcp_atom_config p \<noteq> None)
     \<and> pred_option atom_config_valid (mcp_atom_config p)"

definition method_entry :: "MethodConfigProto \<Rightarrow> c_ulong \<times> MethodConfig" where
  "method_entry p =
     (the (mcp_method_id p),
      \<lparr>event_service_config = map_option EventServiceConfig_from (mcp_event_service_config p),
       atom_config = map_option (\<lambda>c.
         \<lparr>ac_atom_id = the (acp_atom_id c),
          ac_atom_field_positions = map afp_value_or_default (acp_atom_field_positions c)\<rparr>)
         (mcp_atom_config p)\<rparr>)"

definition filter_valid :: "BinderTransactionFilter \<Rightarrow> bool" where
  "filter_valid f \<longleftrightarrow>
     (\<exists>n. interface_name f = Some n \<and> n \<noteq> []) \<and> method_configs f \<noteq> []
     \<and> list_all method_config_valid (method_configs f)
     \<and> distinct (map mcp_method_id (method_configs f))"

definition filter_entry :: "BinderTransactionFilter \<Rightarrow> string \<times> InterfaceConfig" where
  "filter_entry f =
     (the (interface_name f), \<lparr>methods = map method_entry (method_configs f)\<rparr>)"

lemma try_into_unsigned_positive:
  "sint (i :: 'n::len word) > 0 \<Longrightarrow> try_into_unsigned (sint i) = Ok i"
proof -
  have "sint i < 2 ^ (LENGTH('n) - 1)" using sint_less [of i] by simp
  also have "\<dots> \<le> (2 :: int) ^ LENGTH('n)" by (rule power_increasing) simp_all
  finally show "sint i > 0 \<Longrightarrow> ?thesis" by (simp add: try_into_unsigned_def)
qed


lemma AtomConfig_try_from_Ok_iff:
  "AtomConfig_try_from c = Ok a \<longleftrightarrow>
     atom_config_valid c
     \<and> a = \<lparr>ac_atom_id = the (acp_atom_id c),
            ac_atom_field_positions = map afp_value_or_default (acp_atom_field_positions c)\<rparr>"
  by (cases "acp_atom_id c")
    (auto simp: AtomConfig_try_from_def atom_config_valid_def try_into_unsigned_positive
      split: if_splits)

lemma resolve_method_config_Ok_iff:
  "resolve_method_config p = Ok r \<longleftrightarrow> method_config_valid p \<and> r = method_entry p"
proof -
  have id: "resolve_method_id p = Ok i \<longleftrightarrow> mcp_method_id p = Some i \<and> sint i > 0" for i
    by (cases "mcp_method_id p")
      (auto simp: resolve_method_id_def try_into_unsigned_positive split: if_splits)
  show ?thesis
    by (cases "mcp_atom_config p")
      (auto simp: resolve_method_config_def method_config_valid_def method_entry_def res_Ok_iffs
        id AtomConfig_try_from_Ok_iff Let_def)
qed

lemma entry_keys:
  "method_config_valid p \<Longrightarrow> method_config_valid q \<Longrightarrow>
     mcp_method_id q = mcp_method_id p \<longleftrightarrow> fst (method_entry q) = fst (method_entry p)"
  "filter_valid f \<Longrightarrow> filter_valid g \<Longrightarrow>
     interface_name g = interface_name f \<longleftrightarrow> fst (filter_entry g) = fst (filter_entry f)"
  by (auto simp: method_config_valid_def method_entry_def filter_valid_def filter_entry_def)

lemma entries_wf:
  "list_all method_config_valid ps \<Longrightarrow> distinct (map mcp_method_id ps) \<Longrightarrow> hm_wf (map method_entry ps)"
  "list_all filter_valid fs \<Longrightarrow> distinct (map interface_name fs) \<Longrightarrow> hm_wf (map filter_entry fs)"
  unfolding hm_wf_def list_all_iff distinct_map inj_on_def
  by (auto simp: entry_keys distinct_map inj_on_def)

lemma method_entry_pos: "method_config_valid p \<Longrightarrow> 0 < uint (fst (method_entry p))"
  by (auto simp: method_config_valid_def method_entry_def)
    (metis sint_0 uint_0_iff uint_ge_0 order_le_less)+

lemma resolve_methods_Ok_iff:
  "resolve_methods ps ic = Ok ic' \<longleftrightarrow>
     list_all method_config_valid ps \<and> distinct (map mcp_method_id ps)
     \<and> set (map (fst \<circ> method_entry) ps) \<inter> fst ` set (methods ic) = {}
     \<and> ic' = ic\<lparr>methods := methods ic @ map method_entry ps\<rparr>"
proof (induction ps arbitrary: ic)
  case (Cons p ps)
  show ?case
  proof (cases "method_config_valid p \<and> fst (method_entry p) \<notin> fst ` set (methods ic)")
    case True
    then have r: "resolve_method_config p = Ok (method_entry p)"
      and n: "map_of (methods ic) (fst (method_entry p)) = None"
      by (simp_all add: resolve_method_config_Ok_iff map_of_eq_None_iff)
    then have "resolve_methods (p # ps) ic =
        resolve_methods ps (ic\<lparr>methods := methods ic @ [method_entry p]\<rparr>)"
      by (cases "method_entry p") (simp add: insert_method_def hm_insert_new)
    moreover have "mcp_method_id p \<notin> mcp_method_id ` set ps \<longleftrightarrow>
        fst (method_entry p) \<notin> fst ` method_entry ` set ps"
      if "list_all method_config_valid ps"
      using True that entry_keys unfolding list_all_iff image_image image_iff by metis
    ultimately show ?thesis using True
      by (auto simp: Cons.IH image_iff)
  next
    case False
    then have "resolve_methods (p # ps) ic \<noteq> Ok ic'"
      by (auto simp: res_Ok_iffs resolve_method_config_Ok_iff insert_method_def hm_insert_def
          split: prod.splits if_splits) (force simp: map_of_eq_None_iff)
    with False show ?thesis by auto
  qed
qed auto

lemma resolve_filters_Ok_iff:
  "resolve_filters fs m = Ok m' \<longleftrightarrow>
     list_all filter_valid fs \<and> distinct (map interface_name fs)
     \<and> set (map (fst \<circ> filter_entry) fs) \<inter> fst ` set m = {}
     \<and> m' = m @ map filter_entry fs"
proof (induction fs arbitrary: m)
  case (Cons f fs)
  have r: "resolve_methods (method_configs f) InterfaceConfig_default = Ok ic \<longleftrightarrow>
      list_all method_config_valid (method_configs f)
      \<and> distinct (map mcp_method_id (method_configs f))
      \<and> ic = \<lparr>methods = map method_entry (method_configs f)\<rparr>" for ic
    by (auto simp: resolve_methods_Ok_iff InterfaceConfig_default_def)
  show ?case
  proof (cases "filter_valid f \<and> fst (filter_entry f) \<notin> fst ` set m")
    case True
    then obtain n where n: "interface_name f = Some n" "n \<noteq> []" "map_of m n = None"
      by (auto simp: filter_valid_def filter_entry_def map_of_eq_None_iff)
    have "resolve_methods (method_configs f) InterfaceConfig_default =
        Ok \<lparr>methods = map method_entry (method_configs f)\<rparr>"
      using True r by (simp add: filter_valid_def)
    then have "resolve_filters (f # fs) m = resolve_filters fs (m @ [filter_entry f])"
      using True n by (simp add: filter_valid_def filter_entry_def hm_insert_new)
    moreover have "interface_name f \<notin> interface_name ` set fs \<longleftrightarrow>
        fst (filter_entry f) \<notin> fst ` filter_entry ` set fs" if "list_all filter_valid fs"
      using True that entry_keys unfolding list_all_iff image_image image_iff by metis
    ultimately show ?thesis using True
      by (auto simp: Cons.IH image_iff)
  next
    case False
    then have "resolve_filters (f # fs) m \<noteq> Ok m'"
      by (auto simp: res_Ok_iffs r filter_valid_def filter_entry_def hm_insert_def
          split: option.splits prod.splits if_splits) (force simp: map_of_eq_None_iff)
    with False show ?thesis by auto
  qed
qed auto

text \<open>
  C30. Binder transaction filters resolve exactly when they are well formed, and to exactly what
  they say. For the binder program: there is at least one filter, interface names are present,
  non-empty and pairwise distinct, every filter has methods, and every method a positive id that
  is unique in its interface, an event-service or an atom configuration, and a positive atom id
  in the latter; the result has one entry per filter, in order. For any other program there must
  be no filters, and the result is empty.
\<close>

theorem resolve_binder_transaction_filters_iff:
  "resolve_binder_transaction_filters probe name = Ok m \<longleftrightarrow>
     (if name = BINDER_BPF_PROGRAM_NAME then
        binder_transaction_filters probe \<noteq> []
        \<and> list_all filter_valid (binder_transaction_filters probe)
        \<and> distinct (map interface_name (binder_transaction_filters probe))
        \<and> m = map filter_entry (binder_transaction_filters probe)
      else binder_transaction_filters probe = [] \<and> m = [])"
  by (auto simp: resolve_binder_transaction_filters_def res_Ok_iffs resolve_filters_Ok_iff)

lemma resolved_filters_wf:
  assumes "resolve_filters fs [] = Ok m"
  shows "hm_wf m" and "list_all (\<lambda>(n, ic). n \<noteq> [] \<and> hm_wf (methods ic)
           \<and> list_all (\<lambda>(i, _). uint i > 0) (methods ic)) m"
proof -
  have v: "list_all filter_valid fs" and d: "distinct (map interface_name fs)"
    and m: "m = map filter_entry fs" using assms by (auto simp: resolve_filters_Ok_iff)
  show "hm_wf m" unfolding m using v d by (rule entries_wf)
  have "fst (filter_entry f) \<noteq> [] \<and> hm_wf (methods (snd (filter_entry f)))
      \<and> list_all (\<lambda>(i, _). uint i > 0) (methods (snd (filter_entry f)))" if "filter_valid f" for f
    using that entries_wf(1) [of "method_configs f"] method_entry_pos
    by (auto simp: filter_valid_def filter_entry_def list_all_iff split_def)
  then show "list_all (\<lambda>(n, ic). n \<noteq> [] \<and> hm_wf (methods ic)
           \<and> list_all (\<lambda>(i, _). uint i > 0) (methods ic)) m"
    using v by (auto simp: m list_all_iff split_def)
qed

subsection \<open>The resolved task\<close>

lemma resolve_duration_Ok_iff:
  "resolve_duration task = Ok d \<longleftrightarrow>
     (\<exists>n. duration_seconds task = Some n \<and> sint n > 0 \<and> d = from_secs (nat (sint n)))"
proof -
  have "\<exists>w :: u64. try_into_unsigned (sint n) = Ok w \<and> unat w = nat (sint n)"
    if "sint n > 0" for n :: i32
  proof -
    have "\<exists>w :: u64. try_into_unsigned (sint n) = Ok w"
      using that sint_lt [of n] by (simp add: try_into_unsigned_def)
    then show ?thesis by (auto simp: try_into_unsigned_Ok_iff) (metis nat_uint_eq)
  qed
  note conv = this
  show ?thesis
  proof (cases "\<exists>n. duration_seconds task = Some n \<and> sint n > 0")
    case True
    then obtain n where "duration_seconds task = Some n" "sint n > 0" by blast
    with conv [of n] show ?thesis by (auto simp: resolve_duration_def)
  qed (auto simp: resolve_duration_def res_Ok_iffs split: if_splits)
qed

lemma resolve_task_checks_return:
  "returns (is_allowed config ub api)" "returns (collect_res (resolve_map_path fl) ms)"
  "returns (resolve_duration task)"
proof -
  have "returns (guard_probes api ps)" for ps
    by (induction ps)
      (auto simp: get_full_method_name_def split: option.split list.split)
  then have "returns (guard_tasks api ts)" for ts
    by (induction ts) (auto split: option.split)
  then show "returns (is_allowed config ub api)" by (simp add: is_allowed_def)
qed (auto simp: resolve_map_path_def resolve_duration_def intro!: returns_collect_res returns_bind)

lemma binder_filters_return: "returns (resolve_binder_transaction_filters probe name)"
proof -
  have m: "returns (resolve_method_config p)" for p
    by (auto simp: resolve_method_config_def resolve_method_id_def AtomConfig_try_from_def Let_def
        intro!: returns_bind split: option.split)
  have "returns (resolve_methods ps ic)" for ps ic
  proof (induction ps arbitrary: ic)
    case (Cons p ps)
    with m [of p] show ?case by (auto simp: insert_method_def intro!: returns_bind split: prod.split)
  qed simp
  then have "returns (resolve_filters fs filters)" for fs filters
    by (induction fs arbitrary: filters) (auto intro!: returns_bind split: option.split prod.split)
  then show ?thesis by (auto simp: resolve_binder_transaction_filters_def intro!: returns_bind)
qed

lemma resolve_maps_Ok_iff:
  "collect_res (resolve_map_path fl) ms = Ok paths \<longleftrightarrow>
     list_all (is_bpf_file_enabled fl) ms \<and> paths = map prefix_bpf ms"
  by (induction ms arbitrary: paths) (auto simp: resolve_map_path_def res_Ok_iffs)

lemma resolve_probe_Ok:
  assumes "resolve_probe fl ro process probe s = (Ok rp, s')"
  shows "\<exists>n cls m. bpf_name probe = Some n \<and> is_bpf_file_enabled fl n
      \<and> fully_qualified_class_name probe = Some cls \<and> method_name probe = Some m
      \<and> resolve_binder_transaction_filters probe n = Ok (probe_filters rp)
      \<and> bpf_program_path rp = prefix_bpf n
      \<and> method_descriptor rp = \<lparr>md_fully_qualified_class_name = cls, md_method_name = m,
           md_fully_qualified_parameters = fully_qualified_parameters probe\<rparr>
      \<and> ro process (method_descriptor rp) s = (Ok (Some (probe_offsets rp)), s')"
  using assms by (auto simp: resolve_probe_def Let_def io_bind_Ok_iff res_Ok_iffs)

text \<open>What a resolved probe has to do with the probe it was resolved from.\<close>

definition probe_resolves :: "flags \<Rightarrow> ProbeConfig \<Rightarrow> ResolvedProbe \<Rightarrow> bool" where
  "probe_resolves fl probe rp \<longleftrightarrow>
     (case (bpf_name probe, fully_qualified_class_name probe, method_name probe) of
        (Some n, Some cls, Some m) \<Rightarrow>
          is_bpf_file_enabled fl n \<and> bpf_program_path rp = prefix_bpf n
          \<and> resolve_binder_transaction_filters probe n = Ok (probe_filters rp)
          \<and> method_descriptor rp = \<lparr>md_fully_qualified_class_name = cls, md_method_name = m,
               md_fully_qualified_parameters = fully_qualified_parameters probe\<rparr>
      | _ \<Rightarrow> False)"

lemma resolve_probes_Ok:
  "resolve_probes fl ro process probes s = (Ok rps, s') \<Longrightarrow>
     list_all2 (probe_resolves fl) probes rps"
  unfolding resolve_probes_def
proof (induction probes arbitrary: rps s)
  case (Cons p ps)
  then obtain rp s'' rs where "resolve_probe fl ro process p s = (Ok rp, s'')"
    and "collect_io (resolve_probe fl ro process) ps s'' = (Ok rs, s')" and "rps = rp # rs"
    by (auto simp: io_bind_Ok_iff)
  then show ?case using resolve_probe_Ok [of fl ro process p s rp s''] Cons.IH [of s'' rs]
    by (auto simp: probe_resolves_def)
qed simp

lemma wrap_config_err_Inr:
  "wrap_config_err w m s = (Ok (Inr x), s') \<longleftrightarrow> m s = (Ok x, s')"
  by (cases "m s"; cases "fst (m s)") (auto simp: wrap_config_err_def io_simps)

lemma wrap_config_err_Err:
  "m s = (Err e, s') \<Longrightarrow> wrap_config_err w m s = (Ok (Inl (w e)), s')"
  by (simp add: wrap_config_err_def io_simps)

lemma wrap_config_err_res:
  "wrap_config_err w (lift_res r) =
     (case r of Ok x \<Rightarrow> ret (Inr x) | Err e \<Rightarrow> ret (Inl (w e)) | Panic p \<Rightarrow> panic p
      | NoFuel \<Rightarrow> lift_res NoFuel)"
  by (cases r) (auto simp: wrap_config_err_def io_simps)

lemma resolve_config_Inr:
  assumes "resolve_config fl parse bytes user_build rproc roffs s = (Ok (Inr rt), s')"
  obtains task where "parse bytes = Some \<lparr>tasks = [task]\<rparr>"
    and "is_allowed \<lparr>tasks = [task]\<rparr> user_build True = Ok True"
    and "resolve_single_task fl rproc roffs task (case task_id task of Some i \<Rightarrow> i | None \<Rightarrow> 0) s = (Ok rt, s')"
proof -
  obtain config where c: "parse bytes = Some config"
    using assms by (cases "parse bytes")
      (auto simp: resolve_config_def read_config_from_bytes_def wrap_config_err_res)
  obtain task where t: "tasks config = [task]"
    using assms c by (cases "tasks config" rule: remdups_adj.cases)
      (auto simp: resolve_config_def read_config_from_bytes_def wrap_config_err_res)
  have "config = \<lparr>tasks = [task]\<rparr>" using t by (cases config) simp
  with assms c t show thesis
    by (intro that [of task]) (auto simp: resolve_config_def resolve_allowed_def read_config_from_bytes_def
        wrap_config_err_res wrap_config_err_Inr Let_def split: res.splits if_splits)
qed

lemma resolve_single_task_Ok:
  "resolve_single_task fl rproc roffs task tid s = (Ok rt, s') \<Longrightarrow>
     \<exists>secs. rt_id rt = tid \<and> duration_seconds task = Some secs \<and> 0 < sint secs
      \<and> rt_duration rt = from_secs (nat (sint secs)) \<and> list_all (is_bpf_file_enabled fl) (bpf_maps task)
      \<and> set (bpf_map_paths rt) = prefix_bpf ` set (bpf_maps task) \<and> distinct (bpf_map_paths rt)
      \<and> statsd_logging_config rt = task_statsd_logging_config task
      \<and> list_all2 (probe_resolves fl) (probe_configs task) (resolved_probes rt)"
  by (auto simp: resolve_single_task_def Let_def io_bind_Ok_iff resolve_maps_Ok_iff
      resolve_duration_Ok_iff intro!: resolve_probes_Ok)

text \<open>
  C1. Soundness of resolving a configuration: a task comes out only of bytes that parse to a
  configuration with exactly one task which the guardrail allows. It then runs for the configured
  positive number of seconds (so for less than \<open>2^31\<close> s), every map and every program it uses is
  enabled by the flags and has a path that begins with the daemon's BPF directory, no map is listed twice, and the
  probes are those of the configuration, in order, with their class, method and parameters.
\<close>

theorem resolve_config_sound:
  assumes "resolve_config fl parse bytes user_build rproc roffs s = (Ok (Inr rt), s')"
  shows "\<exists>task secs. parse bytes = Some \<lparr>tasks = [task]\<rparr>
      \<and> is_allowed \<lparr>tasks = [task]\<rparr> user_build True = Ok True
      \<and> rt_id rt = (case task_id task of Some i \<Rightarrow> i | None \<Rightarrow> 0)
      \<and> duration_seconds task = Some secs \<and> 0 < sint secs \<and> rt_duration rt = from_secs (nat (sint secs))
      \<and> list_all (is_bpf_file_enabled fl) (bpf_maps task)
      \<and> set (bpf_map_paths rt) = prefix_bpf ` set (bpf_maps task) \<and> distinct (bpf_map_paths rt)
      \<and> statsd_logging_config rt = task_statsd_logging_config task
      \<and> list_all2 (probe_resolves fl) (probe_configs task) (resolved_probes rt)"
  using assms by (rule resolve_config_Inr) (auto dest: resolve_single_task_Ok)

lemma resolve_allowed_rejects:
  assumes "is_allowed config user_build True \<noteq> Ok True
      \<or> \<not> list_all (is_bpf_file_enabled fl) (bpf_maps task)
      \<or> \<not> (\<exists>n. duration_seconds task = Some n \<and> sint n > 0)"
  shows "\<exists>e. resolve_allowed fl config user_build rproc roffs task s = (Ok (Inl e), s)
      \<and> ConfigError_task_id e = Some (case task_id task of Some i \<Rightarrow> i | None \<Rightarrow> 0)"
proof (cases "is_allowed config user_build True = Ok True")
  case False
  then show ?thesis using resolve_task_checks_return(1) [of config user_build True]
    by (cases "is_allowed config user_build True")
      (auto simp: resolve_allowed_def wrap_config_err_res Let_def)
next
  case True
  have "\<exists>e. resolve_single_task fl rproc roffs task i s = (Err e, s)" for i
  proof (cases "collect_res (resolve_map_path fl) (bpf_maps task)")
    case (Ok paths)
    with True assms have "resolve_duration task \<noteq> Ok d" for d
      by (auto simp: resolve_maps_Ok_iff resolve_duration_Ok_iff)
    then obtain e where "resolve_duration task = Err e"
      using resolve_task_checks_return(3) [of task] by (auto simp: returns_iff)
    with Ok show ?thesis by (simp add: resolve_single_task_def)
  qed (use resolve_task_checks_return(2) [of fl "bpf_maps task"]
        in \<open>auto simp: resolve_single_task_def returns_iff\<close>)
  with True show ?thesis
    by (auto simp: resolve_allowed_def wrap_config_err_res Let_def)
      (metis ConfigError_task_id.simps(1) wrap_config_err_Err)
qed

text \<open>
  A bad configuration is rejected before anything is touched, and the error says whose it is.
  If the bytes do not parse or there is not exactly one task, the error carries no task id;
  if the guardrail refuses the task, a map is disabled or the duration is missing or not
  positive, it carries the task's id. Neither resolver has been called, and the trace is as it was.
\<close>

theorem resolve_config_rejects:
  assumes "case parse bytes of
      None \<Rightarrow> tid = None
    | Some config \<Rightarrow>
        (case tasks config of
           [task] \<Rightarrow>
             tid = Some (case task_id task of Some i \<Rightarrow> i | None \<Rightarrow> 0)
             \<and> (is_allowed config user_build True \<noteq> Ok True
                \<or> \<not> list_all (is_bpf_file_enabled fl) (bpf_maps task)
                \<or> \<not> (\<exists>n. duration_seconds task = Some n \<and> sint n > 0))
         | _ \<Rightarrow> tid = None)"
  shows "\<exists>e. resolve_config fl parse bytes user_build rproc roffs s = (Ok (Inl e), s)
           \<and> ConfigError_task_id e = tid"
proof (cases "parse bytes")
  case None
  with assms show ?thesis
    by (simp add: resolve_config_def read_config_from_bytes_def wrap_config_err_res)
next
  case (Some config)
  then have run: "resolve_config fl parse bytes user_build rproc roffs s =
      (case tasks config of
         [task] \<Rightarrow> resolve_allowed fl config user_build rproc roffs task s
       | _ \<Rightarrow> (Ok (Inl (OtherError (Anyhow ''Config must have exactly one task, got {}''))), s))"
    by (simp add: resolve_config_def read_config_from_bytes_def wrap_config_err_res
        resolve_allowed_def split: list.split)
  show ?thesis
  proof (cases "\<exists>task. tasks config = [task]")
    case True
    then obtain task where t: "tasks config = [task]" by blast
    with assms Some have "tid = Some (case task_id task of Some i \<Rightarrow> i | None \<Rightarrow> 0)"
      and bad: "is_allowed config user_build True \<noteq> Ok True
        \<or> \<not> list_all (is_bpf_file_enabled fl) (bpf_maps task)
        \<or> \<not> (\<exists>n. duration_seconds task = Some n \<and> sint n > 0)" by simp_all
    then show ?thesis using resolve_allowed_rejects [OF bad] run t by simp
  next
    case False
    with assms Some run show ?thesis by (auto split: list.splits)
  qed
qed

subsection \<open>A concrete configuration\<close>

definition example_flags :: flags where
  "example_flags =
     \<lparr>uprobestats_monitor_disruptive_app_activities = True, enable_bitmap_snapshot = True,
      enable_bitmap_instrumentation = True, enable_bitmap_scaled_instrumentation = True,
      enable_binder_transaction = True, use_process_observer_api = True,
      a11y_runtime_permission = True, feature_art_test = False\<rparr>"

definition example_task :: Task where
  "example_task =
     \<lparr>probe_configs = [\<lparr>bpf_name = Some ''prog_Generic'', file_paths = [], method_signature = None,
        fully_qualified_class_name = Some ''com.android.server.am.OomAdjuster'',
        method_name = Some ''updateOomAdj'', fully_qualified_parameters = [],
        binder_transaction_filters = []\<rparr>],
      bpf_maps = [''map_Generic''], target_process_name = Some ''system_server'',
      duration_seconds = Some 180, task_statsd_logging_config = None,
      target_process_selection = Some 1, task_id = Some 7\<rparr>"

definition example_offsets :: ExecutableMethodFileOffsets where
  "example_offsets = \<lparr>container_path = ''services.odex'', container_offset = 4096, method_offset = 64\<rparr>"

definition example_process :: ResolvedProcess where
  "example_process = \<lparr>rp_pid = 1000, rp_uid = 1000, rp_name = ''system_server''\<rparr>"

definition example_resolve :: "bool \<Rightarrow> (unit st, ConfigError + ResolvedTask) io" where
  "example_resolve parses =
     resolve_config example_flags (\<lambda>_. if parses then Some \<lparr>tasks = [example_task]\<rparr> else None) []
       True (\<lambda>_ _ _. ret example_process) (\<lambda>_ _. ret (Some example_offsets))"

definition example_resolved :: ResolvedTask where
  "example_resolved =
     \<lparr>rt_id = 7, rt_duration = 180000000000, resolved_process = example_process,
      bpf_map_paths = [''/sys/fs/bpf/uprobestats/map_Generic''], statsd_logging_config = None,
      resolved_probes = [\<lparr>method_descriptor =
          \<lparr>md_fully_qualified_class_name = ''com.android.server.am.OomAdjuster'',
           md_method_name = ''updateOomAdj'', md_fully_qualified_parameters = []\<rparr>,
        probe_offsets = example_offsets,
        bpf_program_path = ''/sys/fs/bpf/uprobestats/prog_Generic'', probe_filters = []\<rparr>]\<rparr>"

lemma example_enabled:
  "is_bpf_file_enabled example_flags name"
  by (simp add: is_bpf_file_enabled_def example_flags_def)

lemma example_allowed: "is_allowed \<lparr>tasks = [example_task]\<rparr> True True = Ok True"
  by (simp add: is_allowed_def example_task_def get_full_method_name_def prefix_def
      ALLOWED_METHOD_PREFIXES_def PROG_BINDER_A11Y_SERVICE_CONNECTION_def)

lemma example_resolve_run: "example_resolve True ((), []) = (Ok (Inr example_resolved), ((), []))"
proof -
  have m: "collect_res (resolve_map_path example_flags) (bpf_maps example_task) =
      Ok [''/sys/fs/bpf/uprobestats/map_Generic'']"
    by (simp add: example_task_def resolve_map_path_def example_enabled prefix_bpf_def BPF_DIR_def)
  have d: "resolve_duration example_task = Ok 180000000000"
    by (simp add: resolve_duration_Ok_iff example_task_def from_secs_def)
  have p: "resolve_probes example_flags (\<lambda>_ _. ret (Some example_offsets)) example_process
      (probe_configs example_task) ((), []) = (Ok (resolved_probes example_resolved), ((), []))"
    by (simp add: example_task_def example_resolved_def resolve_probes_def resolve_probe_def
        example_enabled resolve_binder_transaction_filters_def BINDER_BPF_PROGRAM_NAME_def
        prefix_bpf_def BPF_DIR_def)
  have "resolve_single_task example_flags (\<lambda>_ _ _. ret example_process)
      (\<lambda>_ _. ret (Some example_offsets)) example_task 7 ((), []) = (Ok example_resolved, ((), []))"
    unfolding resolve_single_task_def m d
    by (simp add: io_bind_def p) (simp add: example_resolved_def example_task_def)
  then show ?thesis
    by (simp add: example_resolve_def resolve_config_def read_config_from_bytes_def
        wrap_config_err_res resolve_allowed_def example_allowed)
      (simp add: example_task_def wrap_config_err_Inr)
qed

theorem resolve_config_sound_witness:
  "\<exists>task secs. Some \<lparr>tasks = [example_task]\<rparr> = Some \<lparr>tasks = [task]\<rparr>
      \<and> is_allowed \<lparr>tasks = [task]\<rparr> True True = Ok True
      \<and> rt_id example_resolved = (case task_id task of Some i \<Rightarrow> i | None \<Rightarrow> 0)
      \<and> duration_seconds task = Some secs \<and> 0 < sint secs
      \<and> rt_duration example_resolved = from_secs (nat (sint secs))
      \<and> list_all (is_bpf_file_enabled example_flags) (bpf_maps task)
      \<and> set (bpf_map_paths example_resolved) = prefix_bpf ` set (bpf_maps task)
      \<and> distinct (bpf_map_paths example_resolved)
      \<and> statsd_logging_config example_resolved = task_statsd_logging_config task
      \<and> list_all2 (probe_resolves example_flags) (probe_configs task) (resolved_probes example_resolved)"
  using resolve_config_sound [OF example_resolve_run [unfolded example_resolve_def]]
  by (simp only: if_True)

theorem resolve_config_rejects_witness:
  "\<exists>e. example_resolve False ((), []) = (Ok (Inl e), ((), [])) \<and> ConfigError_task_id e = None"
  unfolding example_resolve_def by (rule resolve_config_rejects) simp

end
