(* ===== verification/Logging.thy ===== *)
theory Logging
  imports World
begin

section \<open>What is logged\<close>

text \<open>
  The level up to which the daemon logs (\<open>main\<close> and \<open>level_filter_from_property_or_info\<close> of \<open>uprobestats.rs\<close>), and the
  hex dump that the test module of \<open>android/bpf_handler.rs\<close> keeps for debugging (\<open>print_xxd_like\<close>). The crate \<open>log\<close> is
  not part of the repository: the order of its levels is documented, its parser of level names is a parameter.
\<close>

subsection \<open>Levels\<close>

datatype LevelFilter = LevelOff | LevelError | LevelWarn | LevelInfo | LevelDebug | LevelTrace

fun level_rank :: "LevelFilter \<Rightarrow> nat" where
  "level_rank LevelOff = 0"
| "level_rank LevelError = 1"
| "level_rank LevelWarn = 2"
| "level_rank LevelInfo = 3"
| "level_rank LevelDebug = 4"
| "level_rank LevelTrace = 5"

lemma level_rank_inj: "level_rank a = level_rank b \<Longrightarrow> a = b"
  by (cases a; cases b) simp_all

instantiation LevelFilter :: linorder
begin
definition less_eq_LevelFilter :: "LevelFilter \<Rightarrow> LevelFilter \<Rightarrow> bool" where
  "less_eq_LevelFilter a b \<longleftrightarrow> level_rank a \<le> level_rank b"
definition less_LevelFilter :: "LevelFilter \<Rightarrow> LevelFilter \<Rightarrow> bool" where
  "less_LevelFilter a b \<longleftrightarrow> level_rank a < level_rank b"
instance
  by standard (auto simp: less_eq_LevelFilter_def less_LevelFilter_def level_rank_inj)
end

definition level_filter_from_property_or_info ::
  "(string \<Rightarrow> LevelFilter option) \<Rightarrow> device \<Rightarrow> string \<Rightarrow> LevelFilter" where
  "level_filter_from_property_or_info from_str d property =
     (case from_str (case read_property d property of Some v \<Rightarrow> v | None \<Rightarrow> []) of
        Some level \<Rightarrow> level
      | None \<Rightarrow> LevelInfo)"

definition max_log_level :: "(string \<Rightarrow> LevelFilter option) \<Rightarrow> device \<Rightarrow> LevelFilter" where
  "max_log_level from_str d =
     (let log_tag_filter = level_filter_from_property_or_info from_str d ''log.tag.uprobestats'';
          persist_log_tag_filter = level_filter_from_property_or_info from_str d ''persist.log.tag.uprobestats'';
          log_level_filter = max log_tag_filter persist_log_tag_filter in
      if is_user_build d then min LevelInfo log_level_filter else log_level_filter)"

text \<open>Debug and trace lines never appear on a user build, whatever the properties say.\<close>

lemma user_build_log_cap: "is_user_build d \<Longrightarrow> max_log_level from_str d \<le> LevelInfo"
  by (simp add: max_log_level_def Let_def)

text \<open>One property alone cannot silence the daemon: the other one, when it is unset, stands for \<open>Info\<close>.\<close>

lemma one_property_cannot_silence:
  assumes "from_str [] = None" and "read_property d ''persist.log.tag.uprobestats'' = None"
  shows "LevelInfo \<le> max_log_level from_str d"
  using assms by (simp add: max_log_level_def Let_def level_filter_from_property_or_info_def)

subsection \<open>The hex dump\<close>

fun join :: "string \<Rightarrow> string list \<Rightarrow> string" where
  "join sep [] = []"
| "join sep [x] = x"
| "join sep (x # xs) = x @ sep @ join sep xs"

definition hex_digit :: "nat \<Rightarrow> char" where
  "hex_digit n = (''0123456789abcdef'' ! n)"

definition byte_hex :: "char \<Rightarrow> string" where
  "byte_hex b = [hex_digit (of_char b div 16), hex_digit (of_char b mod 16)]"

fun nat_hex :: "nat \<Rightarrow> string" where
  "nat_hex n = (if n < 16 then [hex_digit n] else nat_hex (n div 16) @ [hex_digit (n mod 16)])"

declare nat_hex.simps [simp del]

definition pad_left :: "nat \<Rightarrow> char \<Rightarrow> string \<Rightarrow> string" where
  "pad_left w c s = replicate (w - length s) c @ s"

definition pad_right :: "nat \<Rightarrow> char \<Rightarrow> string \<Rightarrow> string" where
  "pad_right w c s = s @ replicate (w - length s) c"

definition hex_str :: "char list \<Rightarrow> string" where
  "hex_str chunk =
     join '' '' (map (\<lambda>(i, byte).
       let hex = byte_hex byte in
       if (i + 1) mod 2 = 0 \<and> i \<noteq> length chunk - 1 then hex @ '' '' else hex) (enumerate 0 chunk))"

definition ascii_str :: "char list \<Rightarrow> string" where
  "ascii_str chunk =
     map (\<lambda>byte. if (33 \<le> (of_char byte :: nat) \<and> (of_char byte :: nat) \<le> 126) \<or> byte = CHR '' '' then byte else CHR ''.'') chunk"

fun xxd_lines :: "nat \<Rightarrow> char list \<Rightarrow> string list" where
  "xxd_lines offs data =
     (if data = [] then []
      else (pad_left 8 CHR ''0'' (nat_hex offs) @ '': '' @ pad_right 48 CHR '' '' (hex_str (take 16 data)) @ ''  ''
              @ ascii_str (take 16 data))
           # xxd_lines (offs + length (take 16 data)) (drop 16 data))"

declare xxd_lines.simps [simp del]

definition print_xxd_like :: "string \<Rightarrow> char list \<Rightarrow> string list" where
  "print_xxd_like pre data = (pre @ '' hex:'') # xxd_lines 0 data"

text \<open>Every byte is in the dump: without its blanks the hex column is two digits for each byte, from which
  the byte can be read back.\<close>

abbreviation no_blanks :: "string \<Rightarrow> string" where
  "no_blanks \<equiv> filter (\<lambda>c. c \<noteq> CHR '' '')"

lemma hex_digit_inj: "m < 16 \<Longrightarrow> n < 16 \<Longrightarrow> hex_digit m = hex_digit n \<longleftrightarrow> m = n"
  unfolding hex_digit_def by (rule nth_eq_iff_index_eq) simp_all

lemma byte_hex_inj: "byte_hex a = byte_hex b \<longleftrightarrow> a = b"
proof
  have bound: "(of_char c :: nat) div 16 < 16" for c :: char
    using nat_of_char_less_256 [of c] by (simp add: less_mult_imp_div_less)
  assume "byte_hex a = byte_hex b"
  then have "(of_char a :: nat) div 16 = of_char b div 16" "(of_char a :: nat) mod 16 = of_char b mod 16"
    by (simp_all add: byte_hex_def hex_digit_inj bound)
  then have "(of_char a :: nat) = of_char b" by (metis div_mult_mod_eq)
  then show "a = b" by simp
qed simp

lemma hex_digit_no_blank: "n < 16 \<Longrightarrow> hex_digit n \<noteq> CHR '' ''"
proof -
  have "\<forall>n < 16. hex_digit n \<noteq> CHR '' ''" by code_simp
  then show "n < 16 \<Longrightarrow> hex_digit n \<noteq> CHR '' ''" by blast
qed

lemma byte_hex_no_blanks: "no_blanks (byte_hex b) = byte_hex b"
  using nat_of_char_less_256 [of b] by (simp add: byte_hex_def hex_digit_no_blank less_mult_imp_div_less)

lemma no_blanks_join: "no_blanks (join '' '' xs) = concat (map no_blanks xs)"
  by (induction "'' '' :: string" xs rule: join.induct) simp_all

lemma hex_str_bytes: "no_blanks (hex_str chunk) = concat (map byte_hex chunk)"
proof -
  have "map no_blanks (map (\<lambda>(i, byte). let hex = byte_hex byte in
       if (i + 1) mod 2 = 0 \<and> i \<noteq> length chunk - 1 then hex @ '' '' else hex) (enumerate 0 chunk))
     = map (byte_hex \<circ> snd) (enumerate 0 chunk)"
    by (auto simp: Let_def byte_hex_no_blanks)
  then show ?thesis unfolding hex_str_def no_blanks_join by (simp only:) (simp flip: map_map)
qed

text \<open>A full row of sixteen bytes is 54 wide, so that padding to 48 does not align the column after it.\<close>

lemma length_join: "length (join sep xs) = sum_list (map length xs) + length sep * (length xs - 1)"
  by (induction sep xs rule: join.induct) simp_all

lemma full_row_width:
  assumes "length chunk = 16"
  shows "length (hex_str chunk) = 54"
proof -
  let ?width = "\<lambda>i. if (i + 1) mod 2 = 0 \<and> i \<noteq> (15 :: nat) then 3 else (2 :: nat)"
  have "map length (map (\<lambda>(i, byte). let hex = byte_hex byte in
       if (i + 1) mod 2 = 0 \<and> i \<noteq> length chunk - 1 then hex @ '' '' else hex) (enumerate 0 chunk))
     = map (?width \<circ> fst) (enumerate 0 chunk)"
    using assms by (auto simp: Let_def byte_hex_def)
  also have "\<dots> = map ?width [0..<16]" using assms by (simp flip: map_map)
  finally have w: "map length (map (\<lambda>(i, byte). let hex = byte_hex byte in
       if (i + 1) mod 2 = 0 \<and> i \<noteq> length chunk - 1 then hex @ '' '' else hex) (enumerate 0 chunk))
     = map ?width [0..<16]" .
  have "sum_list (map ?width [0..<16]) = 39" by (simp add: upt_rec)
  then show ?thesis using assms unfolding hex_str_def length_join w by simp
qed

end
