(* ===== verification/Resolver_Tests.thy ===== *)
theory Resolver_Tests
  imports Config Logging
begin

section \<open>The unit tests of the resolver\<close>

text \<open>
  The unit tests of \<open>core/config_resolver.rs\<close> and \<open>core/config_resolver/guardrail.rs\<close> as definitions over the
  model, one per test and with its name; the lemmas \<open>..._passes\<close> show that they hold. The helper functions of the test modules
  are translated too. The three tests of the protobuf parser itself are left out, because the parser is a
  parameter. Numbers in error messages are not modelled (the model keeps the \<open>{}\<close> of the format string).
\<close>

subsection \<open>guardrail.rs\<close>

definition ProbeConfig_new :: ProbeConfig where
  "ProbeConfig_new =
     \<lparr>bpf_name = None, file_paths = [], method_signature = None, fully_qualified_class_name = None,
      method_name = None, fully_qualified_parameters = [], binder_transaction_filters = []\<rparr>"

definition Task_new :: Task where
  "Task_new =
     \<lparr>probe_configs = [], bpf_maps = [], target_process_name = None, duration_seconds = None,
      task_statsd_logging_config = None, target_process_selection = None, task_id = None\<rparr>"

definition setup_config :: "ProbeConfig list \<Rightarrow> UprobestatsConfig" where
  "setup_config probes = \<lparr>tasks = [Task_new\<lparr>probe_configs := probes\<rparr>]\<rparr>"

definition setup_probe_config :: "string \<Rightarrow> string \<Rightarrow> string list \<Rightarrow> ProbeConfig" where
  "setup_probe_config cls m params =
     ProbeConfig_new\<lparr>bpf_name := Some ''prog_some_bpf'', fully_qualified_class_name := Some cls,
       method_name := Some m, fully_qualified_parameters := params,
       method_signature := Some (''void '' @ cls @ ''.'' @ m @ ''('' @ join '', '' params @ '')'')\<rparr>"

definition everything_allowed_on_userdebug :: bool where
  "everything_allowed_on_userdebug =
     (let config = setup_config [setup_probe_config ''com.android.server.am.SomeClass'' ''doWork'' []] in
      is_allowed config False True = Ok True
      \<and> is_allowed config False False = Ok True)"

definition oom_adjuster_allowed :: bool where
  "oom_adjuster_allowed =
     (let config = setup_config
        [setup_probe_config ''com.android.server.am.OomAdjuster'' ''setUidTempAllowlistStateLSP'' [''int'', ''boolean''],
         setup_probe_config ''com.android.server.am.OomAdjuster$$ExternalSyntheticLambda0'' ''accept'' [''java.lang.String'']] in
      is_allowed config False False = Ok True
      \<and> is_allowed config True False = Ok True
      \<and> is_allowed config False True = Ok True
      \<and> is_allowed config True True = Ok True)"

definition permission_manager_allowed :: bool where
  "permission_manager_allowed =
     (let config = setup_config [setup_probe_config ''com.android.server.pm.permission.PermissionManagerService'' ''grantRuntimePermission'' []] in
      is_allowed config True False = Ok True
      \<and> is_allowed config True True = Ok True)"

definition a11y_service_connection_bpf_program_allowed :: bool where
  "a11y_service_connection_bpf_program_allowed =
     (let config = setup_config [(setup_probe_config ''com.android.server.am.DisallowedClass'' ''doWork'' [])
        \<lparr>bpf_name := Some PROG_BINDER_A11Y_SERVICE_CONNECTION\<rparr>] in
      is_allowed config True False = Ok True
      \<and> is_allowed config True True = Ok True)"

definition update_device_idle_temp_allowlist_allowed :: bool where
  "update_device_idle_temp_allowlist_allowed =
     (let config = setup_config [setup_probe_config ''com.android.server.am.ActivityManagerService$LocalService'' ''updateDeviceIdleTempAllowlist'' []] in
      get_full_method_name (hd (probe_configs (hd (tasks config)))) False =
        Ok ''com.android.server.am.ActivityManagerService$LocalService.updateDeviceIdleTempAllowlist()''
      \<and> is_allowed config False False = Ok True
      \<and> is_allowed config False True = Ok True
      \<and> is_allowed config True True = Ok True)"

definition oom_adjuster_with_suffix_disallowed :: bool where
  "oom_adjuster_with_suffix_disallowed =
     (let config = setup_config [setup_probe_config ''com.android.server.am.OomAdjusterWithSomeSuffix'' ''doWork'' []] in
      is_allowed config True False = Ok False
      \<and> is_allowed config True True = Ok False)"

definition disallowed_method_in_second_task_disallowed :: bool where
  "disallowed_method_in_second_task_disallowed =
     (let config = setup_config
        [setup_probe_config ''com.android.server.am.OomAdjusterWithSomeSuffix'' ''doWork'' [],
         setup_probe_config ''com.android.server.am.DisallowedClass'' ''doWork'' []] in
      is_allowed config True False = Ok False
      \<and> is_allowed config True True = Ok False)"

lemma everything_allowed_on_userdebug_passes: "everything_allowed_on_userdebug"
  by code_simp

lemma oom_adjuster_allowed_passes: "oom_adjuster_allowed"
  by code_simp

lemma permission_manager_allowed_passes: "permission_manager_allowed"
  by code_simp

lemma a11y_service_connection_bpf_program_allowed_passes: "a11y_service_connection_bpf_program_allowed"
  by code_simp

lemma update_device_idle_temp_allowlist_allowed_passes: "update_device_idle_temp_allowlist_allowed"
  by code_simp

lemma oom_adjuster_with_suffix_disallowed_passes: "oom_adjuster_with_suffix_disallowed"
  by code_simp

lemma disallowed_method_in_second_task_disallowed_passes: "disallowed_method_in_second_task_disallowed"
  by code_simp

subsection \<open>config_resolver.rs\<close>

definition make_task :: "int \<Rightarrow> Task" where
  "make_task dur = Task_new\<lparr>duration_seconds := Some (word_of_int dur)\<rparr>"

definition make_probe :: "string \<Rightarrow> string \<Rightarrow> string \<Rightarrow> ProbeConfig" where
  "make_probe prog cls m =
     ProbeConfig_new\<lparr>bpf_name := Some prog, fully_qualified_class_name := Some cls, method_name := Some m\<rparr>"

definition default_probe :: ProbeConfig where
  "default_probe = make_probe ''test.bpf.o'' ''com.example.Test'' ''testMethod''"

definition default_resolved_process :: ResolvedProcess where
  "default_resolved_process = \<lparr>rp_pid = 123, rp_uid = 456, rp_name = ''test_process''\<rparr>"

definition make_method :: "int \<times> bool option \<times> int option \<Rightarrow> MethodConfigProto" where
  "make_method = (\<lambda>(mid, fl, aid).
     \<lparr>mcp_method_id = Some (word_of_int mid),
      mcp_event_service_config = map_option (\<lambda>f. \<lparr>flush = Some f\<rparr>) fl,
      mcp_atom_config = map_option (\<lambda>i. \<lparr>acp_atom_id = Some (word_of_int i), acp_atom_field_positions = []\<rparr>) aid\<rparr>)"

definition make_filter :: "string option \<Rightarrow> (int \<times> bool option \<times> int option) list \<Rightarrow> BinderTransactionFilter" where
  "make_filter interface ms = \<lparr>interface_name = interface, method_configs = map make_method ms\<rparr>"

definition default_filter :: BinderTransactionFilter where
  "default_filter = make_filter (Some ''test.interface'') [(1, Some False, None)]"

definition err_contains :: "'a res \<Rightarrow> string \<Rightarrow> bool" where
  "err_contains r sub = (case r of Err (Anyhow m) \<Rightarrow> sublist sub m | _ \<Rightarrow> False)"

text \<open>The mock resolvers give one fixed reply.\<close>

definition mock_process :: "ResolvedProcess res \<Rightarrow> unit process_resolver" where
  "mock_process r = (\<lambda>_ _ _. lift_res r)"

definition mock_offsets :: "ExecutableMethodFileOffsets option res \<Rightarrow> unit offset_resolver" where
  "mock_offsets r = (\<lambda>_ _. lift_res r)"

definition found_offsets :: "ExecutableMethodFileOffsets option res" where
  "found_offsets = Ok (Some \<lparr>container_path = ''/path/to/file'', container_offset = 0, method_offset = 1234\<rparr>)"

definition resolve_task_simple :: "Task \<Rightarrow> ResolvedTask res" where
  "resolve_task_simple task = fst (resolve_single_task example_flags
     (mock_process (Ok default_resolved_process)) (mock_offsets (Ok None)) task 0 ((), []))"

definition resolve_probes_simple ::
  "ProbeConfig list \<Rightarrow> ExecutableMethodFileOffsets option res \<Rightarrow> ResolvedProbe list res" where
  "resolve_probes_simple probes offs =
     fst (resolve_probes example_flags (mock_offsets offs) default_resolved_process probes ((), []))"

definition filters_of :: "BinderTransactionFilter list \<Rightarrow> (string, InterfaceConfig) hashmap res" where
  "filters_of fs =
     resolve_binder_transaction_filters (ProbeConfig_new\<lparr>binder_transaction_filters := fs\<rparr>) BINDER_BPF_PROGRAM_NAME"

text \<open>The error of \<open>resolve_config\<close> for a configuration with these tasks; the parser gives the tasks back.\<close>

definition config_error_contains :: "Task list \<Rightarrow> string \<Rightarrow> bool" where
  "config_error_contains ts sub =
     (case fst (resolve_config example_flags (\<lambda>_. Some \<lparr>tasks = ts\<rparr>) [] False
        (mock_process (Ok default_resolved_process)) (mock_offsets (Ok None)) ((), [])) of
        Ok (Inl (OtherError (Anyhow m))) \<Rightarrow> sublist sub m
      | _ \<Rightarrow> False)"

lemma make_task_duration: "resolve_duration (make_task 10) = Ok (from_secs 10)"
  by (simp add: resolve_duration_Ok_iff make_task_def)

definition resolve_single_task_success :: bool where
  "resolve_single_task_success =
     (case resolve_task_simple (make_task 10) of
        Ok resolved_task \<Rightarrow>
          (let expected = default_resolved_process in
           rp_pid (resolved_process resolved_task) = rp_pid expected
           \<and> rp_uid (resolved_process resolved_task) = rp_uid expected
           \<and> rp_name (resolved_process resolved_task) = rp_name expected)
      | _ \<Rightarrow> False)"

definition resolve_single_task_no_tasks :: bool where
  "resolve_single_task_no_tasks =
     config_error_contains []
       ''Config must have exactly one task, got''"

definition resolve_single_task_no_duration :: bool where
  "resolve_single_task_no_duration =
     err_contains (resolve_task_simple Task_new) ''Task duration is required''"

definition resolve_single_task_process_resolver_error :: bool where
  "resolve_single_task_process_resolver_error =
     err_contains (fst (resolve_single_task example_flags (mock_process (Err (Anyhow ''process not found'')))
       (mock_offsets (Ok None)) (make_task 10) 0 ((), []))) ''process not found''"

definition resolve_single_task_multiple_tasks :: bool where
  "resolve_single_task_multiple_tasks =
     config_error_contains [make_task 10, make_task 20]
       ''Config must have exactly one task, got''"

definition resolve_single_task_zero_duration :: bool where
  "resolve_single_task_zero_duration =
     err_contains (resolve_task_simple (make_task 0)) ''must be greater than 0''"

definition resolve_probes_success :: bool where
  "resolve_probes_success =
     (case resolve_probes_simple [default_probe] found_offsets of
        Ok [p] \<Rightarrow> container_path (probe_offsets p) = ''/path/to/file'' \<and> method_offset (probe_offsets p) = 1234
      | _ \<Rightarrow> False)"

definition resolve_probes_offset_not_found :: bool where
  "resolve_probes_offset_not_found =
     err_contains (resolve_probes_simple [default_probe] (Ok None)) ''Failed to get offsets''"

definition resolve_probes_missing_bpf_name :: bool where
  "resolve_probes_missing_bpf_name =
     err_contains (resolve_probes_simple [default_probe\<lparr>bpf_name := None\<rparr>] (Ok None)) ''bpf_name is required''"

definition resolve_probes_missing_method_name :: bool where
  "resolve_probes_missing_method_name =
     err_contains (resolve_probes_simple [default_probe\<lparr>method_name := None\<rparr>] (Ok None)) ''method_name is required''"

definition resolve_probes_multiple_probes :: bool where
  "resolve_probes_multiple_probes =
     (case resolve_probes_simple [make_probe ''test1.bpf.o'' ''com.example.Test1'' ''testMethod1'',
          make_probe ''test2.bpf.o'' ''com.example.Test2'' ''testMethod2''] found_offsets of
        Ok ps \<Rightarrow> length ps = 2 | _ \<Rightarrow> False)"

definition resolve_probes_missing_class_name :: bool where
  "resolve_probes_missing_class_name =
     err_contains (resolve_probes_simple [default_probe\<lparr>fully_qualified_class_name := None\<rparr>] (Ok None))
       ''fully_qualified_class_name is required''"

definition resolve_probes_offset_resolver_error :: bool where
  "resolve_probes_offset_resolver_error =
     err_contains (resolve_probes_simple [default_probe] (Err (Anyhow ''resolver error''))) ''resolver error''"

definition resolve_binder_transaction_filters_success :: bool where
  "resolve_binder_transaction_filters_success =
     (case filters_of [make_filter (Some ''test.interface'') [(1, Some False, None), (2, Some True, None)]] of
        Ok result \<Rightarrow> length result = 1
          \<and> (case map_of result ''test.interface'' of
               None \<Rightarrow> False
             | Some ic \<Rightarrow> length (methods ic) = 2
                 \<and> map_option event_service_config (get_method ic 1) = Some (Some \<lparr>esc_mode = Buffer\<rparr>)
                 \<and> map_option event_service_config (get_method ic 2) = Some (Some \<lparr>esc_mode = Flush\<rparr>))
      | _ \<Rightarrow> False)"

definition resolve_binder_transaction_filters_atom_config_success :: bool where
  "resolve_binder_transaction_filters_atom_config_success =
     (case filters_of [make_filter (Some ''test.interface'') [(1, None, Some 100), (2, None, Some 200)]] of
        Ok result \<Rightarrow> length result = 1
          \<and> (case map_of result ''test.interface'' of
               None \<Rightarrow> False
             | Some ic \<Rightarrow> length (methods ic) = 2
                 \<and> map_option (map_option ac_atom_id \<circ> atom_config) (get_method ic 1) = Some (Some 100)
                 \<and> map_option (map_option ac_atom_id \<circ> atom_config) (get_method ic 2) = Some (Some 200))
      | _ \<Rightarrow> False)"

definition resolve_binder_transaction_filters_both_configs_success :: bool where
  "resolve_binder_transaction_filters_both_configs_success =
     (case filters_of [make_filter (Some ''test.interface'') [(1, Some True, Some 100)]] of
        Ok result \<Rightarrow> length result = 1
          \<and> (case map_of result ''test.interface'' of
               None \<Rightarrow> False
             | Some ic \<Rightarrow> length (methods ic) = 1
                 \<and> map_option event_service_config (get_method ic 1) = Some (Some \<lparr>esc_mode = Flush\<rparr>)
                 \<and> map_option (map_option ac_atom_id \<circ> atom_config) (get_method ic 1) = Some (Some 100))
      | _ \<Rightarrow> False)"

definition resolve_binder_transaction_filters_atom_config_invalid_id :: bool where
  "resolve_binder_transaction_filters_atom_config_invalid_id =
     err_contains (filters_of [\<lparr>interface_name = Some ''test.interface'', method_configs =
        [\<lparr>mcp_method_id = Some 1, mcp_event_service_config = None,
          mcp_atom_config = Some \<lparr>acp_atom_id = Some 0, acp_atom_field_positions = []\<rparr>\<rparr>]\<rparr>])
       ''atom_config.atom_id must be positive integer''"

definition resolve_binder_transaction_filters_negative_method_id :: bool where
  "resolve_binder_transaction_filters_negative_method_id =
     err_contains (filters_of [make_filter (Some ''test.interface'') [(- 1, Some False, None)]])
       ''binder_transaction_filter.method_config.method_id is required and must be a positive integer''"

definition resolve_binder_transaction_filters_missing_event_service_config :: bool where
  "resolve_binder_transaction_filters_missing_event_service_config =
     err_contains (filters_of [make_filter (Some ''test.interface'') [(1, None, None)]])
       ''either method_config.event_service_config, method_config.atom_config, or both, must be present''"

definition resolve_binder_transaction_filters_empty_filters_for_binder_bpf :: bool where
  "resolve_binder_transaction_filters_empty_filters_for_binder_bpf =
     err_contains (filters_of [])
       ''requires at least one binder_transaction_filter''"

definition resolve_binder_transaction_filters_with_filters_for_non_binder_bpf :: bool where
  "resolve_binder_transaction_filters_with_filters_for_non_binder_bpf =
     err_contains (resolve_binder_transaction_filters
       (ProbeConfig_new\<lparr>binder_transaction_filters := [default_filter]\<rparr>) ''other.bpf.o'')
       ''binder_transaction_filters is only supported for''"

definition resolve_binder_transaction_filters_missing_interface_name :: bool where
  "resolve_binder_transaction_filters_missing_interface_name =
     err_contains (filters_of [make_filter None [(1, Some False, None)]])
       ''binder_transaction_filter.interface_name is required''"

definition resolve_binder_transaction_filters_empty_interface_name :: bool where
  "resolve_binder_transaction_filters_empty_interface_name =
     err_contains (filters_of [make_filter (Some []) [(1, Some False, None)]])
       ''binder_transaction_filter.interface_name must be non-empty''"

definition resolve_binder_transaction_filters_duplicate_interface_names :: bool where
  "resolve_binder_transaction_filters_duplicate_interface_names =
     err_contains (filters_of [default_filter, default_filter])
       ''Duplicate interface_name''"

definition resolve_binder_transaction_filters_duplicate_method_ids :: bool where
  "resolve_binder_transaction_filters_duplicate_method_ids =
     err_contains (filters_of [make_filter (Some ''test.interface'') [(1, Some False, None), (1, Some False, None)]])
       ''Duplicate method_id''"

definition resolve_binder_transaction_filters_empty_method_ids :: bool where
  "resolve_binder_transaction_filters_empty_method_ids =
     err_contains (filters_of [make_filter (Some ''test.interface'') []])
       ''binder_transaction_filter.method_configs must be non-empty''"

definition prefix_bpf_test :: bool where
  "prefix_bpf_test =
     (prefix_bpf ''my_map'' = ''/sys/fs/bpf/uprobestats/my_map'')"

lemma resolve_single_task_success_passes: "resolve_single_task_success"
  by (simp add: resolve_single_task_success_def resolve_task_simple_def resolve_single_task_def make_task_duration
      mock_process_def resolve_probes_def) (simp add: make_task_def Task_new_def)

lemma resolve_single_task_no_tasks_passes: "resolve_single_task_no_tasks"
  by code_simp

lemma resolve_single_task_no_duration_passes: "resolve_single_task_no_duration"
  by code_simp

lemma resolve_single_task_process_resolver_error_passes: "resolve_single_task_process_resolver_error"
  by (simp add: resolve_single_task_process_resolver_error_def resolve_single_task_def make_task_duration
      mock_process_def err_contains_def) (simp add: make_task_def Task_new_def)

lemma resolve_single_task_multiple_tasks_passes: "resolve_single_task_multiple_tasks"
  by code_simp

lemma resolve_single_task_zero_duration_passes: "resolve_single_task_zero_duration"
  by code_simp

lemma resolve_probes_success_passes: "resolve_probes_success"
  by code_simp

lemma resolve_probes_offset_not_found_passes: "resolve_probes_offset_not_found"
  by code_simp

lemma resolve_probes_missing_bpf_name_passes: "resolve_probes_missing_bpf_name"
  by code_simp

lemma resolve_probes_missing_method_name_passes: "resolve_probes_missing_method_name"
  by code_simp

lemma resolve_probes_multiple_probes_passes: "resolve_probes_multiple_probes"
  by code_simp

lemma resolve_probes_missing_class_name_passes: "resolve_probes_missing_class_name"
  by code_simp

lemma resolve_probes_offset_resolver_error_passes: "resolve_probes_offset_resolver_error"
  by code_simp

lemma resolve_binder_transaction_filters_success_passes: "resolve_binder_transaction_filters_success"
  by code_simp

lemma resolve_binder_transaction_filters_atom_config_success_passes: "resolve_binder_transaction_filters_atom_config_success"
  by code_simp

lemma resolve_binder_transaction_filters_both_configs_success_passes: "resolve_binder_transaction_filters_both_configs_success"
  by code_simp

lemma resolve_binder_transaction_filters_atom_config_invalid_id_passes: "resolve_binder_transaction_filters_atom_config_invalid_id"
  by code_simp

lemma resolve_binder_transaction_filters_negative_method_id_passes: "resolve_binder_transaction_filters_negative_method_id"
  by code_simp

lemma resolve_binder_transaction_filters_missing_event_service_config_passes: "resolve_binder_transaction_filters_missing_event_service_config"
  by code_simp

lemma resolve_binder_transaction_filters_empty_filters_for_binder_bpf_passes: "resolve_binder_transaction_filters_empty_filters_for_binder_bpf"
  by code_simp

lemma resolve_binder_transaction_filters_with_filters_for_non_binder_bpf_passes: "resolve_binder_transaction_filters_with_filters_for_non_binder_bpf"
  by code_simp

lemma resolve_binder_transaction_filters_missing_interface_name_passes: "resolve_binder_transaction_filters_missing_interface_name"
  by code_simp

lemma resolve_binder_transaction_filters_empty_interface_name_passes: "resolve_binder_transaction_filters_empty_interface_name"
  by code_simp

lemma resolve_binder_transaction_filters_duplicate_interface_names_passes: "resolve_binder_transaction_filters_duplicate_interface_names"
  by code_simp

lemma resolve_binder_transaction_filters_duplicate_method_ids_passes: "resolve_binder_transaction_filters_duplicate_method_ids"
  by code_simp

lemma resolve_binder_transaction_filters_empty_method_ids_passes: "resolve_binder_transaction_filters_empty_method_ids"
  by code_simp

lemma prefix_bpf_test_passes: "prefix_bpf_test"
  by code_simp

end
