(* ===== verification/Atom_Writer.thy ===== *)
theory Atom_Writer
  imports World
begin

section \<open>Writing atoms\<close>

text \<open>
  The trait \<open>AtomWriter\<close> of \<open>core/atom.rs\<close> as a locale, with its two implementations:
  \<open>AStatsEventWriter\<close> (\<open>ffi/statsd/statssocket.rs\<close>) builds an event of \<open>libstatssocket\<close> field by
  field, and \<open>CodegenAtomWriter\<close> (\<open>android/atom.rs\<close>) calls the generated writers. The handlers
  are written against the trait and their lemmas against the locale.
\<close>

subsection \<open>statssocket.rs\<close>

text \<open>
  \<open>libstatssocket\<close> is outside the repository: \<open>stats_write\<close> is the code \<open>AStatsEvent_write\<close> returns,
  \<open>IS_UID\<close> the number of its UID annotation, and \<open>codegen_write\<close> tells whether a generated
  writer succeeds. An event handle is the calls made on it so far; \<open>AStatsEvent_obtain\<close> never
  returns null.
\<close>

record stats_env =
  stats_write :: "trace \<Rightarrow> u32 \<Rightarrow> stats_call list \<Rightarrow> int"
  IS_UID :: u8
  codegen_write :: "trace \<Rightarrow> CodegenCall \<Rightarrow> bool"

record AStatsEvent =
  event_atom_id :: u32
  event_calls :: "stats_call list"

definition AStatsEvent_new :: "u32 \<Rightarrow> ('h st, AStatsEvent) io" where
  "AStatsEvent_new atom_id =
     io_then (emit (StatsObtain atom_id)) (ret \<lparr>event_atom_id = atom_id, event_calls = []\<rparr>)"

definition event_call :: "stats_call \<Rightarrow> AStatsEvent \<Rightarrow> AStatsEvent" where
  "event_call c ev = ev\<lparr>event_calls := event_calls ev @ [c]\<rparr>"

definition write_bool :: "bool \<Rightarrow> AStatsEvent \<Rightarrow> AStatsEvent" where
  "write_bool v = event_call (WriteBool v)"

definition write_int32 :: "i32 \<Rightarrow> AStatsEvent \<Rightarrow> AStatsEvent" where
  "write_int32 v = event_call (WriteInt32 v)"

definition write_int64 :: "i64 \<Rightarrow> AStatsEvent \<Rightarrow> AStatsEvent" where
  "write_int64 v = event_call (WriteInt64 v)"

definition write_string :: "string \<Rightarrow> AStatsEvent \<Rightarrow> AStatsEvent res" where
  "write_string v ev = res_bind (c_string v) (\<lambda>c. Ok (event_call (WriteString c) ev))"

definition write_int32_slice :: "i32 list \<Rightarrow> AStatsEvent \<Rightarrow> AStatsEvent" where
  "write_int32_slice v = event_call (WriteInt32Array v)"

definition write_int64_slice :: "i64 list \<Rightarrow> AStatsEvent \<Rightarrow> AStatsEvent" where
  "write_int64_slice v = event_call (WriteInt64Array v)"

definition add_bool_annotation :: "u8 \<Rightarrow> bool \<Rightarrow> AStatsEvent \<Rightarrow> AStatsEvent" where
  "add_bool_annotation i v = event_call (AddBoolAnnotation i v)"

definition AStatsEvent_write :: "stats_env \<Rightarrow> AStatsEvent \<Rightarrow> ('h st, unit) io" where
  "AStatsEvent_write env ev =
     io_bind (ext_call (\<lambda>t. stats_write env t (event_atom_id ev) (event_calls ev))
                (StatsWrite (event_atom_id ev) (event_calls ev)))
       (\<lambda>r. if r < 0 then fail (Anyhow ''Failed to write event. Error code: {res}'') else ret ())"

definition AStatsEvent_drop :: "('h st, unit) io" where
  "AStatsEvent_drop = emit StatsRelease"

fun write_value :: "Value \<Rightarrow> AStatsEvent \<Rightarrow> AStatsEvent res" where
  "write_value (VBool v) ev = Ok (write_bool v ev)"
| "write_value (VInt32 v) ev = Ok (write_int32 v ev)"
| "write_value (VInt64 v) ev = Ok (write_int64 v ev)"
| "write_value (VString v) ev = write_string v ev"
| "write_value (VInt32Vec v) ev = Ok (write_int32_slice v ev)"
| "write_value (VInt64Vec v) ev = Ok (write_int64_slice v ev)"

fun write_annotations :: "u8 \<Rightarrow> FieldAnnotation list \<Rightarrow> AStatsEvent \<Rightarrow> AStatsEvent" where
  "write_annotations uid [] ev = ev"
| "write_annotations uid (IsUid v # as) ev = write_annotations uid as (add_bool_annotation uid v ev)"

fun write_fields :: "u8 \<Rightarrow> Field list \<Rightarrow> AStatsEvent \<Rightarrow> AStatsEvent res" where
  "write_fields uid [] ev = Ok ev"
| "write_fields uid (f # fs) ev =
     res_bind (write_value (fld_value f) ev) (\<lambda>ev.
       write_fields uid fs (write_annotations uid (fld_annotations f) ev))"

definition AStatsEventWriter_write :: "stats_env \<Rightarrow> UnstructuredAtom \<Rightarrow> ('h st, unit) io" where
  "AStatsEventWriter_write env atom =
     io_bind (AStatsEvent_new (ua_atom_id atom)) (\<lambda>ev.
       finally_do
         (io_bind (lift_res (write_fields (IS_UID env) (ua_fields atom) ev)) (AStatsEvent_write env))
         AStatsEvent_drop)"

subsection \<open>The codegen writer\<close>

fun codegen_call :: "CodegenAtom \<Rightarrow> CodegenCall" where
  "codegen_call (SetComponentEnabledSettingReported pkg cls new_state caller is_launcher) =
     set_component_enabled_setting_reported pkg cls new_state caller is_launcher"
| "codegen_call (DisabledLauncherActivityUidsReported calling_uid disabled_uid) =
     disabled_launcher_activity_uids_reported calling_uid disabled_uid"
| "codegen_call (BindServiceLockedWithBalFlagsReported pkg flgs caller action cpkg ccls) =
     bind_service_locked_with_bal_flags_reported pkg flgs caller action cpkg ccls"
| "codegen_call (BindServiceLockedWithBalFlagsUidsReported binder_uid bindee_uid) =
     bind_service_locked_with_bal_flags_uids_reported binder_uid bindee_uid"
| "codegen_call (AndroidGraphicsBitmapAllocated uid width height) =
     android_graphics_bitmap_allocated uid width height"
| "codegen_call (AndroidGraphicsBitmapScaled uid width height sw sh storage activity) =
     android_graphics_bitmap_scaled uid width height sw sh
       (convert_to_bitmap_scaled_pixel_storage_type_enum storage) activity"
| "codegen_call (AndroidGraphicsBitmapAllocationSnapshot uid width height storage sid ty activity) =
     android_graphics_bitmap_allocation_snapshot uid width height
       (convert_to_pixel_storage_type_enum storage) sid (convert_to_snapshot_type_enum ty) activity"

definition CodegenAtomWriter_write :: "stats_env \<Rightarrow> CodegenAtom \<Rightarrow> ('h st, unit) io" where
  "CodegenAtomWriter_write env atom =
     io_bind (ext_call (\<lambda>t. codegen_write env t (codegen_call atom))
                (CodegenStatsWrite (codegen_call atom)))
       (\<lambda>ok. if ok then ret () else fail (Anyhow ''StatsError''))"

subsection \<open>The trait\<close>

text \<open>
  What a client of \<open>AtomWriter::write\<close> may rely on: the call touches no Rust object but the
  writer, it returns (an error is an ordinary one), and statsd has been given the atom, as it sees
  it, exactly when the call succeeds.
\<close>

type_synonym ('h, 'a) writer = "'a \<Rightarrow> ('h st, unit) io"

locale atom_writer =
  fixes write_atom :: "('h, 'a) writer"
    and view :: "'a \<Rightarrow> 'w"
    and accepted :: "trace \<Rightarrow> 'w list"
  assumes write_self: "fst (snd (write_atom a s)) = fst s"
    and write_grows: "io_steps grows (write_atom a)"
    and write_returns: "fst (write_atom a s) = Ok () \<or> (\<exists>m. fst (write_atom a s) = Err (Anyhow m))"
    and write_Ok: "fst (write_atom a s) = Ok () \<Longrightarrow>
          accepted (snd (snd (write_atom a s))) = accepted (snd s) @ [view a]"
    and write_Err: "fst (write_atom a s) \<noteq> Ok () \<Longrightarrow>
          accepted (snd (snd (write_atom a s))) = accepted (snd s)"
begin

lemma write_cases:
  obtains (ok) t' where "write_atom a (h, t) = (Ok (), (h, t'))" "accepted t' = accepted t @ [view a]"
      "prefix t t'"
    | (err) m t' where "write_atom a (h, t) = (Err (Anyhow m), (h, t'))" "accepted t' = accepted t"
      "prefix t t'"
proof -
  obtain r h' t' where w: "write_atom a (h, t) = (r, (h', t'))" by (cases "write_atom a (h, t)") auto
  have "h' = h" using write_self [of a "(h, t)"] w by simp
  moreover have "prefix t t'"
    using write_grows w by (rule growsD)
  ultimately show thesis
    using ok err w write_returns [of a "(h, t)"] write_Ok [of a "(h, t)"] write_Err [of a "(h, t)"]
    by fastforce
qed

text \<open>Writing a list of atoms delivers an initial part of it, all of it on success.\<close>

lemma for_each_write:
  "\<exists>n t'. n \<le> length as \<and> accepted t' = accepted t @ map view (take n as)
      \<and> prefix t t'
      \<and> (for_each write_atom as (h, t) = (Ok (), (h, t')) \<and> n = length as
         \<or> (\<exists>m. for_each write_atom as (h, t) = (Err (Anyhow m), (h, t')) \<and> n < length as))"
proof (induction as arbitrary: t)
  case (Cons a as)
  show ?case
  proof (rule write_cases [of a h t])
    fix t1
    assume ok: "write_atom a (h, t) = (Ok (), (h, t1))" "accepted t1 = accepted t @ [view a]"
      "prefix t t1"
    obtain n t2 where n: "n \<le> length as" "accepted t2 = accepted t1 @ map view (take n as)"
      "prefix t1 t2" and o: "for_each write_atom as (h, t1) = (Ok (), (h, t2)) \<and> n = length as
         \<or> (\<exists>m. for_each write_atom as (h, t1) = (Err (Anyhow m), (h, t2)) \<and> n < length as)"
      using Cons.IH [of t1] by blast
    show ?thesis
    proof (intro exI [of _ "Suc n"] exI [of _ t2] conjI)
      show "prefix t t2" using ok(3) n(3) by (rule prefix_order.order_trans)
      show "for_each write_atom (a # as) (h, t) = (Ok (), (h, t2)) \<and> Suc n = length (a # as)
         \<or> (\<exists>m. for_each write_atom (a # as) (h, t) = (Err (Anyhow m), (h, t2)) \<and> Suc n < length (a # as))"
        using o ok(1) by (auto simp: io_bind_run)
    qed (use n ok in simp_all)
  next
    fix m t1
    assume "write_atom a (h, t) = (Err (Anyhow m), (h, t1))" "accepted t1 = accepted t" "prefix t t1"
    then show ?thesis
      by (intro exI [of _ 0] exI [of _ t1]) (auto simp: io_bind_run)
  qed
qed auto

end

subsection \<open>What reaches statsd through an event\<close>

text \<open>The wire form of a field list: a call per field, followed by a call per annotation.
  \<open>decode_calls\<close> reads it back, collecting the annotations of a field from the right.\<close>

fun value_call :: "Value \<Rightarrow> stats_call" where
  "value_call (VBool v) = WriteBool v"
| "value_call (VInt32 v) = WriteInt32 v"
| "value_call (VInt64 v) = WriteInt64 v"
| "value_call (VString v) = WriteString v"
| "value_call (VInt32Vec v) = WriteInt32Array v"
| "value_call (VInt64Vec v) = WriteInt64Array v"

fun annotation_call :: "u8 \<Rightarrow> FieldAnnotation \<Rightarrow> stats_call" where
  "annotation_call uid (IsUid v) = AddBoolAnnotation uid v"

definition field_calls :: "u8 \<Rightarrow> Field \<Rightarrow> stats_call list" where
  "field_calls uid f = value_call (fld_value f) # map (annotation_call uid) (fld_annotations f)"

definition encode_fields :: "u8 \<Rightarrow> Field list \<Rightarrow> stats_call list" where
  "encode_fields uid fs = concat (map (field_calls uid) fs)"

fun decode_calls :: "stats_call list \<Rightarrow> FieldAnnotation list \<times> Field list" where
  "decode_calls [] = ([], [])"
| "decode_calls (c # cs) =
     (case decode_calls cs of (as, fs) \<Rightarrow>
        (case c of
           AddBoolAnnotation _ v \<Rightarrow> (IsUid v # as, fs)
         | WriteBool v \<Rightarrow> ([], \<lparr>fld_value = VBool v, fld_annotations = as\<rparr> # fs)
         | WriteInt32 v \<Rightarrow> ([], \<lparr>fld_value = VInt32 v, fld_annotations = as\<rparr> # fs)
         | WriteInt64 v \<Rightarrow> ([], \<lparr>fld_value = VInt64 v, fld_annotations = as\<rparr> # fs)
         | WriteString v \<Rightarrow> ([], \<lparr>fld_value = VString v, fld_annotations = as\<rparr> # fs)
         | WriteInt32Array v \<Rightarrow> ([], \<lparr>fld_value = VInt32Vec v, fld_annotations = as\<rparr> # fs)
         | WriteInt64Array v \<Rightarrow> ([], \<lparr>fld_value = VInt64Vec v, fld_annotations = as\<rparr> # fs)))"

definition value_writable :: "Value \<Rightarrow> bool" where
  "value_writable v = (case v of VString s \<Rightarrow> NUL \<notin> set s | _ \<Rightarrow> True)"

definition atom_writable :: "UnstructuredAtom \<Rightarrow> bool" where
  "atom_writable a = list_all (\<lambda>f. value_writable (fld_value f)) (ua_fields a)"

lemmas event_defs = write_bool_def write_int32_def write_int64_def write_string_def
  write_int32_slice_def write_int64_slice_def add_bool_annotation_def event_call_def

lemma write_value_eq:
  "write_value v ev =
     (if value_writable v then Ok (ev\<lparr>event_calls := event_calls ev @ [value_call v]\<rparr>)
      else Err (Anyhow ''Failed to create CString''))"
  by (cases v) (simp_all add: event_defs value_writable_def c_string_def)

lemma write_annotations_eq:
  "write_annotations uid as ev =
     ev\<lparr>event_calls := event_calls ev @ map (annotation_call uid) as\<rparr>"
proof (induction as arbitrary: ev)
  case (Cons a as)
  then show ?case by (cases a) (simp add: event_defs)
qed simp

lemma write_fields_eq:
  "write_fields uid fs ev =
     (if list_all (\<lambda>f. value_writable (fld_value f)) fs
      then Ok (ev\<lparr>event_calls := event_calls ev @ encode_fields uid fs\<rparr>)
      else Err (Anyhow ''Failed to create CString''))"
  by (induction fs arbitrary: ev)
    (simp_all add: write_value_eq write_annotations_eq encode_fields_def field_calls_def)

lemma decode_annotations:
  "decode_calls (map (annotation_call uid) as @ cs) =
     (as @ fst (decode_calls cs), snd (decode_calls cs))"
proof (induction as)
  case (Cons a as)
  then show ?case by (cases a) (simp add: split_def)
qed simp

lemma decode_encode_fields: "decode_calls (encode_fields uid fs) = ([], fs)"
proof (induction fs)
  case (Cons f fs)
  then show ?case
    by (cases f; cases "fld_value f")
      (simp_all add: encode_fields_def field_calls_def decode_annotations)
qed (simp add: encode_fields_def)

lemma AStatsEventWriter_write_eq:
  "AStatsEventWriter_write env a (h, t) =
     (if atom_writable a then
        (let calls = encode_fields (IS_UID env) (ua_fields a);
             r = stats_write env (t @ [StatsObtain (ua_atom_id a)]) (ua_atom_id a) calls
         in (if r < 0 then Err (Anyhow ''Failed to write event. Error code: {res}'') else Ok (),
             (h, t @ [StatsObtain (ua_atom_id a), StatsWrite (ua_atom_id a) calls r, StatsRelease])))
      else (Err (Anyhow ''Failed to create CString''),
            (h, t @ [StatsObtain (ua_atom_id a), StatsRelease])))"
  by (simp add: AStatsEventWriter_write_def AStatsEvent_new_def AStatsEvent_write_def
      AStatsEvent_drop_def write_fields_eq atom_writable_def finally_do_def Let_def)

text \<open>
  What the library took: a write that did not fail, which is all that the daemon looks at. A return code of 0
  is a success for the daemon, with a warning that the atom may not be in use or that the process is rate limited;
  only after a positive code is the atom known to be on its way.
\<close>

definition accepted_atom :: "effect \<Rightarrow> UnstructuredAtom option" where
  "accepted_atom e =
     (case e of
        StatsWrite i cs r \<Rightarrow>
          if r < 0 then None else Some \<lparr>ua_atom_id = i, ua_fields = snd (decode_calls cs)\<rparr>
      | _ \<Rightarrow> None)"

definition sent_atom :: "effect \<Rightarrow> UnstructuredAtom option" where
  "sent_atom e =
     (case e of
        StatsWrite i cs r \<Rightarrow>
          if r > 0 then Some \<lparr>ua_atom_id = i, ua_fields = snd (decode_calls cs)\<rparr> else None
      | _ \<Rightarrow> None)"

definition accepted_call :: "effect \<Rightarrow> CodegenCall option" where
  "accepted_call e = (case e of CodegenStatsWrite c ok \<Rightarrow> if ok then Some c else None | _ \<Rightarrow> None)"

abbreviation accepted_atoms :: "trace \<Rightarrow> UnstructuredAtom list" where
  "accepted_atoms \<equiv> List.map_filter accepted_atom"

abbreviation accepted_calls :: "trace \<Rightarrow> CodegenCall list" where
  "accepted_calls \<equiv> List.map_filter accepted_call"

lemma AStatsEventWriter_write_accepted:
  "accepted_atoms (snd (snd (AStatsEventWriter_write env a (h, t)))) =
     accepted_atoms t @ (if fst (AStatsEventWriter_write env a (h, t)) = Ok () then [a] else [])"
  by (simp add: AStatsEventWriter_write_eq Let_def accepted_atom_def decode_encode_fields
      List.map_filter_simps)

interpretation stats: atom_writer "AStatsEventWriter_write env" "\<lambda>a. a" accepted_atoms
proof unfold_locales
  fix a s
  show "fst (snd (AStatsEventWriter_write env a s)) = fst s"
    and "fst (AStatsEventWriter_write env a s) = Ok ()
      \<or> (\<exists>m. fst (AStatsEventWriter_write env a s) = Err (Anyhow m))"
    by (cases s, simp add: AStatsEventWriter_write_eq Let_def)+
  show "fst (AStatsEventWriter_write env a s) = Ok () \<Longrightarrow>
      accepted_atoms (snd (snd (AStatsEventWriter_write env a s))) = accepted_atoms (snd s) @ [a]"
    and "fst (AStatsEventWriter_write env a s) \<noteq> Ok () \<Longrightarrow>
      accepted_atoms (snd (snd (AStatsEventWriter_write env a s))) = accepted_atoms (snd s)"
    using AStatsEventWriter_write_accepted [of env a "fst s" "snd s"] by simp_all
  show "io_steps grows (AStatsEventWriter_write env a)"
    by (simp add: io_steps_def grows_def AStatsEventWriter_write_eq Let_def)
qed

lemma CodegenAtomWriter_write_eq:
  "CodegenAtomWriter_write env a (h, t) =
     (let ok = codegen_write env t (codegen_call a)
      in (if ok then Ok () else Err (Anyhow ''StatsError''),
          (h, t @ [CodegenStatsWrite (codegen_call a) ok])))"
  by (simp add: CodegenAtomWriter_write_def)

interpretation codegen: atom_writer "CodegenAtomWriter_write env" codegen_call accepted_calls
proof unfold_locales
  fix a s
  show "fst (snd (CodegenAtomWriter_write env a s)) = fst s"
    and "fst (CodegenAtomWriter_write env a s) = Ok ()
      \<or> (\<exists>m. fst (CodegenAtomWriter_write env a s) = Err (Anyhow m))"
    and "fst (CodegenAtomWriter_write env a s) = Ok () \<Longrightarrow>
      accepted_calls (snd (snd (CodegenAtomWriter_write env a s)))
        = accepted_calls (snd s) @ [codegen_call a]"
    and "fst (CodegenAtomWriter_write env a s) \<noteq> Ok () \<Longrightarrow>
      accepted_calls (snd (snd (CodegenAtomWriter_write env a s))) = accepted_calls (snd s)"
    by (cases s, simp add: CodegenAtomWriter_write_eq Let_def accepted_call_def
        List.map_filter_simps split: if_splits)+
  show "io_steps grows (CodegenAtomWriter_write env a)"
    by (auto simp: CodegenAtomWriter_write_def intro!: grows_intros)
qed

text \<open>
  C13. Writing an unstructured atom: the library is handed exactly the atom, field for field and
  annotation for annotation, with one write, unless a string of the atom has an embedded NUL, when it is handed nothing. The call
  succeeds exactly if there is none and the library's return code is not negative. Success does not mean
  that statsd receives the atom: with the code 0 it is only accepted (the repository warns that the atom
  may not be in use or the process rate limited), and it counts as sent exactly when the code is positive.
  Whatever happens, the event that was obtained is released, once.
\<close>

theorem AStatsEventWriter_write_correct:
  "let (r, (h', t')) = AStatsEventWriter_write env a (h, t);
       calls = encode_fields (IS_UID env) (ua_fields a);
       code = stats_write env (t @ [StatsObtain (ua_atom_id a)]) (ua_atom_id a) calls in
     h' = h
     \<and> t' = t @ [StatsObtain (ua_atom_id a)]
         @ (if atom_writable a then [StatsWrite (ua_atom_id a) calls code] else []) @ [StatsRelease]
     \<and> snd (decode_calls calls) = ua_fields a
     \<and> accepted_atoms t' = accepted_atoms t @ (if r = Ok () then [a] else [])
     \<and> List.map_filter sent_atom t' = List.map_filter sent_atom t @ (if atom_writable a \<and> code > 0 then [a] else [])
     \<and> (r = Ok () \<longleftrightarrow> atom_writable a \<and> 0 \<le> code)"
  by (auto simp: AStatsEventWriter_write_eq Let_def accepted_atom_def sent_atom_def decode_encode_fields List.map_filter_simps)

end
