(* ===== verification/Handler.thy ===== *)
theory Handler
  imports Config Atom_Writer
begin

section \<open>Handlers\<close>

text \<open>
  The trait \<open>Handler\<close> of \<open>core/bpf_handler.rs\<close>: the dictionary of a handler type as a record, the
  contract the poll loop relies on as a locale, and the common shape of the handlers that turn one
  item into at most one unstructured atom. A handler object is the first component of the state;
  the writers, the bridge service and the device are passed as arguments.
\<close>

record ('h, 't) handler =
  MAP_PATH :: string
  PROG_PATH :: "string option"
  h_default :: 'h
  on_item :: "ResolvedTask \<Rightarrow> 't \<Rightarrow> ('h st, unit) io"
  on_finished :: "('h st, unit) io"

subsection \<open>Invariants of the handler object\<close>

definition keeps :: "('h \<Rightarrow> bool) \<Rightarrow> 'h st \<Rightarrow> 'h st \<Rightarrow> bool" where
  "keeps P s s' \<longleftrightarrow> (P (fst s) \<longrightarrow> P (fst s'))"

interpretation keep: io_preorder "keeps P"
  by unfold_locales (auto simp: keeps_def)

lemma keeps_prim:
  "io_steps (keeps P) (ext_call q e)" "io_steps (keeps P) (emit e')" "io_steps (keeps P) get_self"
  "(\<And>h. P h \<Longrightarrow> P (f h)) \<Longrightarrow> io_steps (keeps P) (modify_self f)"
  "io_steps (keeps P) (with_local l m)"
  by (auto simp: io_steps_def keeps_def ext_call_def emit_def get_self_def modify_self_def
      with_local_def split: prod.split)

lemmas keeps_intros = keep.steps_intros keeps_prim

lemma keeps_untouched: "(\<And>s. fst (snd (m s)) = fst s) \<Longrightarrow> io_steps (keeps P) m"
  by (simp add: io_steps_def keeps_def)

lemma keeps_bridge:
  "io_steps (keeps P) (bridge_service_get d b)" "io_steps (keeps P) (isLauncherActivity b p c m)"
  "io_steps (keeps P) (getUidForPackage b p)"
  "io_steps (keeps P) (packageHasEnabledAccessibilityService b p)"
  "io_steps (keeps P) (enqueueEvent b ev fl)"
  "io_steps (keeps P) (get_current_timestamp_millis clk)"
  by (auto simp: bridge_defs get_current_timestamp_millis_def intro!: keeps_intros
      split: res.split)

locale handler_contract =
  fixes hd :: "('h, 't) handler"
    and inv :: "'h \<Rightarrow> bool"
  assumes default_inv: "inv (h_default hd)"
    and on_item_keeps: "io_steps (keeps inv) (on_item hd task d)"
    and on_finished_keeps: "io_steps (keeps inv) (on_finished hd)"
    and on_item_grows: "io_steps grows (on_item hd task d)"
    and on_finished_grows: "io_steps grows (on_finished hd)"
begin

text \<open>The items of a poll, handled one after the other until one fails.\<close>

lemma on_items_keeps: "io_steps (keeps inv) (for_each (on_item hd task) ds)"
  by (intro keep.steps_for_each on_item_keeps)

lemma on_items_grows: "io_steps grows (for_each (on_item hd task) ds)"
  by (intro grow.steps_for_each on_item_grows)

end

subsection \<open>One item, at most one atom\<close>

definition when_logging ::
  "ResolvedTask \<Rightarrow> (StatsdLoggingConfig \<Rightarrow> i64 \<Rightarrow> ('s, unit) io) \<Rightarrow> ('s, unit) io" where
  "when_logging task k =
     (case statsd_logging_config task of
        None \<Rightarrow> ret ()
      | Some c \<Rightarrow>
          io_bind (lift_res (ok_or (slc_atom_id c)
            (Anyhow ''atom_id required if statsd_logging_config provided''))) (k c))"

text \<open>
  A handler of this shape refines a pure function \<open>atom_of\<close> from the task and the item to the atom
  to be logged, if any; the writer is called once or not at all.
\<close>

locale atom_handler = atom_writer write_atom view accepted
  for write_atom :: "('h, 'a) writer" and view :: "'a \<Rightarrow> 'w" and accepted :: "trace \<Rightarrow> 'w list" +
  fixes item :: "ResolvedTask \<Rightarrow> 't \<Rightarrow> ('h st, unit) io"
    and atom_of :: "ResolvedTask \<Rightarrow> 't \<Rightarrow> 'a option res"
  assumes item_eq: "item task d =
      io_bind (lift_res (atom_of task d)) (\<lambda>a. case a of None \<Rightarrow> ret () | Some a \<Rightarrow> write_atom a)"
begin

lemma item_self: "fst (snd (item task d s)) = fst s"
  by (cases "atom_of task d") (auto simp: item_eq write_self split: option.split)

lemma item_grows: "io_steps grows (item task d)"
  by (auto simp: item_eq intro!: grows_intros write_grows split: option.split)

text \<open>On success exactly the atom of the item was accepted; a failed item delivers nothing.\<close>

lemma item_accepted:
  "accepted (snd (snd (item task d s))) =
     accepted (snd s) @ (case atom_of task d of
         Ok (Some a) \<Rightarrow> if fst (item task d s) = Ok () then [view a] else []
       | _ \<Rightarrow> [])"
  by (cases "atom_of task d") (auto simp: item_eq write_Ok write_Err split: option.split)

lemma item_result:
  "case atom_of task d of
     Ok None \<Rightarrow> item task d s = (Ok (), s)
   | Ok (Some a) \<Rightarrow> item task d s = write_atom a s
   | Err e \<Rightarrow> item task d s = (Err e, s)
   | Panic p \<Rightarrow> item task d s = (Panic p, s)
   | NoFuel \<Rightarrow> item task d s = (NoFuel, s)"
  by (cases "atom_of task d") (auto simp: item_eq split: option.split)

lemma item_Ok_cases:
  assumes "fst (item task d s) = Ok ()"
  shows "atom_of task d = Ok None \<and> accepted (snd (snd (item task d s))) = accepted (snd s)
    \<or> (\<exists>a. atom_of task d = Ok (Some a)
         \<and> accepted (snd (snd (item task d s))) = accepted (snd s) @ [view a])"
  using assms item_accepted [of task d s] item_result [of task d s]
  by (cases "atom_of task d") (auto split: option.splits)

end

text \<open>The pure counterpart of \<^const>\<open>when_logging\<close>.\<close>

definition logged_atom ::
  "ResolvedTask \<Rightarrow> (StatsdLoggingConfig \<Rightarrow> i64 \<Rightarrow> 'a res) \<Rightarrow> 'a option res" where
  "logged_atom task k =
     (case statsd_logging_config task of
        None \<Rightarrow> Ok None
      | Some c \<Rightarrow>
          (case slc_atom_id c of
             None \<Rightarrow> Err (Anyhow ''atom_id required if statsd_logging_config provided'')
           | Some i \<Rightarrow> res_bind (k c i) (\<lambda>a. Ok (Some a))))"

lemma when_logging_atom:
  "when_logging task (\<lambda>c i. io_bind (lift_res (k c i)) write_atom) =
     io_bind (lift_res (logged_atom task k)) (\<lambda>a. case a of None \<Rightarrow> ret () | Some a \<Rightarrow> write_atom a)"
  by (auto simp: when_logging_def logged_atom_def ok_or_def split: option.split)
    (rule ext, case_tac "k x2 x2a", simp_all add: io_bind_def)

lemma logged_atom_Ok_iff:
  "logged_atom task k = Ok a \<longleftrightarrow>
     statsd_logging_config task = None \<and> a = None
     \<or> (\<exists>c i b. statsd_logging_config task = Some c \<and> slc_atom_id c = Some i \<and> k c i = Ok b
          \<and> a = Some b)"
  by (auto simp: logged_atom_def res_Ok_iffs split: option.splits)

text \<open>\<open>Vec\<close> and array indexing.\<close>

definition index :: "'a list \<Rightarrow> nat \<Rightarrow> 'a res" where
  "index xs i = (if i < length xs then Ok (xs ! i) else Panic ''index out of bounds'')"

lemma index_Ok_iff: "index xs i = Ok x \<longleftrightarrow> i < length xs \<and> x = xs ! i"
  by (auto simp: index_def)

subsection \<open>What leaves the daemon\<close>

text \<open>The three sinks of a handler: unstructured atoms, generated atoms, and events for the bridge
  service. Each call a handler makes adds to one of them, or to none.\<close>

definition enqueued_event :: "effect \<Rightarrow> (AidlEvent \<times> bool) option" where
  "enqueued_event e =
     (case e of BridgeEnqueueEvent ev fl ok \<Rightarrow> if ok then Some (ev, fl) else None | _ \<Rightarrow> None)"

abbreviation enqueued_events :: "trace \<Rightarrow> (AidlEvent \<times> bool) list" where
  "enqueued_events \<equiv> List.map_filter enqueued_event"

definition quiet :: "trace \<Rightarrow> trace \<Rightarrow> bool" where
  "quiet t t' \<longleftrightarrow> accepted_atoms t' = accepted_atoms t \<and> accepted_calls t' = accepted_calls t
     \<and> enqueued_events t' = enqueued_events t"

lemmas sink_defs = accepted_atom_def accepted_call_def enqueued_event_def List.map_filter_simps

lemma stats_write_Ok:
  "AStatsEventWriter_write env a (h, t) = (Ok (), (h', t')) \<Longrightarrow>
     h' = h \<and> accepted_atoms t' = accepted_atoms t @ [a] \<and> accepted_calls t' = accepted_calls t
     \<and> enqueued_events t' = enqueued_events t"
  by (auto simp: AStatsEventWriter_write_eq Let_def sink_defs decode_encode_fields split: if_splits)

lemma codegen_write_Ok:
  "CodegenAtomWriter_write env c (h, t) = (Ok (), (h', t')) \<Longrightarrow>
     h' = h \<and> accepted_calls t' = accepted_calls t @ [codegen_call c]
     \<and> accepted_atoms t' = accepted_atoms t \<and> enqueued_events t' = enqueued_events t"
  by (auto simp: CodegenAtomWriter_write_eq Let_def sink_defs split: if_splits)

lemma bridge_Ok:
  "bridge_service_get d b (h, t) = (Ok u, (h', t')) \<Longrightarrow> h' = h \<and> quiet t t'"
  "isLauncherActivity b p c m (h, t) = (Ok r, (h', t')) \<Longrightarrow>
     h' = h \<and> quiet t t' \<and> is_launcher_activity b t p c m = Some r"
  "getUidForPackage b p (h, t) = (Ok uid, (h', t')) \<Longrightarrow>
     h' = h \<and> quiet t t' \<and> get_uid_for_package b t p = Some uid"
  "packageHasEnabledAccessibilityService b p (h, t) = (Ok r, (h', t')) \<Longrightarrow>
     h' = h \<and> quiet t t' \<and> package_has_enabled_a11y_service b t p = Some r"
  "enqueueEvent b ev fl (h, t) = (Ok u', (h', t')) \<Longrightarrow>
     h' = h \<and> enqueued_events t' = enqueued_events t @ [(ev, fl)]
     \<and> accepted_atoms t' = accepted_atoms t \<and> accepted_calls t' = accepted_calls t"
  by (auto simp: bridge_defs quiet_def sink_defs ok_or_Ok_iff split: if_splits)

lemma clock_Ok:
  "get_current_timestamp_millis clk (h, t) = (Ok ms, (h', t')) \<Longrightarrow> h' = h \<and> quiet t t'"
  by (auto simp: get_current_timestamp_millis_def quiet_def sink_defs split: if_splits res.splits)

subsection \<open>A concrete environment\<close>

definition example_env :: stats_env where
  "example_env = \<lparr>stats_write = \<lambda>_ _ _. 1, IS_UID = 1, codegen_write = \<lambda>_ _. True\<rparr>"

definition example_device :: "string \<Rightarrow> device" where
  "example_device build_type =
     \<lparr>api_level = 37,
      read_property = \<lambda>p. if p = ''ro.build.type'' then Some build_type else None\<rparr>"

definition example_clock :: clock where
  "example_clock = \<lparr>instant_now = length, system_time_now = \<lambda>t. 5000000, rng_gen = \<lambda>_. 42\<rparr>"

definition example_bridge :: bridge where
  "example_bridge =
     \<lparr>bridge_interface = True, is_launcher_activity = \<lambda>_ _ _ _. Some True,
      get_uid_for_package = \<lambda>_ p. Some (if p = ''com.android.shell'' then 2000 else 10001),
      package_has_enabled_a11y_service = \<lambda>_ _. Some True, enqueue_event_ok = \<lambda>_ _ _. True\<rparr>"

lemma example_timestamp:
  "get_current_timestamp_millis example_clock (h, t) = (Ok 5, (h, t @ [SystemTimeNow]))"
  by (simp add: get_current_timestamp_millis_def example_clock_def as_millis_def try_into_signed_def)

lemma example_writers:
  "atom_writable a \<Longrightarrow> fst (AStatsEventWriter_write example_env a (h, t)) = Ok ()"
  "CodegenAtomWriter_write example_env c (h, t) =
     (Ok (), (h, t @ [CodegenStatsWrite (codegen_call c) True]))"
  by (simp_all add: AStatsEventWriter_write_eq CodegenAtomWriter_write_eq example_env_def Let_def)

lemma example_bridge_calls:
  "bridge_service_get (example_device bt) example_bridge (h, t) = (Ok (), (h, t @ [BridgeGet]))"
  "isLauncherActivity example_bridge p c m (h, t) =
     (Ok True, (h, t @ [BridgeIsLauncherActivity p c m]))"
  "getUidForPackage example_bridge p (h, t) =
     (Ok (if p = ''com.android.shell'' then 2000 else 10001), (h, t @ [BridgeGetUidForPackage p]))"
  "packageHasEnabledAccessibilityService example_bridge p (h, t) =
     (Ok True, (h, t @ [BridgeHasEnabledA11y p]))"
  "enqueueEvent example_bridge ev fl (h, t) = (Ok (), (h, t @ [BridgeEnqueueEvent ev fl True]))"
  by (simp_all add: bridge_defs example_bridge_def example_device_def is_at_least_cinnamon_bun_def)

end
