(* ===== verification/Generic_Instrumentation.thy ===== *)
theory Generic_Instrumentation
  imports Handler
begin

section \<open>Generic instrumentation\<close>

text \<open>
  \<open>core/bpf_handler/generic_instrumentation.rs\<close>: a timestamp per call, or the argument registers
  of a call, logged as the atom that the task configures. The items are the C structs of
  \<open>uprobestats_bpf_structs.h\<close>; \<open>regs\<close> is an array of ten.
\<close>

record CallTimestamp =
  ct_event :: u32
  timestampNs :: c_ulong

record CallResult =
  cr_pc :: c_ulong
  regs :: "c_ulong list"

definition JAVA_ARGUMENT_REGISTER_OFFSET :: int where
  "JAVA_ARGUMENT_REGISTER_OFFSET = 2"

definition CallTimestamp_on_item ::
  "('h, UnstructuredAtom) writer \<Rightarrow> ResolvedTask \<Rightarrow> CallTimestamp \<Rightarrow> ('h st, unit) io" where
  "CallTimestamp_on_item write_atom task data =
     when_logging task (\<lambda>config atom_id.
       io_bind (lift_res (try_into_unsigned (sint atom_id))) (\<lambda>atom_id.
         write_atom \<lparr>ua_atom_id = atom_id,
           ua_fields = [Field_new (VInt32 (ct_event data)), Field_new (VInt64 (timestampNs data))]\<rparr>))"

text \<open>The loop over the configured argument positions; \<open>i32\<close> addition panics on overflow.\<close>

definition register_value :: "CallResult \<Rightarrow> i32 \<Rightarrow> i64 res" where
  "register_value data position =
     (let sum = JAVA_ARGUMENT_REGISTER_OFFSET + sint position in
      if sum \<ge> 2 ^ 31 then Panic ''attempt to add with overflow''
      else res_bind (try_into_unsigned sum) (\<lambda>register_index :: u64.
             index (regs data) (unat register_index)))"

fun register_fields :: "CallResult \<Rightarrow> i32 list \<Rightarrow> Field list res" where
  "register_fields data [] = Ok []"
| "register_fields data (p # ps) =
     res_bind (register_value data p) (\<lambda>raw_value.
     res_bind (register_fields data ps) (\<lambda>fields. Ok (Field_new (VInt64 raw_value) # fields)))"

definition CallResult_on_item ::
  "('h, UnstructuredAtom) writer \<Rightarrow> ResolvedTask \<Rightarrow> CallResult \<Rightarrow> ('h st, unit) io" where
  "CallResult_on_item write_atom task data =
     when_logging task (\<lambda>config atom_id.
       io_bind (lift_res (register_fields data (primitive_argument_positions config))) (\<lambda>fields.
       io_bind (lift_res (try_into_unsigned (sint atom_id))) (\<lambda>atom_id.
         write_atom \<lparr>ua_atom_id = atom_id, ua_fields = fields\<rparr>)))"

definition CallTimestampHandler :: "('h, UnstructuredAtom) writer \<Rightarrow> 'h \<Rightarrow> ('h, CallTimestamp) handler" where
  "CallTimestampHandler write_atom dflt =
     \<lparr>MAP_PATH = ''/sys/fs/bpf/uprobestats/map_GenericInstrumentation_call_timestamp_buf'',
      PROG_PATH = Some ''/sys/fs/bpf/uprobestats/prog_GenericInstrumentation_uprobe_call_timestamp'',
      h_default = dflt, on_item = CallTimestamp_on_item write_atom, on_finished = ret ()\<rparr>"

definition CallResultHandler :: "('h, UnstructuredAtom) writer \<Rightarrow> 'h \<Rightarrow> ('h, CallResult) handler" where
  "CallResultHandler write_atom dflt =
     \<lparr>MAP_PATH = ''/sys/fs/bpf/uprobestats/map_GenericInstrumentation_call_detail_buf'',
      PROG_PATH = Some ''/sys/fs/bpf/uprobestats/prog_GenericInstrumentation_uprobe_call_detail'',
      h_default = dflt, on_item = CallResult_on_item write_atom, on_finished = ret ()\<rparr>"

subsection \<open>The atoms they log\<close>

definition call_timestamp_atom :: "ResolvedTask \<Rightarrow> CallTimestamp \<Rightarrow> UnstructuredAtom option res" where
  "call_timestamp_atom task data =
     logged_atom task (\<lambda>config atom_id.
       res_bind (try_into_unsigned (sint atom_id)) (\<lambda>i.
         Ok \<lparr>ua_atom_id = i, ua_fields =
              [Field_new (VInt32 (ct_event data)), Field_new (VInt64 (timestampNs data))]\<rparr>))"

definition call_result_atom :: "ResolvedTask \<Rightarrow> CallResult \<Rightarrow> UnstructuredAtom option res" where
  "call_result_atom task data =
     logged_atom task (\<lambda>config atom_id.
       res_bind (register_fields data (primitive_argument_positions config)) (\<lambda>fields.
       res_bind (try_into_unsigned (sint atom_id)) (\<lambda>i.
         Ok \<lparr>ua_atom_id = i, ua_fields = fields\<rparr>)))"

lemma bind_lift_res:
  "io_bind (lift_res (res_bind r f)) k = io_bind (lift_res r) (\<lambda>x. io_bind (lift_res (f x)) k)"
  by (cases r) simp_all

interpretation call_timestamp: atom_handler "AStatsEventWriter_write env" "\<lambda>a. a" accepted_atoms
    "CallTimestamp_on_item (AStatsEventWriter_write env)" call_timestamp_atom
  by unfold_locales
    (simp add: CallTimestamp_on_item_def call_timestamp_atom_def bind_lift_res
      flip: when_logging_atom)

interpretation call_result: atom_handler "AStatsEventWriter_write env" "\<lambda>a. a" accepted_atoms
    "CallResult_on_item (AStatsEventWriter_write env)" call_result_atom
  by unfold_locales
    (simp add: CallResult_on_item_def call_result_atom_def bind_lift_res
      flip: when_logging_atom)

interpretation call_timestamp_contract:
    handler_contract "CallTimestampHandler (AStatsEventWriter_write env) dflt" "\<lambda>_. True"
  by unfold_locales
    (simp_all add: CallTimestampHandler_def call_timestamp.item_grows keeps_untouched
      call_timestamp.item_self grow.steps_pure)

interpretation call_result_contract:
    handler_contract "CallResultHandler (AStatsEventWriter_write env) dflt" "\<lambda>_. True"
  by unfold_locales
    (simp_all add: CallResultHandler_def call_result.item_grows keeps_untouched
      call_result.item_self grow.steps_pure)

subsection \<open>Registers and their bounds\<close>

lemma register_value_eq:
  assumes "length (regs data) = 10"
  shows "register_value data p =
     (if sint p < - 2 then Err (Anyhow ''out of range integral type conversion attempted'')
      else if sint p \<le> 7 then Ok (regs data ! nat (sint p + 2))
      else if sint p < 2 ^ 31 - 2 then Panic ''index out of bounds''
      else Panic ''attempt to add with overflow'')"
proof (cases "sint p < - 2 \<or> sint p \<ge> 2 ^ 31 - 2")
  case True
  then show ?thesis
    by (auto simp: register_value_def JAVA_ARGUMENT_REGISTER_OFFSET_def try_into_unsigned_def)
next
  case False
  then obtain w :: u64 where w: "try_into_unsigned (2 + sint p) = Ok w"
    by (auto simp: try_into_unsigned_def)
  then have "uint w = 2 + sint p" by (simp add: try_into_unsigned_Ok_iff)
  then have "unat w = nat (sint p + 2)" by (metis add.commute nat_uint_eq)
  then show ?thesis using False assms w
    by (auto simp: register_value_def JAVA_ARGUMENT_REGISTER_OFFSET_def index_def)
qed

lemma register_fields_in_range:
  assumes "length (regs data) = 10" and "list_all (\<lambda>p. - 2 \<le> sint p \<and> sint p \<le> 7) ps"
  shows "register_fields data ps =
           Ok (map (\<lambda>p. Field_new (VInt64 (regs data ! nat (sint p + 2)))) ps)"
  using assms(2) by (induction ps) (auto simp: register_value_eq [OF assms(1)])

lemma register_fields_out_of_range:
  assumes "length (regs data) = 10" and "list_all (\<lambda>p. - 2 \<le> sint p \<and> sint p \<le> 7) ps"
    and "sint p > 7"
  shows "\<exists>m. register_fields data (ps @ p # qs) = Panic m"
  using assms(2,3) by (induction ps) (auto simp: register_value_eq [OF assms(1)])

text \<open>
  The register handler on a well-configured task: when the atom id is a \<open>u32\<close> and every
  argument position lies between -2 and 7, the handler hands the writer exactly one atom, with the
  registers two above each position in the configured order, and returns what the writer returns;
  statsd has been given that atom if the outcome is \<open>Ok\<close>, and nothing otherwise.
\<close>

theorem CallResult_on_item_logs:
  assumes "length (regs data) = 10"
    and "statsd_logging_config task = Some c" and "slc_atom_id c = Some i"
    and "0 \<le> sint i" and "sint i < 2 ^ 32"
    and "list_all (\<lambda>p. - 2 \<le> sint p \<and> sint p \<le> 7) (primitive_argument_positions c)"
    and "atom = \<lparr>ua_atom_id = word_of_int (sint i),
           ua_fields = map (\<lambda>p. Field_new (VInt64 (regs data ! nat (sint p + 2))))
             (primitive_argument_positions c)\<rparr>"
  shows "CallResult_on_item (AStatsEventWriter_write env) task data s = AStatsEventWriter_write env atom s
    \<and> accepted_atoms (snd (snd (CallResult_on_item (AStatsEventWriter_write env) task data s)))
        = accepted_atoms (snd s)
          @ (if fst (CallResult_on_item (AStatsEventWriter_write env) task data s) = Ok ()
             then [atom] else [])"
proof -
  have "try_into_unsigned (sint i) = Ok (word_of_int (sint i) :: u32)"
    using assms(4,5) by (simp add: try_into_unsigned_def)
  then have "call_result_atom task data = Ok (Some atom)"
    using assms(1-3,6,7)
    by (simp add: call_result_atom_def logged_atom_def register_fields_in_range)
  then show ?thesis
    using call_result.item_accepted [of env task data s] call_result.item_result [of env task data s]
    by simp
qed

text \<open>
  A configured argument position above 7 makes the daemon panic on the first item, whatever
  the item holds: the index into the ten registers is out of bounds. Nothing checks the positions
  when the configuration is resolved.
\<close>

theorem CallResult_on_item_panics:
  assumes "length (regs data) = 10"
    and "statsd_logging_config task = Some c" and "slc_atom_id c = Some i"
    and "primitive_argument_positions c = ps @ p # qs"
    and "list_all (\<lambda>p. - 2 \<le> sint p \<and> sint p \<le> 7) ps" and "sint p > 7"
  shows "\<exists>m. CallResult_on_item write_atom task data s = (Panic m, s)"
proof -
  obtain m where "register_fields data (ps @ p # qs) = Panic m"
    using register_fields_out_of_range [OF assms(1,5,6)] by blast
  then show ?thesis using assms(2-4) by (simp add: CallResult_on_item_def when_logging_def)
qed

definition example_logging :: "i32 list \<Rightarrow> ResolvedTask" where
  "example_logging ps = example_resolved\<lparr>statsd_logging_config :=
     Some \<lparr>slc_atom_id = Some 915, primitive_argument_positions = ps\<rparr>\<rparr>"

definition example_call :: CallResult where
  "example_call = \<lparr>cr_pc = 0, regs = [10, 11, 12, 13, 14, 15, 16, 17, 18, 19]\<rparr>"

theorem CallResult_on_item_logs_witness:
  "CallResult_on_item (AStatsEventWriter_write example_env) (example_logging [1, 0])
       example_call ((), [])
     = AStatsEventWriter_write example_env
         \<lparr>ua_atom_id = 915, ua_fields = [Field_new (VInt64 13), Field_new (VInt64 12)]\<rparr> ((), [])"
  using CallResult_on_item_logs [of example_call "example_logging [1, 0]"
      "\<lparr>slc_atom_id = Some 915, primitive_argument_positions = [1, 0]\<rparr>" 915
      "\<lparr>ua_atom_id = 915, ua_fields = [Field_new (VInt64 13), Field_new (VInt64 12)]\<rparr>"
      example_env "((), [])"]
  by (simp add: example_call_def example_logging_def)

theorem CallResult_on_item_panics_witness:
  "\<exists>m. CallResult_on_item (AStatsEventWriter_write example_env) (example_logging [1, 8])
         example_call ((), []) = (Panic m, ((), []))"
  by (rule CallResult_on_item_panics [where ps = "[1]" and qs = "[]" and p = 8 and i = 915
        and c = "\<lparr>slc_atom_id = Some 915, primitive_argument_positions = [1, 8]\<rparr>"])
    (simp_all add: example_call_def example_logging_def)

end
