(* ===== verification/Process_Management.thy ===== *)
theory Process_Management
  imports Generic_Instrumentation
begin

section \<open>Process management and the ART test\<close>

text \<open>
  \<open>core/bpf_handler/process_management.rs\<close> and \<open>core/bpf_handler/art_test.rs\<close>: four more handlers
  that turn one item into at most one unstructured atom. The hash of \<open>DefaultHasher\<close>, whose
  algorithm the standard library leaves unspecified, is a parameter, and so is whether debug
  logging is on, because the \<open>debug!\<close> of \<open>AotHandler\<close> contains a \<open>?\<close> that is only evaluated then.
\<close>

record SetUidTempAllowlistStateRecord =
  su_uid :: u64
  onAllowlist :: bool

record UpdateDeviceIdleTempAllowlistRecord =
  ud_method_identifier :: c_ulong
  changing_uid :: i32
  adding :: bool
  duration_ms :: c_long
  ud_type :: i32
  reason_code :: i32
  reason :: "char list"
  ud_calling_uid :: i32

record StartActivityAsUser =
  sa_method_identifier :: c_ulong
  sa_calling_package :: "char list"
  request_code :: i32
  start_flags :: i32
  sa_user_id :: i32
  validate_incoming_user :: i32
  x0 :: c_ulong

definition SetUidTempAllowlistStateRecord_on_item ::
  "('h, UnstructuredAtom) writer \<Rightarrow> ResolvedTask \<Rightarrow> SetUidTempAllowlistStateRecord
     \<Rightarrow> ('h st, unit) io" where
  "SetUidTempAllowlistStateRecord_on_item write_atom task data =
     when_logging task (\<lambda>config atom_id.
       io_bind (lift_res (try_into_unsigned (sint atom_id))) (\<lambda>atom_id.
       io_bind (lift_res (try_into_signed (uint (su_uid data)))) (\<lambda>uid.
         write_atom \<lparr>ua_atom_id = atom_id,
           ua_fields = [Field_new (VInt32 uid), Field_new (VBool (onAllowlist data))]\<rparr>)))"

definition UpdateDeviceIdleTempAllowlistRecord_on_item ::
  "('h, UnstructuredAtom) writer \<Rightarrow> ResolvedTask \<Rightarrow> UpdateDeviceIdleTempAllowlistRecord
     \<Rightarrow> ('h st, unit) io" where
  "UpdateDeviceIdleTempAllowlistRecord_on_item write_atom task data =
     when_logging task (\<lambda>config atom_id.
       io_bind (lift_res (try_into_unsigned (sint atom_id))) (\<lambda>atom_id.
       io_bind (lift_res (bytes_as_str (reason data))) (\<lambda>rsn.
         write_atom \<lparr>ua_atom_id = atom_id,
           ua_fields =
             [Field_new (VInt32 (changing_uid data)),
              Field_new (VBool (adding data)),
              Field_new (VInt64 (duration_ms data)),
              Field_new (VInt32 (ud_type data)),
              Field_new (VInt32 (reason_code data)),
              Field_new (VString rsn),
              Field_new (VInt32 (ud_calling_uid data))]\<rparr>)))"

subsection \<open>art_test.rs\<close>

definition string_to_i64_hash :: "(string \<Rightarrow> u64) \<Rightarrow> string \<Rightarrow> i64" where
  "string_to_i64_hash default_hasher s = default_hasher s"

text \<open>The check both handlers make of the first probe's method, with its three panics.\<close>

definition api_method_identifier :: "ResolvedTask \<Rightarrow> u64 res" where
  "api_method_identifier task =
     res_bind (index (resolved_probes task) 0) (\<lambda>probe. method_identifier (probe_offsets probe))"

definition assert_method :: "u64 \<Rightarrow> u64 \<Rightarrow> unit res" where
  "assert_method api ident =
     (if api = ident then Ok () else Panic ''assertion left == right failed'')"

definition unwrap :: "'a res \<Rightarrow> 'a res" where
  "unwrap r = (case r of Err e \<Rightarrow> Panic ''called Result::unwrap() on an Err value'' | _ \<Rightarrow> r)"

definition Jit_on_item ::
  "(string \<Rightarrow> u64) \<Rightarrow> ('h, UnstructuredAtom) writer \<Rightarrow> ResolvedTask \<Rightarrow> StartActivityAsUser
     \<Rightarrow> ('h st, unit) io" where
  "Jit_on_item default_hasher write_atom task data =
     io_bind (lift_res (bytes_as_str (sa_calling_package data))) (\<lambda>calling_package.
     io_bind (lift_res (api_method_identifier task)) (\<lambda>api.
     io_bind (lift_res (assert_method api (sa_method_identifier data))) (\<lambda>_.
     when_logging task (\<lambda>config atom_id.
       io_bind (lift_res (unwrap (try_into_unsigned (sint atom_id)))) (\<lambda>atom_id.
         write_atom \<lparr>ua_atom_id = atom_id,
           ua_fields =
             [Field_new (VInt64 (scast (validate_incoming_user data))),
              Field_new (VInt64 (scast (sa_user_id data))),
              Field_new (VInt64 (string_to_i64_hash default_hasher calling_package))]\<rparr>)))))"

definition Aot_on_item ::
  "bool \<Rightarrow> (string \<Rightarrow> u64) \<Rightarrow> ('h, UnstructuredAtom) writer \<Rightarrow> ResolvedTask
     \<Rightarrow> UpdateDeviceIdleTempAllowlistRecord \<Rightarrow> ('h st, unit) io" where
  "Aot_on_item debug_enabled default_hasher write_atom task data =
     io_bind (lift_res (api_method_identifier task)) (\<lambda>api.
     io_bind (lift_res (if debug_enabled then bytes_as_str (reason data) else Ok [])) (\<lambda>_.
     io_bind (lift_res (assert_method api (ud_method_identifier data))) (\<lambda>_.
     when_logging task (\<lambda>config atom_id.
       io_bind (lift_res (bytes_as_str (reason data))) (\<lambda>rsn.
       io_bind (lift_res (try_into_unsigned (sint atom_id))) (\<lambda>atom_id.
         write_atom \<lparr>ua_atom_id = atom_id,
           ua_fields =
             [Field_new (VInt64 (if adding data then 1 else 0)),
              Field_new (VInt64 (scast (reason_code data))),
              Field_new (VInt64 (string_to_i64_hash default_hasher rsn))]\<rparr>))))))"

subsection \<open>The handler dictionaries\<close>

definition SetUidTempAllowlistStateRecordHandler where
  "SetUidTempAllowlistStateRecordHandler write_atom dflt =
     \<lparr>MAP_PATH = ''/sys/fs/bpf/uprobestats/map_ProcessManagement_output_buf'', PROG_PATH = None,
      h_default = dflt, on_item = SetUidTempAllowlistStateRecord_on_item write_atom,
      on_finished = ret ()\<rparr>"

definition UpdateDeviceIdleTempAllowlistRecordHandler where
  "UpdateDeviceIdleTempAllowlistRecordHandler write_atom dflt =
     \<lparr>MAP_PATH =
        ''/sys/fs/bpf/uprobestats/map_ProcessManagement_update_device_idle_temp_allowlist_records'',
      PROG_PATH = None, h_default = dflt,
      on_item = UpdateDeviceIdleTempAllowlistRecord_on_item write_atom, on_finished = ret ()\<rparr>"

definition JitHandler where
  "JitHandler default_hasher write_atom dflt =
     \<lparr>MAP_PATH = ''/sys/fs/bpf/uprobestats/map_ArtTest_output_buf_jit'', PROG_PATH = None,
      h_default = dflt, on_item = Jit_on_item default_hasher write_atom, on_finished = ret ()\<rparr>"

definition AotHandler where
  "AotHandler debug_enabled default_hasher write_atom dflt =
     \<lparr>MAP_PATH = ''/sys/fs/bpf/uprobestats/map_ArtTest_output_buf_aot'', PROG_PATH = None,
      h_default = dflt, on_item = Aot_on_item debug_enabled default_hasher write_atom,
      on_finished = ret ()\<rparr>"

subsection \<open>The atoms they log\<close>

definition set_uid_atom :: "ResolvedTask \<Rightarrow> SetUidTempAllowlistStateRecord \<Rightarrow> UnstructuredAtom option res" where
  "set_uid_atom task data =
     logged_atom task (\<lambda>config atom_id.
       res_bind (try_into_unsigned (sint atom_id)) (\<lambda>i.
       res_bind (try_into_signed (uint (su_uid data))) (\<lambda>uid.
         Ok \<lparr>ua_atom_id = i,
             ua_fields = [Field_new (VInt32 uid), Field_new (VBool (onAllowlist data))]\<rparr>)))"

definition update_idle_atom ::
  "ResolvedTask \<Rightarrow> UpdateDeviceIdleTempAllowlistRecord \<Rightarrow> UnstructuredAtom option res" where
  "update_idle_atom task data =
     logged_atom task (\<lambda>config atom_id.
       res_bind (try_into_unsigned (sint atom_id)) (\<lambda>i.
       res_bind (bytes_as_str (reason data)) (\<lambda>rsn.
         Ok \<lparr>ua_atom_id = i,
             ua_fields = map Field_new
               [VInt32 (changing_uid data), VBool (adding data), VInt64 (duration_ms data),
                VInt32 (ud_type data), VInt32 (reason_code data), VString rsn,
                VInt32 (ud_calling_uid data)]\<rparr>)))"

definition jit_atom ::
  "(string \<Rightarrow> u64) \<Rightarrow> ResolvedTask \<Rightarrow> StartActivityAsUser \<Rightarrow> UnstructuredAtom option res" where
  "jit_atom default_hasher task data =
     res_bind (bytes_as_str (sa_calling_package data)) (\<lambda>pkg.
     res_bind (api_method_identifier task) (\<lambda>api.
     res_bind (assert_method api (sa_method_identifier data)) (\<lambda>_.
     logged_atom task (\<lambda>config atom_id.
       res_bind (unwrap (try_into_unsigned (sint atom_id))) (\<lambda>i.
         Ok \<lparr>ua_atom_id = i,
             ua_fields = map (Field_new \<circ> VInt64)
               [scast (validate_incoming_user data), scast (sa_user_id data),
                default_hasher pkg]\<rparr>)))))"

definition aot_atom ::
  "bool \<Rightarrow> (string \<Rightarrow> u64) \<Rightarrow> ResolvedTask \<Rightarrow> UpdateDeviceIdleTempAllowlistRecord
     \<Rightarrow> UnstructuredAtom option res" where
  "aot_atom debug_enabled default_hasher task data =
     res_bind (api_method_identifier task) (\<lambda>api.
     res_bind (if debug_enabled then bytes_as_str (reason data) else Ok []) (\<lambda>_.
     res_bind (assert_method api (ud_method_identifier data)) (\<lambda>_.
     logged_atom task (\<lambda>config atom_id.
       res_bind (bytes_as_str (reason data)) (\<lambda>rsn.
       res_bind (try_into_unsigned (sint atom_id)) (\<lambda>i.
         Ok \<lparr>ua_atom_id = i,
             ua_fields = map (Field_new \<circ> VInt64)
               [of_bool (adding data), scast (reason_code data), default_hasher rsn]\<rparr>))))))"

lemmas atom_refinement = bind_lift_res string_to_i64_hash_def when_logging_atom [symmetric]

interpretation set_uid: atom_handler "AStatsEventWriter_write env" "\<lambda>a. a" accepted_atoms
    "SetUidTempAllowlistStateRecord_on_item (AStatsEventWriter_write env)" set_uid_atom
  by unfold_locales
    (simp add: SetUidTempAllowlistStateRecord_on_item_def set_uid_atom_def atom_refinement)

interpretation update_idle: atom_handler "AStatsEventWriter_write env" "\<lambda>a. a" accepted_atoms
    "UpdateDeviceIdleTempAllowlistRecord_on_item (AStatsEventWriter_write env)" update_idle_atom
  by unfold_locales
    (simp add: UpdateDeviceIdleTempAllowlistRecord_on_item_def update_idle_atom_def atom_refinement)

interpretation jit: atom_handler "AStatsEventWriter_write env" "\<lambda>a. a" accepted_atoms
    "Jit_on_item hash (AStatsEventWriter_write env)" "jit_atom hash"
  by unfold_locales (simp add: Jit_on_item_def jit_atom_def atom_refinement)

interpretation aot: atom_handler "AStatsEventWriter_write env" "\<lambda>a. a" accepted_atoms
    "Aot_on_item dbg hash (AStatsEventWriter_write env)" "aot_atom dbg hash"
  by unfold_locales (simp add: Aot_on_item_def aot_atom_def atom_refinement of_bool_def)

lemmas plain_contract = keeps_untouched grow.steps_pure

interpretation set_uid_contract:
    handler_contract "SetUidTempAllowlistStateRecordHandler (AStatsEventWriter_write env) dflt" "\<lambda>_. True"
  by unfold_locales (simp_all add: SetUidTempAllowlistStateRecordHandler_def set_uid.item_grows
      set_uid.item_self plain_contract)

interpretation update_idle_contract:
    handler_contract "UpdateDeviceIdleTempAllowlistRecordHandler (AStatsEventWriter_write env) dflt"
      "\<lambda>_. True"
  by unfold_locales (simp_all add: UpdateDeviceIdleTempAllowlistRecordHandler_def
      update_idle.item_grows update_idle.item_self plain_contract)

interpretation jit_contract:
    handler_contract "JitHandler hash (AStatsEventWriter_write env) dflt" "\<lambda>_. True"
  by unfold_locales (simp_all add: JitHandler_def jit.item_grows jit.item_self plain_contract)

interpretation aot_contract:
    handler_contract "AotHandler dbg hash (AStatsEventWriter_write env) dflt" "\<lambda>_. True"
  by unfold_locales (simp_all add: AotHandler_def aot.item_grows aot.item_self plain_contract)

subsection \<open>What success means\<close>

text \<open>
  When the handler of allowlist updates returns \<open>Ok\<close>, either the task logs nothing and statsd
  received nothing, or statsd was given one atom with the configured id: the seven values of the
  record in order, among them the reason as the text before its first NUL, which is valid UTF-8.
\<close>

theorem UpdateDeviceIdle_on_item_Ok:
  assumes "UpdateDeviceIdleTempAllowlistRecord_on_item (AStatsEventWriter_write env) task data s
             = (Ok (), s')"
  shows "statsd_logging_config task = None \<and> accepted_atoms (snd s') = accepted_atoms (snd s)
    \<or> (\<exists>c i w rsn rest. statsd_logging_config task = Some c \<and> slc_atom_id c = Some i
         \<and> uint (w :: u32) = sint i
         \<and> reason data = rsn @ NUL # rest \<and> NUL \<notin> set rsn \<and> valid_utf8 rsn
         \<and> accepted_atoms (snd s') = accepted_atoms (snd s) @
             [\<lparr>ua_atom_id = w, ua_fields = map Field_new
                [VInt32 (changing_uid data), VBool (adding data), VInt64 (duration_ms data),
                 VInt32 (ud_type data), VInt32 (reason_code data), VString rsn,
                 VInt32 (ud_calling_uid data)]\<rparr>])"
  using update_idle.item_Ok_cases [of env task data s] assms
  by (auto simp: update_idle_atom_def logged_atom_Ok_iff res_Ok_iffs try_into_unsigned_Ok_iff
      bytes_as_str_Ok_iff) blast+

text \<open>
  The ART test handlers insist on the probed method: if the identifier in the item differs
  from the one of the task's first probe, the JIT handler never succeeds and nothing is written;
  with a valid package name and a first probe whose offsets do not overflow, it panics.
\<close>

theorem Jit_on_item_mismatch:
  assumes "resolved_probes task = p # ps" and "method_identifier (probe_offsets p) = Ok api"
    and "api \<noteq> sa_method_identifier data"
  shows "Jit_on_item hash write_atom task data s =
     (case bytes_as_str (sa_calling_package data) of
        Ok _ \<Rightarrow> (Panic ''assertion left == right failed'', s)
      | Err e \<Rightarrow> (Err e, s) | Panic m \<Rightarrow> (Panic m, s) | NoFuel \<Rightarrow> (NoFuel, s))"
  using assms
  by (cases "bytes_as_str (sa_calling_package data)")
    (simp_all add: Jit_on_item_def api_method_identifier_def index_def assert_method_def)

definition example_update :: UpdateDeviceIdleTempAllowlistRecord where
  "example_update =
     \<lparr>ud_method_identifier = 1, changing_uid = 10050, adding = True, duration_ms = 5000,
      ud_type = 0, reason_code = 300, reason = ''alarm'' @ [NUL, NUL], ud_calling_uid = 1000\<rparr>"

theorem UpdateDeviceIdle_on_item_Ok_witness:
  "\<exists>s'. UpdateDeviceIdleTempAllowlistRecord_on_item (AStatsEventWriter_write example_env)
           (example_logging []) example_update ((), []) = (Ok (), s')
     \<and> accepted_atoms (snd s') \<noteq> []"
proof -
  let ?m = "UpdateDeviceIdleTempAllowlistRecord_on_item (AStatsEventWriter_write example_env)
      (example_logging []) example_update ((), [])"
  have "bytes_as_str (reason example_update) = Ok ''alarm''" by code_simp
  then have "fst ?m = Ok ()"
    by (simp add: UpdateDeviceIdleTempAllowlistRecord_on_item_def when_logging_def
        example_logging_def try_into_unsigned_def AStatsEventWriter_write_eq Let_def
        example_env_def atom_writable_def value_writable_def Field_new_def)
  then obtain s' where r: "?m = (Ok (), s')" by (cases ?m) simp
  have "statsd_logging_config (example_logging []) \<noteq> None" by (simp add: example_logging_def)
  then have "accepted_atoms (snd s') \<noteq> []" using UpdateDeviceIdle_on_item_Ok [OF r] by force
  with r show ?thesis by blast
qed

theorem Jit_on_item_mismatch_witness:
  "Jit_on_item (\<lambda>_. 0) (AStatsEventWriter_write example_env) example_resolved
     \<lparr>sa_method_identifier = 1, sa_calling_package = ''com.app'' @ [NUL], request_code = 0,
      start_flags = 0, sa_user_id = 0, validate_incoming_user = 0, x0 = 0\<rparr> ((), [])
     = (Panic ''assertion left == right failed'', ((), []))"
proof -
  have b: "bytes_as_str (''com.app'' @ [NUL]) = Ok ''com.app''" by code_simp
  have m: "method_identifier example_offsets = Ok 4160" by code_simp
  obtain p where p: "resolved_probes example_resolved = [p]" "probe_offsets p = example_offsets"
    by (simp add: example_resolved_def)
  have "Jit_on_item (\<lambda>_. 0) (AStatsEventWriter_write example_env) example_resolved d s =
      (case bytes_as_str (sa_calling_package d) of
         Ok _ \<Rightarrow> (Panic ''assertion left == right failed'', s)
       | Err e \<Rightarrow> (Err e, s) | Panic m \<Rightarrow> (Panic m, s) | NoFuel \<Rightarrow> (NoFuel, s))"
    if "4160 \<noteq> sa_method_identifier d" for d and s :: "unit st"
    by (rule Jit_on_item_mismatch [OF p(1) m [folded p(2)] that])
  then show ?thesis using b by simp
qed

end
