(* ===== verification/Bitmap_Allocation.thy ===== *)
theory Bitmap_Allocation
  imports Handler
begin

section \<open>Bitmap allocation\<close>

text \<open>
  \<open>core/bpf_handler/bitmap_allocation.rs\<close>: the version 0 handler reports every allocation; the
  version 1 handler also keeps a ledger of the live bitmaps and their total size, remembers the
  bitmaps that were live at the peak, and reports two snapshots when polling ends.
\<close>

record BitmapEvent =
  be_type :: u32
  be_width :: u32
  be_height :: u32
  be_scaled_width :: u32
  be_scaled_height :: u32
  be_pixel_storage_type :: u32
  bitmap_size :: u32
  native_ptr :: u64
  be_activity_name :: "char list"

definition K_BITMAP_EVENT_TYPE_ALLOCATION :: u32 where "K_BITMAP_EVENT_TYPE_ALLOCATION = 0"
definition K_BITMAP_EVENT_TYPE_DEALLOCATION :: u32 where "K_BITMAP_EVENT_TYPE_DEALLOCATION = 1"
definition K_BITMAP_EVENT_TYPE_ACTIVITY_START :: u32 where "K_BITMAP_EVENT_TYPE_ACTIVITY_START = 2"
definition K_BITMAP_EVENT_TYPE_BITMAP_SCALED :: u32 where "K_BITMAP_EVENT_TYPE_BITMAP_SCALED = 3"

definition BitmapV0_on_item ::
  "('h, CodegenAtom) writer \<Rightarrow> ResolvedTask \<Rightarrow> BitmapEvent \<Rightarrow> ('h st, unit) io" where
  "BitmapV0_on_item write_atom task data =
     io_bind (lift_res (try_into_signed (uint (be_width data)))) (\<lambda>width.
     io_bind (lift_res (try_into_signed (uint (be_height data)))) (\<lambda>height.
     write_atom (AndroidGraphicsBitmapAllocated (rp_uid (resolved_process task)) width height)))"

record BitmapMetadata =
  bm_uid :: i32
  bm_width :: i32
  bm_height :: i32
  bm_pixel_storage_type :: i32
  bm_activity_name :: string

record BitmapAllocationHandlerV1 =
  bitmaps :: "(u64, BitmapMetadata) hashmap"
  max_total_bitmap_size :: i64
  current_total_bitmap_size :: i64
  bitmap_snapshot_at_max_size :: "BitmapMetadata list"
  activity_name :: string

definition BitmapV1_default :: BitmapAllocationHandlerV1 where
  "BitmapV1_default = \<lparr>bitmaps = [], max_total_bitmap_size = 0, current_total_bitmap_size = 0,
     bitmap_snapshot_at_max_size = [], activity_name = []\<rparr>"

definition checked_i64 :: "string \<Rightarrow> int \<Rightarrow> i64 res" where
  "checked_i64 msg v = (if - (2 ^ 63) \<le> v \<and> v < 2 ^ 63 then Ok (word_of_int v) else Panic msg)"

text \<open>The four kinds of events of \<open>on_item\<close>, each as its \<open>match\<close> arm.\<close>

definition on_allocation ::
  "(BitmapAllocationHandlerV1, CodegenAtom) writer \<Rightarrow> ResolvedTask \<Rightarrow> BitmapEvent
     \<Rightarrow> (BitmapAllocationHandlerV1 st, unit) io" where
  "on_allocation write_atom task data =
     io_bind (lift_res (try_into_signed (uint (be_width data)))) (\<lambda>width.
     io_bind (lift_res (try_into_signed (uint (be_height data)))) (\<lambda>height.
     io_bind (lift_res (try_into_signed (uint (be_pixel_storage_type data)))) (\<lambda>storage.
     io_bind get_self (\<lambda>self.
     let metadata = \<lparr>bm_uid = rp_uid (resolved_process task), bm_width = width,
           bm_height = height, bm_pixel_storage_type = storage,
           bm_activity_name = activity_name self\<rparr> in
     io_then (write_atom (AndroidGraphicsBitmapAllocated (bm_uid metadata) (bm_width metadata)
           (bm_height metadata)))
     (io_then (modify_self (\<lambda>self.
           self\<lparr>bitmaps := snd (hm_insert (native_ptr data) metadata (bitmaps self))\<rparr>))
     (io_bind (lift_res (try_into_signed (uint (bitmap_size data)))) (\<lambda>size :: i64.
     io_bind get_self (\<lambda>self.
     io_bind (lift_res (checked_i64 ''attempt to add with overflow''
           (sint (current_total_bitmap_size self) + sint size))) (\<lambda>total.
     io_then (modify_self (\<lambda>self. self\<lparr>current_total_bitmap_size := total\<rparr>))
     (modify_self (\<lambda>self.
        if sint (current_total_bitmap_size self) > sint (max_total_bitmap_size self)
        then self\<lparr>max_total_bitmap_size := current_total_bitmap_size self,
                  bitmap_snapshot_at_max_size := map snd (bitmaps self)\<rparr>
        else self)))))))))))"

definition on_deallocation ::
  "BitmapEvent \<Rightarrow> (BitmapAllocationHandlerV1 st, unit) io" where
  "on_deallocation data =
     io_then (modify_self (\<lambda>self. self\<lparr>bitmaps := AList.delete (native_ptr data) (bitmaps self)\<rparr>))
     (io_bind (lift_res (try_into_signed (uint (bitmap_size data)))) (\<lambda>size :: i64.
     io_bind get_self (\<lambda>self.
     io_bind (lift_res (checked_i64 ''attempt to subtract with overflow''
           (sint (current_total_bitmap_size self) - sint size))) (\<lambda>total.
     modify_self (\<lambda>self. self\<lparr>current_total_bitmap_size := total\<rparr>)))))"

definition on_activity_start ::
  "BitmapEvent \<Rightarrow> (BitmapAllocationHandlerV1 st, unit) io" where
  "on_activity_start data =
     io_bind (lift_res (bytes_as_str (be_activity_name data))) (\<lambda>name.
     modify_self (\<lambda>self. self\<lparr>activity_name := name\<rparr>))"

definition on_scaled ::
  "(BitmapAllocationHandlerV1, CodegenAtom) writer \<Rightarrow> ResolvedTask \<Rightarrow> BitmapEvent
     \<Rightarrow> (BitmapAllocationHandlerV1 st, unit) io" where
  "on_scaled write_atom task data =
     io_bind (lift_res (try_into_signed (uint (be_width data)))) (\<lambda>width.
     io_bind (lift_res (try_into_signed (uint (be_height data)))) (\<lambda>height.
     io_bind (lift_res (try_into_signed (uint (be_scaled_width data)))) (\<lambda>scaled_width.
     io_bind (lift_res (try_into_signed (uint (be_scaled_height data)))) (\<lambda>scaled_height.
     io_bind (lift_res (try_into_signed (uint (be_pixel_storage_type data)))) (\<lambda>storage.
     io_bind get_self (\<lambda>self.
     write_atom (AndroidGraphicsBitmapScaled (rp_uid (resolved_process task)) width height
       scaled_width scaled_height storage (activity_name self))))))))"

definition BitmapV1_on_item ::
  "(BitmapAllocationHandlerV1, CodegenAtom) writer \<Rightarrow> ResolvedTask \<Rightarrow> BitmapEvent
     \<Rightarrow> (BitmapAllocationHandlerV1 st, unit) io" where
  "BitmapV1_on_item write_atom task data =
     (if be_type data = K_BITMAP_EVENT_TYPE_ALLOCATION then on_allocation write_atom task data
      else if be_type data = K_BITMAP_EVENT_TYPE_DEALLOCATION then on_deallocation data
      else if be_type data = K_BITMAP_EVENT_TYPE_ACTIVITY_START then on_activity_start data
      else if be_type data = K_BITMAP_EVENT_TYPE_BITMAP_SCALED then on_scaled write_atom task data
      else ret ())"

definition snapshot_atom :: "i64 \<Rightarrow> i32 \<Rightarrow> BitmapMetadata \<Rightarrow> CodegenAtom" where
  "snapshot_atom snapshot_id snapshot_type metadata =
     AndroidGraphicsBitmapAllocationSnapshot (bm_uid metadata) (bm_width metadata)
       (bm_height metadata) (bm_pixel_storage_type metadata) snapshot_id snapshot_type
       (bm_activity_name metadata)"

definition BitmapV1_on_finished ::
  "clock \<Rightarrow> (BitmapAllocationHandlerV1, CodegenAtom) writer
     \<Rightarrow> (BitmapAllocationHandlerV1 st, unit) io" where
  "BitmapV1_on_finished clk write_atom =
     io_bind get_self (\<lambda>self.
     io_bind (ext_call (rng_gen clk) (\<lambda>_. RandomI64)) (\<lambda>snapshot_id.
     io_then (for_each (\<lambda>m. write_atom (snapshot_atom snapshot_id 1 m))
       (bitmap_snapshot_at_max_size self))
     (io_bind (ext_call (rng_gen clk) (\<lambda>_. RandomI64)) (\<lambda>snapshot_id.
       for_each (\<lambda>m. write_atom (snapshot_atom snapshot_id 2 m)) (map snd (bitmaps self))))))"

definition BitmapAllocationHandlerV0_dict where
  "BitmapAllocationHandlerV0_dict write_atom dflt =
     \<lparr>MAP_PATH = ''/sys/fs/bpf/uprobestats/map_BitmapAllocation_output'', PROG_PATH = None,
      h_default = dflt, on_item = BitmapV0_on_item write_atom, on_finished = ret ()\<rparr>"

definition BitmapAllocationHandlerV1_dict where
  "BitmapAllocationHandlerV1_dict clk write_atom =
     \<lparr>MAP_PATH = ''/sys/fs/bpf/uprobestats/map_BitmapAllocation_output'', PROG_PATH = None,
      h_default = BitmapV1_default, on_item = BitmapV1_on_item write_atom,
      on_finished = BitmapV1_on_finished clk write_atom\<rparr>"

subsection \<open>The ledger invariant\<close>

definition bitmap_inv :: "BitmapAllocationHandlerV1 \<Rightarrow> bool" where
  "bitmap_inv h \<longleftrightarrow>
     hm_wf (bitmaps h) \<and> 0 \<le> sint (max_total_bitmap_size h)
     \<and> (sint (max_total_bitmap_size h) = 0 \<longrightarrow> bitmap_snapshot_at_max_size h = [])"

lemmas bitmap_item_defs = BitmapV1_on_item_def on_allocation_def on_deallocation_def
  on_activity_start_def on_scaled_def Let_def

interpretation bitmap_v0: handler_contract
    "BitmapAllocationHandlerV0_dict (CodegenAtomWriter_write env) dflt" "\<lambda>_. True"
  by unfold_locales
    (auto simp: BitmapAllocationHandlerV0_dict_def BitmapV0_on_item_def keeps_untouched
      codegen.write_self intro!: grows_intros keeps_intros codegen.write_grows)

interpretation bitmap_v1: handler_contract
    "BitmapAllocationHandlerV1_dict clk (CodegenAtomWriter_write env)" bitmap_inv
proof unfold_locales
  let ?d = "BitmapAllocationHandlerV1_dict clk (CodegenAtomWriter_write env)"
  show "bitmap_inv (h_default ?d)"
    by (simp add: BitmapAllocationHandlerV1_dict_def BitmapV1_default_def bitmap_inv_def hm_wf_def)
  have w: "io_steps (keeps bitmap_inv) (CodegenAtomWriter_write env a)" for a
    by (simp add: keeps_untouched codegen.write_self)
  show "io_steps (keeps bitmap_inv) (on_item ?d task data)" for task data
    unfolding BitmapAllocationHandlerV1_dict_def handler.simps bitmap_item_defs
    by (auto simp: bitmap_inv_def hm_wf_def distinct_delete intro!: keeps_intros w
        dest: hm_insert_wf [unfolded hm_wf_def])
  show "io_steps (keeps bitmap_inv) (on_finished ?d)"
    by (auto simp: BitmapAllocationHandlerV1_dict_def BitmapV1_on_finished_def
        intro!: keeps_intros w)
  show "io_steps grows (on_item ?d task data)" for task data
    unfolding BitmapAllocationHandlerV1_dict_def handler.simps bitmap_item_defs
    by (auto intro!: grows_intros codegen.write_grows)
  show "io_steps grows (on_finished ?d)"
    by (auto simp: BitmapAllocationHandlerV1_dict_def BitmapV1_on_finished_def
        intro!: grows_intros codegen.write_grows)
qed

lemma sint_checked_i64 [simp]:
  "checked_i64 msg v = Ok w \<Longrightarrow> sint w = v"
  by (auto simp: checked_i64_def sint_of_int_in_range split: if_splits)

lemma try_u32_i64: "try_into_signed (uint (n :: u32)) = Ok (ucast n :: i64)"
proof -
  have "- (2 ^ 63) \<le> uint n" by (rule order_trans [of _ 0]) simp_all
  then show ?thesis using uint_lt2p [of n] unfolding try_into_signed_def by simp
qed

lemma sint_u32_i64: "sint (ucast (n :: u32) :: i64) = uint n"
  using try_u32_i64 [of n] by (simp only: try_into_signed_Ok_iff)

text \<open>The pure effect of one event on the ledger, when the event is handled successfully.\<close>

definition ledger_step :: "i32 \<Rightarrow> BitmapEvent \<Rightarrow> BitmapAllocationHandlerV1 \<Rightarrow> BitmapAllocationHandlerV1" where
  "ledger_step uid e h =
     (if be_type e = K_BITMAP_EVENT_TYPE_ALLOCATION then
        let md = \<lparr>bm_uid = uid, bm_width = ucast (be_width e), bm_height = ucast (be_height e),
                  bm_pixel_storage_type = ucast (be_pixel_storage_type e),
                  bm_activity_name = activity_name h\<rparr>;
            live = AList.update (native_ptr e) md (bitmaps h);
            total = current_total_bitmap_size h + ucast (bitmap_size e)
        in if sint total > sint (max_total_bitmap_size h)
           then h\<lparr>bitmaps := live, current_total_bitmap_size := total,
                  max_total_bitmap_size := total, bitmap_snapshot_at_max_size := map snd live\<rparr>
           else h\<lparr>bitmaps := live, current_total_bitmap_size := total\<rparr>
      else if be_type e = K_BITMAP_EVENT_TYPE_DEALLOCATION then
        h\<lparr>bitmaps := AList.delete (native_ptr e) (bitmaps h),
          current_total_bitmap_size := current_total_bitmap_size h - ucast (bitmap_size e)\<rparr>
      else if be_type e = K_BITMAP_EVENT_TYPE_ACTIVITY_START then
        (case bytes_as_str (be_activity_name e) of Ok n \<Rightarrow> h\<lparr>activity_name := n\<rparr> | _ \<Rightarrow> h)
      else h)"

definition size_delta :: "BitmapEvent \<Rightarrow> int" where
  "size_delta e =
     (if be_type e = K_BITMAP_EVENT_TYPE_ALLOCATION then uint (bitmap_size e)
      else if be_type e = K_BITMAP_EVENT_TYPE_DEALLOCATION then - uint (bitmap_size e)
      else 0)"

definition event_atoms :: "i32 \<Rightarrow> BitmapAllocationHandlerV1 \<Rightarrow> BitmapEvent \<Rightarrow> CodegenAtom list" where
  "event_atoms uid h e =
     (if be_type e = K_BITMAP_EVENT_TYPE_ALLOCATION then
        [AndroidGraphicsBitmapAllocated uid (ucast (be_width e)) (ucast (be_height e))]
      else if be_type e = K_BITMAP_EVENT_TYPE_BITMAP_SCALED then
        [AndroidGraphicsBitmapScaled uid (ucast (be_width e)) (ucast (be_height e))
           (ucast (be_scaled_width e)) (ucast (be_scaled_height e))
           (ucast (be_pixel_storage_type e)) (activity_name h)]
      else [])"

lemmas event_types = K_BITMAP_EVENT_TYPE_ALLOCATION_def K_BITMAP_EVENT_TYPE_DEALLOCATION_def
  K_BITMAP_EVENT_TYPE_ACTIVITY_START_def K_BITMAP_EVENT_TYPE_BITMAP_SCALED_def

lemma try_u32_i32_Ok: "try_into_signed (uint (x :: u32)) = Ok (w :: i32) \<Longrightarrow> w = ucast x"
  by (auto simp: try_into_signed_def split: if_splits)

lemma checked_i64_eq:
  "checked_i64 m (sint a + uint (n :: u32)) = Ok w \<Longrightarrow>
     w = a + ucast n \<and> sint (a + ucast n) = sint a + uint n"
  "checked_i64 m (sint a - uint (n :: u32)) = Ok w \<Longrightarrow>
     w = a - ucast n \<and> sint (a - ucast n) = sint a - uint n"
proof -
  have "of_int (uint n) = (ucast n :: i64)" by simp
  moreover assume "checked_i64 m (sint a + uint n) = Ok w"
  ultimately show "w = a + ucast n \<and> sint (a + ucast n) = sint a + uint n"
    using sint_checked_i64 by (fastforce simp: checked_i64_def split: if_splits)
next
  have "of_int (uint n) = (ucast n :: i64)" by simp
  moreover assume "checked_i64 m (sint a - uint n) = Ok w"
  ultimately show "w = a - ucast n \<and> sint (a - ucast n) = sint a - uint n"
    using sint_checked_i64 by (fastforce simp: checked_i64_def split: if_splits)
qed

text \<open>One event: the writer receives its atoms first, then the ledger is updated.\<close>

lemma on_item_Ok:
  assumes "BitmapV1_on_item (CodegenAtomWriter_write env) task e (h, t) = (Ok (), (h', t'))"
  shows "h' = ledger_step (rp_uid (resolved_process task)) e h"
    and "accepted_calls t' =
           accepted_calls t @ map codegen_call (event_atoms (rp_uid (resolved_process task)) h e)"
    and "sint (current_total_bitmap_size h') = sint (current_total_bitmap_size h) + size_delta e"
proof -
  have "h' = ledger_step (rp_uid (resolved_process task)) e h
    \<and> accepted_calls t' =
           accepted_calls t @ map codegen_call (event_atoms (rp_uid (resolved_process task)) h e)
    \<and> sint (current_total_bitmap_size h') = sint (current_total_bitmap_size h) + size_delta e"
    using assms
    by (auto simp: BitmapV1_on_item_def on_allocation_def on_deallocation_def on_activity_start_def
        on_scaled_def io_bind_Ok_iff Let_def CodegenAtomWriter_write_eq try_u32_i64 sint_u32_i64
        ledger_step_def event_atoms_def size_delta_def event_types accepted_call_def
        List.map_filter_simps hm_insert_def split: if_splits
        dest!: try_u32_i32_Ok checked_i64_eq)
  then show "h' = ledger_step (rp_uid (resolved_process task)) e h"
    and "accepted_calls t' =
           accepted_calls t @ map codegen_call (event_atoms (rp_uid (resolved_process task)) h e)"
    and "sint (current_total_bitmap_size h') = sint (current_total_bitmap_size h) + size_delta e"
    by blast+
qed


lemma ledger_step_peak:
  assumes "sint (current_total_bitmap_size (ledger_step uid e h)) =
             sint (current_total_bitmap_size h) + size_delta e"
    and "sint (current_total_bitmap_size h) \<le> sint (max_total_bitmap_size h)"
  shows "sint (max_total_bitmap_size (ledger_step uid e h)) =
           max (sint (max_total_bitmap_size h)) (sint (current_total_bitmap_size (ledger_step uid e h)))"
    and "bitmap_snapshot_at_max_size (ledger_step uid e h) =
           (if sint (current_total_bitmap_size (ledger_step uid e h)) > sint (max_total_bitmap_size h)
            then map snd (bitmaps (ledger_step uid e h)) else bitmap_snapshot_at_max_size h)"
  using assms uint_ge_0 [of "bitmap_size e"]
  by (auto simp: ledger_step_def size_delta_def Let_def event_types max_def
      simp del: uint_ge_0 unsigned_greater_eq split: if_splits res.splits)

lemma ledger_step_wf: "hm_wf (bitmaps h) \<Longrightarrow> hm_wf (bitmaps (ledger_step uid e h))"
  by (auto simp: ledger_step_def Let_def hm_wf_def distinct_update distinct_delete split: res.split)

subsection \<open>A whole poll\<close>

definition total_after :: "BitmapEvent list \<Rightarrow> nat \<Rightarrow> int" where
  "total_after es n = sum_list (map size_delta (take n es))"

definition peak :: "BitmapEvent list \<Rightarrow> int" where
  "peak es = Max (set (map (total_after es) [0..<Suc (length es)]))"

lemma total_after_snoc:
  "n \<le> length es \<Longrightarrow> total_after (es @ [e]) n = total_after es n"
  "total_after (es @ [e]) (Suc (length es)) = total_after es (length es) + size_delta e"
  by (simp_all add: total_after_def)

lemma peak_snoc: "peak (es @ [e]) = max (peak es) (total_after (es @ [e]) (Suc (length es)))"
proof -
  have "map (total_after (es @ [e])) [0..<Suc (length es)] = map (total_after es) [0..<Suc (length es)]"
    by (auto simp: total_after_snoc)
  then have "set (map (total_after (es @ [e])) [0..<Suc (length (es @ [e]))]) =
      insert (total_after (es @ [e]) (Suc (length es))) (set (map (total_after es) [0..<Suc (length es)]))"
    by (simp del: upt_Suc add: upt_Suc_append [of 0 "Suc (length es)"])
  moreover have "set (map (total_after es) [0..<Suc (length es)]) \<noteq> {}" by simp
  ultimately show ?thesis by (simp add: peak_def del: upt_Suc set_map)
qed

lemma peak_Nil: "peak [] = 0"
  by (simp add: peak_def total_after_def)

text \<open>What has to hold of the handler after the events \<open>es\<close>.\<close>

definition ledger_correct :: "i32 \<Rightarrow> BitmapEvent list \<Rightarrow> BitmapAllocationHandlerV1 \<Rightarrow> bool" where
  "ledger_correct uid es h \<longleftrightarrow>
     h = fold (ledger_step uid) es BitmapV1_default
     \<and> sint (current_total_bitmap_size h) = total_after es (length es)
     \<and> sint (max_total_bitmap_size h) = peak es
     \<and> total_after es (length es) \<le> peak es
     \<and> (\<exists>n \<le> length es. total_after es n = peak es
          \<and> list_all (\<lambda>k. total_after es k < peak es) [0..<n]
          \<and> bitmap_snapshot_at_max_size h =
              map snd (bitmaps (fold (ledger_step uid) (take n es) BitmapV1_default)))"

lemma ledger_correct_Nil: "ledger_correct uid [] BitmapV1_default"
  by (simp add: ledger_correct_def total_after_def peak_Nil BitmapV1_default_def)

lemma ledger_correct_snoc:
  assumes c: "ledger_correct uid es h"
    and t: "sint (current_total_bitmap_size (ledger_step uid e h)) =
             sint (current_total_bitmap_size h) + size_delta e"
  shows "ledger_correct uid (es @ [e]) (ledger_step uid e h)"
proof -
  let ?h = "ledger_step uid e h" and ?N = "Suc (length es)"
  have cur: "sint (current_total_bitmap_size ?h) = total_after (es @ [e]) ?N"
  proof -
    have "sint (current_total_bitmap_size h) = total_after es (length es)"
      using c unfolding ledger_correct_def by blast
    then show ?thesis by (simp only: t total_after_snoc)
  qed
  have mx: "sint (max_total_bitmap_size h) = peak es"
    and le: "sint (current_total_bitmap_size h) \<le> sint (max_total_bitmap_size h)"
    using c unfolding ledger_correct_def by auto
  note step = ledger_step_peak [OF t le]
  have f: "?h = fold (ledger_step uid) (es @ [e]) BitmapV1_default"
    using c by (simp add: ledger_correct_def)
  have "\<exists>n \<le> ?N. total_after (es @ [e]) n = peak (es @ [e])
      \<and> list_all (\<lambda>k. total_after (es @ [e]) k < peak (es @ [e])) [0..<n]
      \<and> bitmap_snapshot_at_max_size ?h =
          map snd (bitmaps (fold (ledger_step uid) (take n (es @ [e])) BitmapV1_default))"
  proof (cases "total_after (es @ [e]) ?N > peak es")
    case True
    have "total_after (es @ [e]) k < peak (es @ [e])" if "k \<le> length es" for k
    proof -
      have "total_after es k \<le> peak es"
        unfolding peak_def using that by (intro Max_ge) (auto simp del: upt_Suc)
      then show ?thesis using True that by (simp add: peak_snoc total_after_snoc)
    qed
    then show ?thesis using True step(2) cur mx f
      by (intro exI [of _ ?N]) (auto simp: peak_snoc list_all_iff)
  next
    case False
    then obtain n where "n \<le> length es" "total_after es n = peak es"
      "list_all (\<lambda>k. total_after es k < peak es) [0..<n]"
      "bitmap_snapshot_at_max_size h =
          map snd (bitmaps (fold (ledger_step uid) (take n es) BitmapV1_default))"
      using c by (auto simp: ledger_correct_def)
    then show ?thesis using False step(2) cur mx
      by (intro exI [of _ n]) (auto simp: peak_snoc total_after_snoc list_all_iff)
  qed
  then show ?thesis using step(1) cur mx f
    by (auto simp: ledger_correct_def peak_snoc)
qed

lemma on_items_Ok:
  assumes "for_each (BitmapV1_on_item (CodegenAtomWriter_write env) task) es (BitmapV1_default, t)
             = (Ok (), (h, t'))"
  shows "ledger_correct (rp_uid (resolved_process task)) es h"
  using assms
proof (induction es arbitrary: h t' rule: rev_induct)
  case Nil
  then show ?case using ledger_correct_Nil by auto
next
  case (snoc e es)
  let ?item = "BitmapV1_on_item (CodegenAtomWriter_write env) task"
  obtain h1 t1 where 1: "for_each ?item es (BitmapV1_default, t) = (Ok (), (h1, t1))"
    and 2: "?item e (h1, t1) = (Ok (), (h, t'))"
    using snoc.prems by (auto simp: for_each_append io_bind_Ok_iff)
  show ?case
    using ledger_correct_snoc [OF snoc.IH [OF 1], of e] on_item_Ok(1,3) [OF 2] by simp
qed

text \<open>
  C8. The bitmap ledger after any sequence of successfully handled events: the running total is
  the sum of the allocated minus the freed sizes (without wrap-around), the recorded maximum is the
  largest total reached at any moment, starting from 0, and the saved snapshot lists exactly
  the bitmaps that were live at the first moment the maximum was reached.
\<close>

theorem bitmap_ledger:
  assumes "for_each (BitmapV1_on_item (CodegenAtomWriter_write env) task) es (BitmapV1_default, t)
             = (Ok (), (h, t'))"
    and "uid = rp_uid (resolved_process task)"
  shows "sint (current_total_bitmap_size h) = sum_list (map size_delta es)
    \<and> sint (max_total_bitmap_size h) = Max {sum_list (map size_delta (take n es)) | n. n \<le> length es}
    \<and> (\<exists>n \<le> length es.
          sum_list (map size_delta (take n es)) = sint (max_total_bitmap_size h)
        \<and> list_all (\<lambda>k. sum_list (map size_delta (take k es)) < sint (max_total_bitmap_size h)) [0..<n]
        \<and> bitmap_snapshot_at_max_size h =
            map snd (bitmaps (fold (ledger_step uid) (take n es) BitmapV1_default)))"
proof -
  have "set (map (total_after es) [0..<Suc (length es)]) =
      {sum_list (map size_delta (take n es)) | n. n \<le> length es}"
    by (auto simp: total_after_def simp del: upt_Suc)
  then have "peak es = Max {sum_list (map size_delta (take n es)) | n. n \<le> length es}"
    by (simp only: peak_def)
  moreover have c: "ledger_correct uid es h" using on_items_Ok [OF assms(1)] assms(2) by simp
  ultimately show ?thesis unfolding ledger_correct_def total_after_def by auto
qed

subsection \<open>No overflow\<close>

lemma size_delta_bound: "\<bar>size_delta e\<bar> < 2 ^ 32"
  using uint_lt2p [of "bitmap_size e"] by (simp add: size_delta_def)

lemma checked_i64_total:
  assumes "\<bar>a\<bar> + 2 ^ 32 < 2 ^ 63" and "0 \<le> n" and "n < 2 ^ 32"
  shows "returns (checked_i64 m (a + n))" "returns (checked_i64 m (a - n))"
  using assms by (auto simp: checked_i64_def)

lemma on_item_total:
  assumes "\<bar>sint (current_total_bitmap_size h)\<bar> + 2 ^ 32 < 2 ^ 63"
  shows "returns (fst (BitmapV1_on_item (CodegenAtomWriter_write env) task e (h, t)))"
proof -
  have "returns (checked_i64 m (sint (current_total_bitmap_size h) + uint (bitmap_size e)))"
    "returns (checked_i64 m (sint (current_total_bitmap_size h) - uint (bitmap_size e)))" for m
    by (intro checked_i64_total [OF assms]; use uint_lt2p [of "bitmap_size e"] in simp)+
  moreover have "returns (bytes_as_str bs)" for bs
    using bytes_as_str_never_panics [of bs] by auto
  ultimately show ?thesis
    unfolding bitmap_item_defs
    by (auto simp: CodegenAtomWriter_write_eq Let_def try_u32_i64 sint_u32_i64
        intro!: returns_lift returns_io_bind split: if_splits)
qed

lemma on_items_total:
  assumes "\<bar>sint (current_total_bitmap_size h)\<bar> + int (length es) * 2 ^ 32 < 2 ^ 63"
  shows "returns (fst (for_each (BitmapV1_on_item (CodegenAtomWriter_write env) task) es (h, t)))"
  using assms
proof (induction es arbitrary: h t)
  case (Cons e es)
  let ?item = "BitmapV1_on_item (CodegenAtomWriter_write env) task"
  obtain r h1 t1 where m: "?item e (h, t) = (r, (h1, t1))" by (cases "?item e (h, t)") auto
  have "\<bar>sint (current_total_bitmap_size h)\<bar> + 2 ^ 32 < 2 ^ 63"
    using Cons.prems by simp
  then have r: "returns r" using on_item_total [of h env task e t] m by simp
  show ?case
  proof (cases "r = Ok ()")
    case True
    have "\<bar>sint (current_total_bitmap_size h1)\<bar> + int (length es) * 2 ^ 32 < 2 ^ 63"
      using on_item_Ok(3) [OF m [unfolded True]] size_delta_bound [of e] Cons.prems by simp
    then show ?thesis using Cons.IH [of h1 t1] m True by (simp add: io_bind_run)
  next
    case False
    then show ?thesis using r m by (auto simp: returns_iff io_bind_run)
  qed
qed simp

text \<open>
  The \<open>i64\<close> totals of the bitmap handler cannot overflow in practice: with fewer than \<open>2^31\<close>
  events, whatever their sizes and order, no event makes the handler panic.
\<close>

theorem bitmap_no_overflow:
  assumes "length es < 2 ^ 31"
  shows "returns (fst (for_each (BitmapV1_on_item (CodegenAtomWriter_write env) task) es
           (BitmapV1_default, t)))"
proof -
  have "int (length es) < 2 ^ 31" using assms by simp
  then show ?thesis by (intro on_items_total) (simp add: BitmapV1_default_def)
qed

subsection \<open>The snapshots\<close>

lemma on_finished_snapshots:
  assumes "BitmapV1_on_finished clk (CodegenAtomWriter_write env) (h, t) = (r, (h', t'))"
  shows "h' = h \<and> (\<exists>id1 id2 n.
      accepted_calls t' = accepted_calls t @ take n
        (map (\<lambda>m. codegen_call (snapshot_atom id1 1 m)) (bitmap_snapshot_at_max_size h)
         @ map (\<lambda>m. codegen_call (snapshot_atom id2 2 m)) (map snd (bitmaps h)))
      \<and> (r = Ok () \<longleftrightarrow> n = length (bitmap_snapshot_at_max_size h) + length (bitmaps h))
      \<and> n \<le> length (bitmap_snapshot_at_max_size h) + length (bitmaps h))"
proof -
  let ?w = "CodegenAtomWriter_write env"
  define id1 where "id1 = rng_gen clk t"
  define as1 where "as1 = map (snapshot_atom id1 1) (bitmap_snapshot_at_max_size h)"
  have R: "accepted_calls [RandomI64] = []" by (simp add: accepted_call_def List.map_filter_simps)
  obtain n1 t1 where 1: "n1 \<le> length as1"
      "accepted_calls t1 = accepted_calls (t @ [RandomI64]) @ map codegen_call (take n1 as1)"
    and o1: "for_each ?w as1 (h, t @ [RandomI64]) = (Ok (), (h, t1)) \<and> n1 = length as1
      \<or> (\<exists>m. for_each ?w as1 (h, t @ [RandomI64]) = (Err (Anyhow m), (h, t1)) \<and> n1 < length as1)"
    using codegen.for_each_write [of as1 "t @ [RandomI64]" env h] by blast
  define id2 where "id2 = rng_gen clk t1"
  define as2 where "as2 = map (snapshot_atom id2 2) (map snd (bitmaps h))"
  obtain n2 t2 where 2: "n2 \<le> length as2"
      "accepted_calls t2 = accepted_calls (t1 @ [RandomI64]) @ map codegen_call (take n2 as2)"
    and o2: "for_each ?w as2 (h, t1 @ [RandomI64]) = (Ok (), (h, t2)) \<and> n2 = length as2
      \<or> (\<exists>m. for_each ?w as2 (h, t1 @ [RandomI64]) = (Err (Anyhow m), (h, t2)) \<and> n2 < length as2)"
    using codegen.for_each_write [of as2 "t1 @ [RandomI64]" env h] by blast
  have run: "BitmapV1_on_finished clk ?w (h, t) =
      io_then (for_each ?w as1) (io_bind (ext_call (rng_gen clk) (\<lambda>_. RandomI64)) (\<lambda>i.
        for_each ?w (map (snapshot_atom i 2) (map snd (bitmaps h))))) (h, t @ [RandomI64])"
    by (simp only: BitmapV1_on_finished_def io_bind_world for_each_map id1_def as1_def)
  have l: "length as1 = length (bitmap_snapshot_at_max_size h)" "length as2 = length (bitmaps h)"
    by (simp_all add: as1_def as2_def)
  show ?thesis
  proof (cases "n1 = length as1")
    case True
    then have "BitmapV1_on_finished clk ?w (h, t) = for_each ?w as2 (h, t1 @ [RandomI64])"
      using o1 run by (auto simp: io_bind_run id2_def as2_def)
    then have "h' = h" "t' = t2" "r = Ok () \<longleftrightarrow> n2 = length as2" using o2 assms by auto
    then show ?thesis using 1 2 R True l
      by (intro conjI exI [of _ id1] exI [of _ id2] exI [of _ "n1 + n2"])
        (auto simp: as1_def as2_def take_map)
  next
    case False
    then have "h' = h" "t' = t1" "r \<noteq> Ok ()" using o1 run assms by (auto simp: io_bind_run)
    then show ?thesis using 1 R False l
      by (intro conjI exI [of _ id1] exI [of _ id2] exI [of _ n1]) (auto simp: as1_def take_map)
  qed
qed

text \<open>
  The end of a poll: if \<open>on_finished\<close> succeeds, statsd was given one snapshot record for every
  bitmap live at the peak and one for every bitmap live now, in that order, each group with
  a random identifier of its own and its own snapshot type; the handler is unchanged. If it fails,
  statsd was given an initial part of these.
\<close>

theorem BitmapV1_on_finished_snapshots:
  assumes "BitmapV1_on_finished clk (CodegenAtomWriter_write env) (h, t) = (r, (h', t'))"
  shows "h' = h \<and> (\<exists>id1 id2 n.
      accepted_calls t' = accepted_calls t @ take n
        (map (\<lambda>m. codegen_call (snapshot_atom id1 1 m)) (bitmap_snapshot_at_max_size h)
         @ map (\<lambda>m. codegen_call (snapshot_atom id2 2 m)) (map snd (bitmaps h)))
      \<and> (r = Ok () \<longleftrightarrow> n = length (bitmap_snapshot_at_max_size h) + length (bitmaps h))
      \<and> n \<le> length (bitmap_snapshot_at_max_size h) + length (bitmaps h))"
  by (rule on_finished_snapshots [OF assms])

text \<open>One allocation, as a concrete run.\<close>

definition example_bitmap :: BitmapEvent where
  "example_bitmap =
     \<lparr>be_type = 0, be_width = 2, be_height = 3, be_scaled_width = 0, be_scaled_height = 0,
      be_pixel_storage_type = 1, bitmap_size = 24, native_ptr = 100, be_activity_name = [NUL]\<rparr>"

lemma codegen_write_run:
  "codegen_write env t (codegen_call a) \<Longrightarrow>
     io_bind (CodegenAtomWriter_write env a) k (h, t) = k () (h, t @ [CodegenStatsWrite (codegen_call a) True])"
  by (simp add: io_bind_def CodegenAtomWriter_write_eq)

lemma example_conversions:
  "try_into_signed (uint (be_width example_bitmap)) = Ok (2 :: i32)"
  "try_into_signed (uint (be_height example_bitmap)) = Ok (3 :: i32)"
  "try_into_signed (uint (be_pixel_storage_type example_bitmap)) = Ok (1 :: i32)"
  "try_into_signed (uint (bitmap_size example_bitmap)) = Ok (24 :: i64)"
  by (simp_all add: example_bitmap_def try_into_signed_def)

lemma example_item_run:
  "\<exists>h t. for_each (BitmapV1_on_item (CodegenAtomWriter_write example_env) example_resolved)
     [example_bitmap] (BitmapV1_default, []) = (Ok (), (h, t))"
proof -
  have "be_type example_bitmap = K_BITMAP_EVENT_TYPE_ALLOCATION"
    by (simp add: example_bitmap_def event_types)
  then show ?thesis
    by (simp add: BitmapV1_on_item_def on_allocation_def example_conversions Let_def
        codegen_write_run example_env_def BitmapV1_default_def checked_i64_def)
qed

theorem bitmap_ledger_witness:
  "\<exists>h t. for_each (BitmapV1_on_item (CodegenAtomWriter_write example_env) example_resolved)
       [example_bitmap] (BitmapV1_default, []) = (Ok (), (h, t))
     \<and> sint (current_total_bitmap_size h) = 24"
proof -
  obtain h t where r: "for_each (BitmapV1_on_item (CodegenAtomWriter_write example_env)
      example_resolved) [example_bitmap] (BitmapV1_default, []) = (Ok (), (h, t))"
    using example_item_run by blast
  have "sint (current_total_bitmap_size h) = sum_list (map size_delta [example_bitmap])"
    using bitmap_ledger [OF r refl] by blast
  then show ?thesis using r by (auto simp: size_delta_def example_bitmap_def event_types)
qed

theorem bitmap_no_overflow_witness:
  "returns (fst (for_each (BitmapV1_on_item (CodegenAtomWriter_write example_env) example_resolved)
     [example_bitmap] (BitmapV1_default, [])))"
  by (rule bitmap_no_overflow) simp

theorem BitmapV1_on_finished_snapshots_witness:
  "\<exists>r h' t'. BitmapV1_on_finished
       example_clock
       (CodegenAtomWriter_write example_env) (BitmapV1_default, []) = (r, (h', t'))
     \<and> h' = BitmapV1_default"
proof -
  obtain r h' t' where m: "BitmapV1_on_finished
       example_clock
       (CodegenAtomWriter_write example_env) (BitmapV1_default, []) = (r, (h', t'))"
    using prod.exhaust by metis
  with BitmapV1_on_finished_snapshots [OF m] show ?thesis by blast
qed

end
