(* ===== verification/Binder_Transaction.thy ===== *)
theory Binder_Transaction
  imports Handler
begin

section \<open>Binder transactions\<close>

text \<open>
  \<open>core/bpf_handler/binder_transaction.rs\<close>: a transaction that matches a configured interface and
  method is logged as an atom, sent to the bridge service as an event, or both, in that order.
\<close>

record BinderTransaction =
  interface_descriptor :: "char list"
  bt_code :: c_ulong
  bt_calling_uid :: i32
  bt_timestamp_ns :: c_ulong

text \<open>\<open>filter_map(get(name)).find_map(get_method(code))\<close> over the probes.\<close>

fun find_method :: "string \<Rightarrow> c_ulong \<Rightarrow> ResolvedProbe list \<Rightarrow> MethodConfig option" where
  "find_method name code [] = None"
| "find_method name code (probe # probes) =
     (case map_of (probe_filters probe) name of
        None \<Rightarrow> find_method name code probes
      | Some interface_config \<Rightarrow>
          (case get_method interface_config code of
             None \<Rightarrow> find_method name code probes
           | Some method_config \<Rightarrow> Some method_config))"

fun atom_field :: "i32 \<Rightarrow> string \<Rightarrow> i32 \<Rightarrow> i64 \<Rightarrow> AtomFieldPosition \<Rightarrow> Field res" where
  "atom_field uid name code ts CALLING_UID = Ok (Field_new_with_annotation (VInt32 uid) (IsUid True))"
| "atom_field uid name code ts INTERFACE_NAME = Ok (Field_new (VString name))"
| "atom_field uid name code ts CODE = Ok (Field_new (VInt32 code))"
| "atom_field uid name code ts KTIME_NS = Ok (Field_new (VInt64 ts))"
| "atom_field uid name code ts AFP_UNKNOWN = Err (Anyhow ''Unknown atom field position'')"

definition write_to_statsd ::
  "('h, UnstructuredAtom) writer \<Rightarrow> AtomConfig \<Rightarrow> i32 \<Rightarrow> string \<Rightarrow> i32 \<Rightarrow> i64 \<Rightarrow> ('h st, unit) io" where
  "write_to_statsd write_atom config uid name code ts =
     io_bind (lift_res (collect_res (atom_field uid name code ts) (ac_atom_field_positions config)))
       (\<lambda>fields. write_atom \<lparr>ua_atom_id = ac_atom_id config, ua_fields = fields\<rparr>)"

definition binder_event :: "i32 \<Rightarrow> i64 \<Rightarrow> string \<Rightarrow> i32 \<Rightarrow> AidlEvent" where
  "binder_event uid timestamp_ms name code =
     \<lparr>ev_uid = uid, ev_timestampMs = timestamp_ms,
      ev_payloadId = payload_id_as_i32 BinderTransactionId,
      ev_payload = [\<lparr>entry_key = ''INTERFACE_NAME'', entry_val = StringValue name\<rparr>,
                    \<lparr>entry_key = ''CODE'', entry_val = IntValue code\<rparr>]\<rparr>"

definition enqueue_event ::
  "device \<Rightarrow> bridge \<Rightarrow> i32 \<Rightarrow> i64 \<Rightarrow> string \<Rightarrow> i32 \<Rightarrow> bool \<Rightarrow> ('h st, unit) io" where
  "enqueue_event d b uid timestamp_ms name code flsh =
     io_then (bridge_service_get d b)
       (enqueueEvent b (binder_event uid timestamp_ms name code) flsh)"

text \<open>The two halves of \<open>on_item\<close> after the configuration is found.\<close>

definition log_transaction ::
  "('h, UnstructuredAtom) writer \<Rightarrow> BinderTransaction \<Rightarrow> string \<Rightarrow> i32 \<Rightarrow> MethodConfig
     \<Rightarrow> ('h st, unit) io" where
  "log_transaction write_atom it name code method_config =
     (case atom_config method_config of
        Some config \<Rightarrow>
          io_bind (lift_res (try_into_signed (uint (bt_timestamp_ns it)))) (\<lambda>ts.
            write_to_statsd write_atom config (bt_calling_uid it) name code ts)
      | None \<Rightarrow> ret ())"

definition notify_transaction ::
  "device \<Rightarrow> clock \<Rightarrow> bridge \<Rightarrow> BinderTransaction \<Rightarrow> string \<Rightarrow> i32 \<Rightarrow> MethodConfig
     \<Rightarrow> ('h st, unit) io" where
  "notify_transaction d clk b it name code method_config =
     (case event_service_config method_config of
        Some config \<Rightarrow>
          (let flsh = (case esc_mode config of Flush \<Rightarrow> True | Buffer \<Rightarrow> False) in
           io_bind (get_current_timestamp_millis clk) (\<lambda>now.
             enqueue_event d b (bt_calling_uid it) now name code flsh))
      | None \<Rightarrow> ret ())"

definition Binder_on_item ::
  "device \<Rightarrow> clock \<Rightarrow> bridge \<Rightarrow> ('h, UnstructuredAtom) writer \<Rightarrow> ResolvedTask \<Rightarrow> BinderTransaction
     \<Rightarrow> ('h st, unit) io" where
  "Binder_on_item d clk b write_atom task it =
     io_bind (lift_res (bytes_as_nonempty_str (interface_descriptor it))) (\<lambda>name.
     io_bind (lift_res (ok_or (find_method name (bt_code it) (resolved_probes task))
        (Anyhow ''No config found for binder transaction: interface_descriptor={}, code={}'')))
     (\<lambda>method_config.
     io_bind (lift_res (try_into_signed (uint (bt_code it)))) (\<lambda>code.
     io_then (log_transaction write_atom it name code method_config)
       (notify_transaction d clk b it name code method_config))))"

definition BinderTransactionHandler where
  "BinderTransactionHandler d clk b write_atom dflt =
     \<lparr>MAP_PATH = ''/sys/fs/bpf/uprobestats/map_Binder_output_buf'',
      PROG_PATH = Some ''/sys/fs/bpf/uprobestats/prog_Binder_uprobe_exec_transact_internal'',
      h_default = dflt, on_item = Binder_on_item d clk b write_atom, on_finished = ret ()\<rparr>"

lemmas binder_item_defs = Binder_on_item_def log_transaction_def notify_transaction_def write_to_statsd_def enqueue_event_def Let_def

interpretation binder_contract:
    handler_contract "BinderTransactionHandler d clk b (AStatsEventWriter_write env) dflt" "\<lambda>_. True"
  by unfold_locales
    (auto simp: BinderTransactionHandler_def binder_item_defs keeps_untouched stats.write_self
      intro!: grows_intros keeps_intros stats.write_grows grows_bridge grows_clock keeps_bridge
      split: option.split)

subsection \<open>Which method configuration applies\<close>

lemma find_method_first:
  "find_method name code probes =
     (case List.map_filter (\<lambda>p. case map_of (probe_filters p) name of
         None \<Rightarrow> None | Some ic \<Rightarrow> get_method ic code) probes of
        [] \<Rightarrow> None | mc # _ \<Rightarrow> Some mc)"
  by (induction probes) (auto simp: List.map_filter_simps split: option.splits)

subsection \<open>What leaves the daemon\<close>

lemma atom_fields_Ok_iff:
  "collect_res (atom_field uid name code ts) ps = Ok fs \<longleftrightarrow>
     AFP_UNKNOWN \<notin> set ps \<and> fs = map (\<lambda>p. case p of
         CALLING_UID \<Rightarrow> Field_new_with_annotation (VInt32 uid) (IsUid True)
       | INTERFACE_NAME \<Rightarrow> Field_new (VString name)
       | CODE \<Rightarrow> Field_new (VInt32 code)
       | _ \<Rightarrow> Field_new (VInt64 ts)) ps"
proof (induction ps arbitrary: fs)
  case (Cons p ps)
  then show ?case by (cases p) (auto simp: res_bind_Ok_iff)
qed auto

lemma log_transaction_Ok:
  assumes "log_transaction (AStatsEventWriter_write env) it name code mc (h, t) = (Ok (), (h', t'))"
  shows "\<exists>ts. h' = h \<and> accepted_calls t' = accepted_calls t \<and> enqueued_events t' = enqueued_events t
    \<and> (atom_config mc = None \<or> sint (ts :: i64) = uint (bt_timestamp_ns it))
    \<and> accepted_atoms t' = accepted_atoms t @ (case atom_config mc of
        None \<Rightarrow> []
      | Some ac \<Rightarrow> [\<lparr>ua_atom_id = ac_atom_id ac, ua_fields = map (\<lambda>p. case p of
            CALLING_UID \<Rightarrow> Field_new_with_annotation (VInt32 (bt_calling_uid it)) (IsUid True)
          | INTERFACE_NAME \<Rightarrow> Field_new (VString name)
          | CODE \<Rightarrow> Field_new (VInt32 code)
          | _ \<Rightarrow> Field_new (VInt64 ts)) (ac_atom_field_positions ac)\<rparr>])"
proof (cases "atom_config mc")
  case None
  with assms show ?thesis by (simp add: log_transaction_def)
next
  case (Some ac)
  then obtain ts fields where "try_into_signed (uint (bt_timestamp_ns it)) = Ok ts"
    and "collect_res (atom_field (bt_calling_uid it) name code ts) (ac_atom_field_positions ac) = Ok fields"
    and "AStatsEventWriter_write env \<lparr>ua_atom_id = ac_atom_id ac, ua_fields = fields\<rparr> (h, t) =
        (Ok (), (h', t'))"
    using assms by (auto simp: log_transaction_def write_to_statsd_def io_bind_Ok_iff)
  then show ?thesis using Some
    by (intro exI [of _ ts])
      (auto simp: try_into_signed_Ok_iff atom_fields_Ok_iff dest!: stats_write_Ok)
qed

lemma notify_transaction_Ok:
  assumes "notify_transaction d clk b it name code mc (h, t) = (Ok (), (h', t'))"
  shows "\<exists>now. h' = h \<and> accepted_calls t' = accepted_calls t \<and> accepted_atoms t' = accepted_atoms t
    \<and> enqueued_events t' = enqueued_events t @ (case event_service_config mc of
        None \<Rightarrow> []
      | Some ec \<Rightarrow> [(binder_event (bt_calling_uid it) now name code, esc_mode ec = Flush)])"
proof (cases "event_service_config mc")
  case None
  with assms show ?thesis by (simp add: notify_transaction_def)
next
  case (Some ec)
  have "(case esc_mode ec of Flush \<Rightarrow> True | Buffer \<Rightarrow> False) \<longleftrightarrow> esc_mode ec = Flush"
    by (simp split: EventMode.split)
  with Some assms show ?thesis
    by (fastforce simp: notify_transaction_def enqueue_event_def io_bind_Ok_iff Let_def quiet_def
        dest!: clock_Ok bridge_Ok)
qed

text \<open>
  C19. A binder transaction that is handled successfully: its interface name is the non-empty text
  before the first NUL, a method configuration applies to it (of the first probe that has one), and
  its code fits an \<open>i32\<close>. If that configuration asks for an atom, the library for statsd took
  exactly it, by a write whose code was not negative (after the code 0 it may still drop it), with
  the fields in the configured order and the UID annotated; if it asks for an event, the bridge
  service accepted exactly that event, flushed or buffered as configured; nothing else was written or enqueued.
\<close>

theorem Binder_on_item_Ok:
  assumes "Binder_on_item d clk b (AStatsEventWriter_write env) task it (h, t) = (Ok (), (h', t'))"
  shows "\<exists>name mc code ts now. bytes_as_str (interface_descriptor it) = Ok name \<and> name \<noteq> []
    \<and> find_method name (bt_code it) (resolved_probes task) = Some mc
    \<and> sint (code :: i32) = uint (bt_code it) \<and> h' = h
    \<and> accepted_atoms t' = accepted_atoms t @ (case atom_config mc of
        None \<Rightarrow> []
      | Some ac \<Rightarrow> [\<lparr>ua_atom_id = ac_atom_id ac, ua_fields = map (\<lambda>p. case p of
            CALLING_UID \<Rightarrow> Field_new_with_annotation (VInt32 (bt_calling_uid it)) (IsUid True)
          | INTERFACE_NAME \<Rightarrow> Field_new (VString name)
          | CODE \<Rightarrow> Field_new (VInt32 code)
          | _ \<Rightarrow> Field_new (VInt64 ts)) (ac_atom_field_positions ac)\<rparr>])
    \<and> (atom_config mc = None \<or> sint (ts :: i64) = uint (bt_timestamp_ns it))
    \<and> enqueued_events t' = enqueued_events t @ (case event_service_config mc of
        None \<Rightarrow> []
      | Some ec \<Rightarrow> [(binder_event (bt_calling_uid it) now name code, esc_mode ec = Flush)])
    \<and> accepted_calls t' = accepted_calls t"
proof -
  obtain name mc code h1 t1 where "bytes_as_str (interface_descriptor it) = Ok name" "name \<noteq> []"
    and "find_method name (bt_code it) (resolved_probes task) = Some mc"
    and "sint (code :: i32) = uint (bt_code it)"
    and 1: "log_transaction (AStatsEventWriter_write env) it name code mc (h, t) = (Ok (), (h1, t1))"
    and 2: "notify_transaction d clk b it name code mc (h1, t1) = (Ok (), (h', t'))"
    using assms by (auto simp: Binder_on_item_def io_bind_Ok_iff res_Ok_iffs
        bytes_as_nonempty_str_Ok_iff try_into_signed_Ok_iff)
  moreover note log_transaction_Ok [OF 1] notify_transaction_Ok [OF 2]
  ultimately show ?thesis by fastforce
qed

text \<open>
  Errors of the binder handler leave no partial effects: if no configuration applies to the
  transaction, its code does not fit an \<open>i32\<close>, or the atom configuration contains an unknown
  field position, the handler fails before anything is written or sent, and the event that may
  also be configured is not sent either.
\<close>

theorem Binder_on_item_rejects:
  assumes "find_method name (bt_code it) (resolved_probes task) = mc"
    and "mc = None \<or> 2 ^ 31 \<le> uint (bt_code it)
      \<or> (\<exists>m ac. mc = Some m \<and> atom_config m = Some ac \<and> AFP_UNKNOWN \<in> set (ac_atom_field_positions ac))"
    and "bytes_as_nonempty_str (interface_descriptor it) = Ok name"
  shows "\<exists>e. Binder_on_item d clk b write_atom task it s = (Err e, s)"
proof (cases mc)
  case None
  with assms show ?thesis by (simp add: Binder_on_item_def)
next
  case (Some m)
  note found = this
  show ?thesis
  proof (cases "try_into_signed (uint (bt_code it)) :: i32 res")
    case (Ok code)
    then have "uint (bt_code it) < 2 ^ 31" by (auto simp: try_into_signed_def split: if_splits)
    with assms(2) Some obtain ac where ac: "atom_config m = Some ac"
      and "AFP_UNKNOWN \<in> set (ac_atom_field_positions ac)" by auto
    then have bad: "collect_res (atom_field u name c ts) (ac_atom_field_positions ac) \<noteq> Ok fs"
      for u c ts fs by (simp add: atom_fields_Ok_iff)
    have total: "returns (atom_field u n c ts p)" for u n c ts p by (cases p) simp_all
    have "\<exists>e. collect_res (atom_field u name c ts) (ac_atom_field_positions ac) = Err e" for u c ts
      using bad returns_collect_res [of "ac_atom_field_positions ac" "atom_field u name c ts"]
        total by (auto simp: returns_iff)
    then have w: "\<exists>e. write_to_statsd write_atom ac u name c ts s = (Err e, s)" for u c ts
      by (metis io_bind_simps(2) write_to_statsd_def)
    have "\<exists>e. log_transaction write_atom it name code m s = (Err e, s)"
      using returns_try_into(1) [where ?'a = 64, of "uint (bt_timestamp_ns it)"] w
      by (cases "try_into_signed (uint (bt_timestamp_ns it)) :: i64 res")
        (auto simp: log_transaction_def ac returns_iff)
    then show ?thesis using assms found Ok by (auto simp: Binder_on_item_def io_bind_run)
  qed (use assms found in \<open>auto simp: Binder_on_item_def try_into_signed_def split: if_splits\<close>)
qed

definition example_binder_task :: "AtomFieldPosition list \<Rightarrow> ResolvedTask" where
  "example_binder_task ps =
     example_resolved\<lparr>resolved_probes := [
       \<lparr>method_descriptor = \<lparr>md_fully_qualified_class_name = [], md_method_name = [],
          md_fully_qualified_parameters = []\<rparr>,
        probe_offsets = example_offsets, bpf_program_path = [],
        probe_filters = [(''IFoo'', \<lparr>methods = [(7,
          \<lparr>event_service_config = None,
           atom_config = Some \<lparr>ac_atom_id = 900, ac_atom_field_positions = ps\<rparr>\<rparr>)]\<rparr>)]\<rparr>]\<rparr>"

definition example_transaction :: BinderTransaction where
  "example_transaction = \<lparr>interface_descriptor = ''IFoo'' @ [NUL, NUL], bt_code = 7,
     bt_calling_uid = 10001, bt_timestamp_ns = 5\<rparr>"

lemma example_descriptor:
  "bytes_as_nonempty_str (interface_descriptor example_transaction) = Ok ''IFoo''"
  by code_simp

theorem Binder_on_item_rejects_witness:
  "\<exists>e. Binder_on_item (example_device ''user'') example_clock example_bridge
         (AStatsEventWriter_write example_env) (example_binder_task [CODE, AFP_UNKNOWN])
         example_transaction ((), []) = (Err e, ((), []))"
  by (rule Binder_on_item_rejects [OF refl _ example_descriptor])
    (simp add: example_binder_task_def example_transaction_def get_method_def)

theorem Binder_on_item_Ok_witness:
  "\<exists>t'. Binder_on_item (example_device ''user'') example_clock example_bridge
         (AStatsEventWriter_write example_env) (example_binder_task [CODE])
         example_transaction ((), []) = (Ok (), ((), t'))
     \<and> accepted_calls t' = []"
proof -
  let ?m = "Binder_on_item (example_device ''user'') example_clock example_bridge
      (AStatsEventWriter_write example_env) (example_binder_task [CODE]) example_transaction ((), [])"
  have "fst ?m = fst (AStatsEventWriter_write example_env
      \<lparr>ua_atom_id = 900, ua_fields = [Field_new (VInt32 7)]\<rparr> ((), []))"
    by (simp add: Binder_on_item_def example_descriptor)
      (simp add: example_binder_task_def example_transaction_def get_method_def log_transaction_def
        notify_transaction_def write_to_statsd_def try_into_signed_def)
  then have "fst ?m = Ok ()"
    by (simp add: example_writers atom_writable_def value_writable_def Field_new_def)
  then obtain t' where r: "?m = (Ok (), ((), t'))" by (cases ?m) auto
  then show ?thesis using Binder_on_item_Ok [OF r] by (auto simp: List.map_filter_simps)
qed

end
