(* ===== verification/Handler_Tests.thy ===== *)
theory Handler_Tests
  imports Generic_Instrumentation Process_Management Bitmap_Allocation Binder_Transaction
    "HOL-Library.Code_Target_Nat"
begin

section \<open>The unit tests of the handlers\<close>

text \<open>
  The unit tests of \<open>core/bpf_handler/\<close> as definitions over the model, one per test and with its name: a test
  holds if its calls return what it expects, its assertions hold and its mock is satisfied. The
  lemmas \<open>..._passes\<close> evaluate them. The \<open>TestAtomWriter\<close> of the tests is the real writer on a statsd that
  accepts every atom, and \<open>written\<close> is what statsd was given.
\<close>

definition c_str_arr :: "nat \<Rightarrow> string \<Rightarrow> char list" where
  "c_str_arr n s = s @ replicate (n - length s) NUL"

text \<open>A run of a handler that starts with nothing written, and what it wrote.\<close>

definition run_on :: "'h \<Rightarrow> ('h st, 'a) io \<Rightarrow> 'a res \<times> trace" where
  "run_on h m = (case m (h, []) of (r, (_, t)) \<Rightarrow> (r, t))"

abbreviation "stats_writer \<equiv> AStatsEventWriter_write example_env"
abbreviation "codegen_writer \<equiv> CodegenAtomWriter_write example_env"

definition passes :: "('a res \<Rightarrow> bool) \<Rightarrow> (trace \<Rightarrow> bool) \<Rightarrow> 'a res \<times> trace \<Rightarrow> bool" where
  "passes res_ok assertions rt = (case rt of (r, t) \<Rightarrow> res_ok r \<and> assertions t)"

definition is_Ok :: "'a res \<Rightarrow> bool" where
  "is_Ok r = (case r of Ok _ \<Rightarrow> True | _ \<Rightarrow> False)"

definition is_err :: "'a res \<Rightarrow> bool" where
  "is_err r = (case r of Err _ \<Rightarrow> True | _ \<Rightarrow> False)"

definition written :: "UnstructuredAtom list \<Rightarrow> trace \<Rightarrow> bool" where
  "written as t = (accepted_atoms t = as)"

definition codegen_written :: "CodegenAtom list \<Rightarrow> trace \<Rightarrow> bool" where
  "codegen_written as t = (accepted_calls t = map codegen_call as)"

subsection \<open>generic_instrumentation.rs and process_management.rs\<close>

definition create_task_with_atom_id :: "i64 \<Rightarrow> ResolvedTask" where
  "create_task_with_atom_id atom_id =
     \<lparr>rt_id = 1, rt_duration = from_secs 0, resolved_process = \<lparr>rp_pid = 0, rp_uid = 0, rp_name = []\<rparr>,
      bpf_map_paths = [],
      statsd_logging_config = Some \<lparr>slc_atom_id = Some atom_id, primitive_argument_positions = []\<rparr>,
      resolved_probes = []\<rparr>"

definition create_task_without_logging_config :: ResolvedTask where
  "create_task_without_logging_config =
     \<lparr>rt_id = 1, rt_duration = from_secs 0, resolved_process = \<lparr>rp_pid = 0, rp_uid = 0, rp_name = []\<rparr>,
      bpf_map_paths = [], statsd_logging_config = None, resolved_probes = []\<rparr>"

definition call_timestamp_handler_writes_atom :: bool where
  "call_timestamp_handler_writes_atom =
     passes is_Ok (written [\<lparr>ua_atom_id = 123, ua_fields = [Field_new (VInt32 456), Field_new (VInt64 789)]\<rparr>])
       (run_on () (CallTimestamp_on_item stats_writer (create_task_with_atom_id 123)
          \<lparr>ct_event = 456, timestampNs = 789\<rparr>))"

definition call_result_handler_writes_atom :: bool where
  "call_result_handler_writes_atom =
     (let task = (create_task_with_atom_id 123)\<lparr>statsd_logging_config :=
            Some \<lparr>slc_atom_id = Some 123, primitive_argument_positions = [1, 3]\<rparr>\<rparr>;
          data = \<lparr>cr_pc = 0, regs = (replicate 10 0)[nat JAVA_ARGUMENT_REGISTER_OFFSET + 1 := 101,
            nat JAVA_ARGUMENT_REGISTER_OFFSET + 3 := 103]\<rparr> in
      passes is_Ok (written [\<lparr>ua_atom_id = 123, ua_fields = [Field_new (VInt64 101), Field_new (VInt64 103)]\<rparr>])
        (run_on () (CallResult_on_item stats_writer task data)))"

definition call_timestamp_handler_no_logging_config_does_not_write_atom :: bool where
  "call_timestamp_handler_no_logging_config_does_not_write_atom =
     passes is_Ok (written []) (run_on () (CallTimestamp_on_item stats_writer create_task_without_logging_config
       \<lparr>ct_event = 456, timestampNs = 789\<rparr>))"

definition call_result_handler_no_logging_config_does_not_write_atom :: bool where
  "call_result_handler_no_logging_config_does_not_write_atom =
     passes is_Ok (written []) (run_on () (CallResult_on_item stats_writer create_task_without_logging_config
       \<lparr>cr_pc = 0, regs = replicate 10 0\<rparr>))"

definition set_uid_temp_allowlist_state_record_handler_writes_atom :: bool where
  "set_uid_temp_allowlist_state_record_handler_writes_atom =
     passes is_Ok (written [\<lparr>ua_atom_id = 123, ua_fields = [Field_new (VInt32 456), Field_new (VBool True)]\<rparr>])
       (run_on () (SetUidTempAllowlistStateRecord_on_item stats_writer (create_task_with_atom_id 123)
          \<lparr>su_uid = 456, onAllowlist = True\<rparr>))"

definition set_uid_temp_allowlist_state_record_handler_no_logging_config_does_not_write_atom :: bool where
  "set_uid_temp_allowlist_state_record_handler_no_logging_config_does_not_write_atom =
     passes is_Ok (written []) (run_on () (SetUidTempAllowlistStateRecord_on_item stats_writer
       create_task_without_logging_config \<lparr>su_uid = 456, onAllowlist = True\<rparr>))"

definition update_device_idle_temp_allowlist_record_handler_writes_atom :: bool where
  "update_device_idle_temp_allowlist_record_handler_writes_atom =
     passes is_Ok (written [\<lparr>ua_atom_id = 123, ua_fields =
         [Field_new (VInt32 1001), Field_new (VBool True), Field_new (VInt64 5000), Field_new (VInt32 1),
          Field_new (VInt32 2), Field_new (VString ''test reason''), Field_new (VInt32 1002)]\<rparr>])
       (run_on () (UpdateDeviceIdleTempAllowlistRecord_on_item stats_writer (create_task_with_atom_id 123)
          \<lparr>ud_method_identifier = 0, changing_uid = 1001, adding = True, duration_ms = 5000, ud_type = 1,
           reason_code = 2, reason = c_str_arr 256 ''test reason'', ud_calling_uid = 1002\<rparr>))"

definition update_device_idle_temp_allowlist_record_handler_no_logging_config_does_not_write_atom :: bool where
  "update_device_idle_temp_allowlist_record_handler_no_logging_config_does_not_write_atom =
     passes is_Ok (written [])
       (run_on () (UpdateDeviceIdleTempAllowlistRecord_on_item stats_writer create_task_without_logging_config
          \<lparr>ud_method_identifier = 0, changing_uid = 0, adding = False, duration_ms = 0, ud_type = 0,
           reason_code = 0, reason = replicate 256 NUL, ud_calling_uid = 0\<rparr>))"

lemma generic_tests_pass:
  "call_timestamp_handler_writes_atom" "call_result_handler_writes_atom"
  "call_timestamp_handler_no_logging_config_does_not_write_atom"
  "call_result_handler_no_logging_config_does_not_write_atom"
  by code_simp+

lemma process_management_tests_pass:
  "set_uid_temp_allowlist_state_record_handler_writes_atom"
  "set_uid_temp_allowlist_state_record_handler_no_logging_config_does_not_write_atom"
  "update_device_idle_temp_allowlist_record_handler_writes_atom"
  "update_device_idle_temp_allowlist_record_handler_no_logging_config_does_not_write_atom"
  by code_simp+

subsection \<open>bitmap_allocation.rs\<close>

definition create_task :: "i32 \<Rightarrow> ResolvedTask" where
  "create_task uid =
     \<lparr>rt_id = 1, rt_duration = from_secs 0, resolved_process = \<lparr>rp_pid = 0, rp_uid = uid, rp_name = []\<rparr>,
      bpf_map_paths = [], statsd_logging_config = None, resolved_probes = []\<rparr>"

text \<open>The \<open>if let\<close> of the tests on a snapshot atom.\<close>

definition is_snapshot :: "i32 \<Rightarrow> i32 \<Rightarrow> i32 \<Rightarrow> i32 \<Rightarrow> CodegenCall \<Rightarrow> bool" where
  "is_snapshot uid width height snapshot_type call =
     (case call of
        android_graphics_bitmap_allocation_snapshot u w h _ _ ty _ \<Rightarrow>
          u = uid \<and> w = width \<and> h = height \<and> ty = convert_to_snapshot_type_enum snapshot_type
      | _ \<Rightarrow> False)"

text \<open>Items, then the writer is cleared, then \<open>on_finished\<close>: its result and what it wrote.\<close>

definition bitmap_finish :: "ResolvedTask \<Rightarrow> BitmapEvent list \<Rightarrow> unit res \<times> CodegenCall list" where
  "bitmap_finish task es =
     (case for_each (BitmapV1_on_item codegen_writer task) es (BitmapV1_default, []) of
        (Ok _, (h, t)) \<Rightarrow>
          (case BitmapV1_on_finished example_clock codegen_writer (h, []) of
             (r, (_, t')) \<Rightarrow> (r, accepted_calls t'))
      | (r, _) \<Rightarrow> (Err (Anyhow ''on_item''), []))"

definition bitmap_allocation_handler_v0_writes_atom :: bool where
  "bitmap_allocation_handler_v0_writes_atom =
     passes is_Ok (codegen_written [AndroidGraphicsBitmapAllocated 1001 100 200])
       (run_on () (BitmapV0_on_item codegen_writer (create_task 1001)
          \<lparr>be_type = K_BITMAP_EVENT_TYPE_ALLOCATION, be_width = 100, be_height = 200, be_scaled_width = 0,
           be_scaled_height = 0, be_pixel_storage_type = 0, bitmap_size = 0, native_ptr = 0,
           be_activity_name = replicate 128 NUL\<rparr>))"

definition bitmap_allocation_handler_v1_allocation_writes_atom :: bool where
  "bitmap_allocation_handler_v1_allocation_writes_atom =
     passes is_Ok (codegen_written [AndroidGraphicsBitmapAllocated 1002 150 250])
       (run_on BitmapV1_default (BitmapV1_on_item codegen_writer (create_task 1002)
          \<lparr>be_type = K_BITMAP_EVENT_TYPE_ALLOCATION, be_width = 150, be_height = 250, be_scaled_width = 0,
           be_scaled_height = 0, be_pixel_storage_type = 0, bitmap_size = 0, native_ptr = 0,
           be_activity_name = replicate 128 NUL\<rparr>))"

definition bitmap_allocation_handler_v1_scaled_writes_atom :: bool where
  "bitmap_allocation_handler_v1_scaled_writes_atom =
     passes is_Ok (codegen_written [AndroidGraphicsBitmapScaled 1003 100 100 200 200 1 []])
       (run_on BitmapV1_default (BitmapV1_on_item codegen_writer (create_task 1003)
          \<lparr>be_type = K_BITMAP_EVENT_TYPE_BITMAP_SCALED, be_width = 100, be_height = 100, be_scaled_width = 200,
           be_scaled_height = 200, be_pixel_storage_type = 1, bitmap_size = 0, native_ptr = 0,
           be_activity_name = replicate 128 NUL\<rparr>))"

definition bitmap_allocation_handler_v1_on_finished_writes_snapshot_atoms :: bool where
  "bitmap_allocation_handler_v1_on_finished_writes_snapshot_atoms =
     (case bitmap_finish (create_task 1004)
        [\<lparr>be_type = K_BITMAP_EVENT_TYPE_ALLOCATION, be_width = 50, be_height = 50, be_scaled_width = 0,
          be_scaled_height = 0, be_pixel_storage_type = 0, bitmap_size = 10000, native_ptr = 1234,
          be_activity_name = replicate 128 NUL\<rparr>] of
        (Ok _, [atom_max, atom_rand]) \<Rightarrow> is_snapshot 1004 50 50 1 atom_max \<and> is_snapshot 1004 50 50 2 atom_rand
      | _ \<Rightarrow> False)"

definition bitmap_allocation_handler_v1_deallocation_removes_from_snapshot :: bool where
  "bitmap_allocation_handler_v1_deallocation_removes_from_snapshot =
     (case bitmap_finish (create_task 1005)
        [\<lparr>be_type = K_BITMAP_EVENT_TYPE_ALLOCATION, be_width = 50, be_height = 50, be_scaled_width = 0,
          be_scaled_height = 0, be_pixel_storage_type = 0, bitmap_size = 10000, native_ptr = 1234,
          be_activity_name = replicate 128 NUL\<rparr>,
         \<lparr>be_type = K_BITMAP_EVENT_TYPE_DEALLOCATION, be_width = 0, be_height = 0, be_scaled_width = 0,
          be_scaled_height = 0, be_pixel_storage_type = 0, bitmap_size = 10000, native_ptr = 1234,
          be_activity_name = replicate 128 NUL\<rparr>] of
        (Ok _, [atom_max]) \<Rightarrow> is_snapshot 1005 50 50 1 atom_max
      | _ \<Rightarrow> False)"

lemma bitmap_tests_pass:
  "bitmap_allocation_handler_v0_writes_atom" "bitmap_allocation_handler_v1_allocation_writes_atom"
  "bitmap_allocation_handler_v1_scaled_writes_atom"
  "bitmap_allocation_handler_v1_on_finished_writes_snapshot_atoms"
  "bitmap_allocation_handler_v1_deallocation_removes_from_snapshot"
  by code_simp+

subsection \<open>The mock of the bridge service\<close>

text \<open>
  The expectations that the tests put into a \<open>MockIUprobeStatsBridgeService\<close>: replies that may be asked for any
  number of times, by package name where the test says \<open>with(eq(..))\<close> (an inner \<^const>\<open>None\<close> is an error status),
  and events that must be enqueued exactly once each. A call without an expectation fails the test.
\<close>

record MockIUprobeStatsBridgeService =
  expect_isLauncherActivity :: "bool option"
  expect_getUidForPackage :: "(string \<times> i32 option) list"
  expect_packageHasEnabledAccessibilityService :: "(string \<times> bool option) list"
  expect_enqueueEvent :: "(AidlEvent \<Rightarrow> bool \<Rightarrow> bool) list"

definition Mock_new :: MockIUprobeStatsBridgeService where
  "Mock_new = \<lparr>expect_isLauncherActivity = None, expect_getUidForPackage = [],
     expect_packageHasEnabledAccessibilityService = [], expect_enqueueEvent = []\<rparr>"

definition TestUprobeStatsBridgeService :: "MockIUprobeStatsBridgeService \<Rightarrow> bridge" where
  "TestUprobeStatsBridgeService m =
     \<lparr>bridge_interface = True, is_launcher_activity = (\<lambda>_ _ _ _. expect_isLauncherActivity m),
      get_uid_for_package = (\<lambda>_ p. case map_of (expect_getUidForPackage m) p of Some r \<Rightarrow> r | None \<Rightarrow> None),
      package_has_enabled_a11y_service = (\<lambda>_ p.
        case map_of (expect_packageHasEnabledAccessibilityService m) p of Some r \<Rightarrow> r | None \<Rightarrow> None),
      enqueue_event_ok = (\<lambda>_ _ _. True)\<rparr>"

text \<open>The first expectation that a call matches is used up.\<close>

fun use_up :: "(AidlEvent \<Rightarrow> bool \<Rightarrow> bool) list \<Rightarrow> AidlEvent \<times> bool
    \<Rightarrow> (AidlEvent \<Rightarrow> bool \<Rightarrow> bool) list option" where
  "use_up [] call = None"
| "use_up (P # Ps) call = (if P (fst call) (snd call) then Some Ps else map_option ((#) P) (use_up Ps call))"

fun once_each :: "(AidlEvent \<Rightarrow> bool \<Rightarrow> bool) list \<Rightarrow> (AidlEvent \<times> bool) list \<Rightarrow> bool" where
  "once_each Ps [] = List.null Ps"
| "once_each Ps (call # calls) =
     (case use_up Ps call of None \<Rightarrow> False | Some Ps' \<Rightarrow> once_each Ps' calls)"

definition expected_call :: "MockIUprobeStatsBridgeService \<Rightarrow> effect \<Rightarrow> bool" where
  "expected_call m e =
     (case e of
        BridgeIsLauncherActivity _ _ _ \<Rightarrow> (case expect_isLauncherActivity m of None \<Rightarrow> False | Some _ \<Rightarrow> True)
      | BridgeGetUidForPackage p \<Rightarrow> list_ex (\<lambda>x. fst x = p) (expect_getUidForPackage m)
      | BridgeHasEnabledA11y p \<Rightarrow> list_ex (\<lambda>x. fst x = p) (expect_packageHasEnabledAccessibilityService m)
      | _ \<Rightarrow> True)"

definition mock_satisfied :: "MockIUprobeStatsBridgeService \<Rightarrow> trace \<Rightarrow> bool" where
  "mock_satisfied m t = (list_all (expected_call m) t \<and> once_each (expect_enqueueEvent m) (enqueued_events t))"

text \<open>\<open>event.payload.iter().any(..)\<close>.\<close>

definition has_entry :: "AidlEvent \<Rightarrow> string \<Rightarrow> AidlValue \<Rightarrow> bool" where
  "has_entry event key v = list_ex (\<lambda>e. entry_key e = key \<and> entry_val e = v) (ev_payload event)"

subsection \<open>binder_transaction.rs\<close>

abbreviation (input) "TEST_INTERFACE_NAME \<equiv> ''com.android.internal.os.IBinderTest''"
abbreviation (input) "TEST_CODE \<equiv> 1"
abbreviation (input) "TEST_CALLING_UID \<equiv> 1000"
abbreviation (input) "TEST_TIMESTAMP_NS \<equiv> 1000000000"

definition Binder_setup_handler_and_task ::
  "(c_ulong \<times> EventServiceConfig option \<times> AtomConfig option) list \<Rightarrow> ResolvedTask" where
  "Binder_setup_handler_and_task method_cfgs =
     \<lparr>rt_id = 1, rt_duration = from_secs 0,
      resolved_process = \<lparr>rp_pid = 0, rp_uid = TEST_CALLING_UID, rp_name = ''test_process''\<rparr>,
      bpf_map_paths = [], statsd_logging_config = None,
      resolved_probes = [
        \<lparr>method_descriptor = \<lparr>md_fully_qualified_class_name = ''test_class'', md_method_name = ''test_method'',
           md_fully_qualified_parameters = []\<rparr>,
         probe_offsets = \<lparr>container_path = ''test_path'', container_offset = 0, method_offset = 0\<rparr>,
         bpf_program_path = ''test_bpf'',
         probe_filters = [(TEST_INTERFACE_NAME,
           fold (\<lambda>(method_id, esc, ac) ic. snd (insert_method method_id
             \<lparr>event_service_config = esc, atom_config = ac\<rparr> ic)) method_cfgs InterfaceConfig_default)]\<rparr>]\<rparr>"

definition expect_binder_transaction :: "string \<Rightarrow> i32 \<Rightarrow> bool \<Rightarrow> AidlEvent \<Rightarrow> bool \<Rightarrow> bool" where
  "expect_binder_transaction expected_interface expected_code expected_flush event flsh =
     (if flsh \<noteq> expected_flush then False
      else if ev_uid event \<noteq> TEST_CALLING_UID then False
      else if ev_payloadId event \<noteq> payload_id_as_i32 BinderTransactionId then False
      else has_entry event ''INTERFACE_NAME'' (StringValue expected_interface)
        \<and> has_entry event ''CODE'' (IntValue expected_code))"

definition create_binder_transaction :: "string \<Rightarrow> c_ulong \<Rightarrow> i32 \<Rightarrow> c_ulong \<Rightarrow> BinderTransaction" where
  "create_binder_transaction interface code calling_uid timestamp_ns =
     \<lparr>interface_descriptor = c_str_arr 128 interface, bt_code = code, bt_calling_uid = calling_uid,
      bt_timestamp_ns = timestamp_ns\<rparr>"

definition binder_on_items ::
  "MockIUprobeStatsBridgeService \<Rightarrow> ResolvedTask \<Rightarrow> BinderTransaction list \<Rightarrow> unit res \<times> trace" where
  "binder_on_items m task its =
     run_on () (for_each (Binder_on_item (example_device ''user'') example_clock
       (TestUprobeStatsBridgeService m) stats_writer task) its)"

definition binder_transaction_event_is_reported :: bool where
  "binder_transaction_event_is_reported =
     (let m = Mock_new\<lparr>expect_enqueueEvent := [expect_binder_transaction TEST_INTERFACE_NAME TEST_CODE False]\<rparr> in
      passes is_Ok (mock_satisfied m) (binder_on_items m
        (Binder_setup_handler_and_task [(TEST_CODE, Some \<lparr>esc_mode = Buffer\<rparr>, None)])
        [create_binder_transaction TEST_INTERFACE_NAME TEST_CODE TEST_CALLING_UID TEST_TIMESTAMP_NS]))"

definition binder_transaction_ignored_for_unknown_interface :: bool where
  "binder_transaction_ignored_for_unknown_interface =
     passes is_err (mock_satisfied Mock_new) (binder_on_items Mock_new
       (Binder_setup_handler_and_task [(TEST_CODE, Some \<lparr>esc_mode = Buffer\<rparr>, None)])
       [create_binder_transaction ''com.android.internal.os.IOtherInterface'' TEST_CODE TEST_CALLING_UID
          TEST_TIMESTAMP_NS])"

definition binder_transaction_ignored_for_unknown_code :: bool where
  "binder_transaction_ignored_for_unknown_code =
     passes is_err (mock_satisfied Mock_new) (binder_on_items Mock_new
       (Binder_setup_handler_and_task [(TEST_CODE, Some \<lparr>esc_mode = Buffer\<rparr>, None)])
       [create_binder_transaction TEST_INTERFACE_NAME (TEST_CODE + 1) TEST_CALLING_UID TEST_TIMESTAMP_NS])"

definition binder_transaction_flush_flag_respected :: bool where
  "binder_transaction_flush_flag_respected =
     (let m = Mock_new\<lparr>expect_enqueueEvent := [expect_binder_transaction TEST_INTERFACE_NAME TEST_CODE True]\<rparr> in
      passes is_Ok (mock_satisfied m) (binder_on_items m
        (Binder_setup_handler_and_task [(TEST_CODE, Some \<lparr>esc_mode = Flush\<rparr>, None)])
        [create_binder_transaction TEST_INTERFACE_NAME TEST_CODE TEST_CALLING_UID TEST_TIMESTAMP_NS]))"

definition binder_transaction_atom_is_reported :: bool where
  "binder_transaction_atom_is_reported =
     passes is_Ok (\<lambda>t. mock_satisfied Mock_new t \<and>
         (case accepted_atoms t of
            [atom] \<Rightarrow> ua_atom_id atom = 100 \<and> map fld_value (ua_fields atom) =
              [VString TEST_INTERFACE_NAME, VInt32 TEST_CODE, VInt32 TEST_CALLING_UID, VInt64 TEST_TIMESTAMP_NS]
          | _ \<Rightarrow> False))
       (binder_on_items Mock_new (Binder_setup_handler_and_task
          [(TEST_CODE, None, Some \<lparr>ac_atom_id = 100,
             ac_atom_field_positions = [INTERFACE_NAME, CODE, CALLING_UID, KTIME_NS]\<rparr>)])
          [create_binder_transaction TEST_INTERFACE_NAME TEST_CODE TEST_CALLING_UID TEST_TIMESTAMP_NS])"

definition binder_transaction_reports_both_atom_and_event :: bool where
  "binder_transaction_reports_both_atom_and_event =
     (let m = Mock_new\<lparr>expect_enqueueEvent := [expect_binder_transaction TEST_INTERFACE_NAME TEST_CODE False]\<rparr> in
      passes is_Ok (\<lambda>t. mock_satisfied m t \<and>
          (case accepted_atoms t of [atom] \<Rightarrow> ua_atom_id atom = 100 | _ \<Rightarrow> False))
        (binder_on_items m (Binder_setup_handler_and_task
           [(TEST_CODE, Some \<lparr>esc_mode = Buffer\<rparr>, Some \<lparr>ac_atom_id = 100,
              ac_atom_field_positions = [INTERFACE_NAME, CODE, CALLING_UID, KTIME_NS]\<rparr>)])
           [create_binder_transaction TEST_INTERFACE_NAME TEST_CODE TEST_CALLING_UID TEST_TIMESTAMP_NS]))"

definition binder_transaction_handles_multiple_methods :: bool where
  "binder_transaction_handles_multiple_methods =
     (let m = Mock_new\<lparr>expect_enqueueEvent := [expect_binder_transaction TEST_INTERFACE_NAME 1 False,
            expect_binder_transaction TEST_INTERFACE_NAME 2 False]\<rparr> in
      passes is_Ok (mock_satisfied m) (binder_on_items m
        (Binder_setup_handler_and_task [(1, Some \<lparr>esc_mode = Buffer\<rparr>, None), (2, Some \<lparr>esc_mode = Buffer\<rparr>, None)])
        [create_binder_transaction TEST_INTERFACE_NAME 1 TEST_CALLING_UID TEST_TIMESTAMP_NS,
         create_binder_transaction TEST_INTERFACE_NAME 2 TEST_CALLING_UID TEST_TIMESTAMP_NS]))"

definition binder_transaction_empty_interface_fails :: bool where
  "binder_transaction_empty_interface_fails =
     passes is_err (mock_satisfied Mock_new) (binder_on_items Mock_new
       (Binder_setup_handler_and_task [(TEST_CODE, Some \<lparr>esc_mode = Buffer\<rparr>, None)])
       [create_binder_transaction [] TEST_CODE TEST_CALLING_UID TEST_TIMESTAMP_NS])"

lemma binder_tests_pass:
  "binder_transaction_event_is_reported" "binder_transaction_ignored_for_unknown_interface"
  "binder_transaction_ignored_for_unknown_code" "binder_transaction_flush_flag_respected"
  "binder_transaction_atom_is_reported" "binder_transaction_reports_both_atom_and_event"
  "binder_transaction_handles_multiple_methods" "binder_transaction_empty_interface_fails"
  by code_simp+

end
