(* ===== verification/Disruptive_App.thy ===== *)
theory Disruptive_App
  imports Handler
begin

section \<open>Disruptive applications\<close>

text \<open>
  \<open>core/bpf_handler/disruptive_app.rs\<close>: an app that disables a launcher activity, and an app that
  binds a service with permission to start activities from the background. Both are reported to
  statsd and to the bridge service; on user builds statsd is given UIDs only.
\<close>

unbundle bit_operations_syntax

record ComponentEnabledSetting =
  ces_error_code :: i64
  ces_package_name :: "char list"
  ces_class_name :: "char list"
  ces_new_state :: i32
  ces_calling_package_name :: "char list"

record BindServiceLocked =
  bsl_error_code :: i64
  bsl_intent_action :: "char list"
  bsl_intent_package :: "char list"
  bsl_intent_component_name_package :: "char list"
  bsl_intent_component_name_class :: "char list"
  bind_flags :: c_long
  bsl_calling_package :: "char list"

subsection \<open>Disabled launcher activities\<close>

definition COMPONENT_ENABLED_STATE_DISABLED :: i32 where
  "COMPONENT_ENABLED_STATE_DISABLED = 2"

definition check_disabled_launcher_activity_and_log_to_statsd ::
  "device \<Rightarrow> bridge \<Rightarrow> ('h, CodegenAtom) writer \<Rightarrow> string \<Rightarrow> string \<Rightarrow> i32 \<Rightarrow> string
     \<Rightarrow> ('h st, bool) io" where
  "check_disabled_launcher_activity_and_log_to_statsd d b write_atom pkg cls new_state caller =
     (if sint new_state < sint COMPONENT_ENABLED_STATE_DISABLED then ret False
      else
        io_then (bridge_service_get d b)
        (io_bind (isLauncherActivity b pkg cls True) (\<lambda>is_launcher.
         io_then
           (if \<not> is_user_build d
            then write_atom (SetComponentEnabledSettingReported pkg cls new_state caller is_launcher)
            else ret ())
         (io_then
           (if is_launcher \<and> caller \<noteq> [] then
              io_bind (if caller = ''shell'' then getUidForPackage b ''com.android.shell''
                       else getUidForPackage b caller) (\<lambda>calling_uid.
              io_bind (getUidForPackage b pkg) (\<lambda>disabled_activity_uid.
              write_atom (DisabledLauncherActivityUidsReported calling_uid disabled_activity_uid)))
            else ret ())
           (ret is_launcher)))))"

definition disabled_event :: "i32 \<Rightarrow> i64 \<Rightarrow> string \<Rightarrow> string \<Rightarrow> string \<Rightarrow> AidlEvent" where
  "disabled_event uid now pkg cls caller =
     \<lparr>ev_uid = uid, ev_timestampMs = now,
      ev_payloadId = payload_id_as_i32 DisabledLauncherActivityId,
      ev_payload =
        [\<lparr>entry_key = ''PACKAGE_NAME'', entry_val = StringValue pkg\<rparr>,
         \<lparr>entry_key = ''CLASS_NAME'', entry_val = StringValue cls\<rparr>,
         \<lparr>entry_key = ''CALLING_PACKAGE_NAME'', entry_val = StringValue caller\<rparr>]\<rparr>"

definition Component_enqueue_event ::
  "device \<Rightarrow> clock \<Rightarrow> bridge \<Rightarrow> string \<Rightarrow> string \<Rightarrow> string \<Rightarrow> ('h st, unit) io" where
  "Component_enqueue_event d clk b pkg cls caller =
     io_then (bridge_service_get d b)
     (io_bind (getUidForPackage b pkg) (\<lambda>uid.
      io_bind (get_current_timestamp_millis clk) (\<lambda>now.
      enqueueEvent b (disabled_event uid now pkg cls caller) False)))"

definition Component_on_item ::
  "device \<Rightarrow> clock \<Rightarrow> bridge \<Rightarrow> ('h, CodegenAtom) writer \<Rightarrow> ResolvedTask \<Rightarrow> ComponentEnabledSetting
     \<Rightarrow> ('h st, unit) io" where
  "Component_on_item d clk b write_atom task data =
     (if sint (ces_error_code data) < 0 then fail (BpfProgramError (ces_error_code data))
      else
        io_bind (lift_res (map_err (\<lambda>_. BpfDataInvalid 1)
          (bytes_as_nonempty_str (ces_package_name data)))) (\<lambda>pkg.
        io_bind (lift_res (map_err (\<lambda>_. BpfDataInvalid 2)
          (bytes_as_nonempty_str (ces_class_name data)))) (\<lambda>cls.
        io_bind (lift_res (bytes_as_str (ces_calling_package_name data))) (\<lambda>caller.
        io_bind (check_disabled_launcher_activity_and_log_to_statsd d b write_atom pkg cls
          (ces_new_state data) caller) (\<lambda>is_disabled.
        if is_disabled then Component_enqueue_event d clk b pkg cls caller else ret ())))))"

subsection \<open>Binding with background activity starts\<close>

definition BIND_ALLOW_BACKGROUND_ACTIVITY_STARTS :: c_long where
  "BIND_ALLOW_BACKGROUND_ACTIVITY_STARTS = 0x00100000"

definition Bind_log_to_statsd ::
  "device \<Rightarrow> bridge \<Rightarrow> ('h, CodegenAtom) writer \<Rightarrow> string \<Rightarrow> string \<Rightarrow> string \<Rightarrow> string \<Rightarrow> i64
     \<Rightarrow> string \<Rightarrow> ('h st, unit) io" where
  "Bind_log_to_statsd d b write_atom ipkg iaction icpkg iccls flgs caller =
     io_then
       (if \<not> is_user_build d
        then write_atom (BindServiceLockedWithBalFlagsReported ipkg flgs caller iaction icpkg iccls)
        else ret ())
     (let binder_package = caller; bindee_package = (if ipkg \<noteq> [] then ipkg else icpkg) in
      if binder_package \<noteq> [] \<and> bindee_package \<noteq> [] then
        io_then (bridge_service_get d b)
        (io_bind (getUidForPackage b binder_package) (\<lambda>binder_uid.
         io_bind (getUidForPackage b bindee_package) (\<lambda>bindee_uid.
         write_atom (BindServiceLockedWithBalFlagsUidsReported binder_uid bindee_uid))))
      else ret ())"

definition bind_event :: "i64 \<Rightarrow> string \<Rightarrow> string \<Rightarrow> string \<Rightarrow> string \<Rightarrow> string \<Rightarrow> AidlEvent" where
  "bind_event now ipkg iaction icpkg iccls caller =
     \<lparr>ev_uid = 0, ev_timestampMs = now,
      ev_payloadId = payload_id_as_i32 BindAllowBackgroundActivityStartsId,
      ev_payload =
        [\<lparr>entry_key = ''CALLING_PACKAGE'', entry_val = StringValue caller\<rparr>,
         \<lparr>entry_key = ''INTENT_PACKAGE'', entry_val = StringValue ipkg\<rparr>,
         \<lparr>entry_key = ''INTENT_ACTION'', entry_val = StringValue iaction\<rparr>,
         \<lparr>entry_key = ''INTENT_COMPONENT_NAME_PACKAGE'', entry_val = StringValue icpkg\<rparr>,
         \<lparr>entry_key = ''INTENT_COMPONENT_NAME_CLASS'', entry_val = StringValue iccls\<rparr>]\<rparr>"

definition Bind_enqueue_event ::
  "device \<Rightarrow> clock \<Rightarrow> bridge \<Rightarrow> string \<Rightarrow> string \<Rightarrow> string \<Rightarrow> string \<Rightarrow> string \<Rightarrow> ('h st, unit) io" where
  "Bind_enqueue_event d clk b ipkg iaction icpkg iccls caller =
     io_then (bridge_service_get d b)
     (io_bind (get_current_timestamp_millis clk) (\<lambda>now.
      enqueueEvent b (bind_event now ipkg iaction icpkg iccls caller) False))"

definition Bind_on_item ::
  "device \<Rightarrow> clock \<Rightarrow> bridge \<Rightarrow> ('h, CodegenAtom) writer \<Rightarrow> ResolvedTask \<Rightarrow> BindServiceLocked
     \<Rightarrow> ('h st, unit) io" where
  "Bind_on_item d clk b write_atom task data =
     (if sint (bsl_error_code data) < 0 then fail (BpfProgramError (bsl_error_code data))
      else
        io_bind (lift_res (bytes_as_str (bsl_calling_package data))) (\<lambda>caller.
        io_bind (lift_res (bytes_as_str (bsl_intent_package data))) (\<lambda>ipkg.
        io_bind (lift_res (bytes_as_str (bsl_intent_action data))) (\<lambda>iaction.
        io_bind (lift_res (bytes_as_str (bsl_intent_component_name_package data))) (\<lambda>icpkg.
        io_bind (lift_res (bytes_as_str (bsl_intent_component_name_class data))) (\<lambda>iccls.
        let flgs = bind_flags data;
            has_bal_flag = (bind_flags data AND BIND_ALLOW_BACKGROUND_ACTIVITY_STARTS \<noteq> 0) in
        if caller = [] \<and> ipkg = [] \<and> iaction = [] \<and> icpkg = [] \<and> iccls = []
        then fail (BpfDataInvalid 1)
        else if \<not> has_bal_flag then ret ()
        else io_then (Bind_log_to_statsd d b write_atom ipkg iaction icpkg iccls flgs caller)
               (Bind_enqueue_event d clk b ipkg iaction icpkg iccls caller)))))))"

definition ComponentEnabledSettingHandler where
  "ComponentEnabledSettingHandler d clk b write_atom dflt =
     \<lparr>MAP_PATH = ''/sys/fs/bpf/uprobestats/map_DisruptiveApp_ComponentEnabledSetting_output_buf'',
      PROG_PATH =
        Some ''/sys/fs/bpf/uprobestats/prog_DisruptiveApp_uprobe_set_component_enabled_setting'',
      h_default = dflt, on_item = Component_on_item d clk b write_atom, on_finished = ret ()\<rparr>"

definition BindServiceLockedHandler where
  "BindServiceLockedHandler d clk b write_atom dflt =
     \<lparr>MAP_PATH = ''/sys/fs/bpf/uprobestats/map_DisruptiveApp_BindServiceLocked_output_buf'',
      PROG_PATH = Some ''/sys/fs/bpf/uprobestats/prog_DisruptiveApp_uprobe_bind_service_locked'',
      h_default = dflt, on_item = Bind_on_item d clk b write_atom, on_finished = ret ()\<rparr>"

lemmas component_defs = Component_on_item_def Component_enqueue_event_def
  check_disabled_launcher_activity_and_log_to_statsd_def
lemmas bind_defs = Bind_on_item_def Bind_log_to_statsd_def Bind_enqueue_event_def Let_def

interpretation component_contract:
    handler_contract "ComponentEnabledSettingHandler d clk b (CodegenAtomWriter_write env) dflt"
      "\<lambda>_. True"
  by unfold_locales
    (auto simp: ComponentEnabledSettingHandler_def component_defs keeps_untouched codegen.write_self
      intro!: grows_intros keeps_intros codegen.write_grows grows_bridge grows_clock keeps_bridge)

interpretation bind_contract:
    handler_contract "BindServiceLockedHandler d clk b (CodegenAtomWriter_write env) dflt"
      "\<lambda>_. True"
  by unfold_locales
    (auto simp: BindServiceLockedHandler_def bind_defs keeps_untouched codegen.write_self
      intro!: grows_intros keeps_intros codegen.write_grows grows_bridge grows_clock keeps_bridge)

subsection \<open>User builds log UIDs only\<close>

text \<open>An effect that hands statsd a generated atom with a package, class or action name in it.\<close>

definition logs_names :: "effect \<Rightarrow> bool" where
  "logs_names e =
     (case e of
        CodegenStatsWrite c ok \<Rightarrow>
          (case c of
             set_component_enabled_setting_reported _ _ _ _ _ \<Rightarrow> True
           | bind_service_locked_with_bal_flags_reported _ _ _ _ _ _ \<Rightarrow> True
           | android_graphics_bitmap_scaled _ _ _ _ _ _ _ \<Rightarrow> True
           | android_graphics_bitmap_allocation_snapshot _ _ _ _ _ _ _ \<Rightarrow> True
           | _ \<Rightarrow> False)
      | StatsWrite _ _ _ \<Rightarrow> True
      | _ \<Rightarrow> False)"

lemma silent_calls:
  "io_steps (never_emits logs_names) (bridge_service_get d b)"
  "io_steps (never_emits logs_names) (isLauncherActivity b p c m)"
  "io_steps (never_emits logs_names) (getUidForPackage b p)"
  "io_steps (never_emits logs_names) (enqueueEvent b ev fl)"
  "io_steps (never_emits logs_names) (get_current_timestamp_millis clk)"
  by (auto simp: bridge_defs get_current_timestamp_millis_def logs_names_def intro!: never_intros
      split: res.split)

lemma silent_uid_atoms:
  "io_steps (never_emits logs_names)
     (CodegenAtomWriter_write env (DisabledLauncherActivityUidsReported u v))"
  "io_steps (never_emits logs_names)
     (CodegenAtomWriter_write env (BindServiceLockedWithBalFlagsUidsReported u v))"
  by (auto simp: CodegenAtomWriter_write_def logs_names_def intro!: never_intros)

text \<open>
  C20. Privacy on user builds: whatever the item holds and whatever the outcome, the two handlers
  of disruptive apps never hand statsd an atom that contains a name; the only atoms they write
  there carry UIDs.
\<close>

theorem disruptive_user_build_no_names:
  assumes "is_user_build d"
  shows "filter logs_names (snd (snd (Component_on_item d clk b (CodegenAtomWriter_write env) task c (h, t))))
           = filter logs_names t
    \<and> filter logs_names (snd (snd (Bind_on_item d clk b (CodegenAtomWriter_write env) task s (h, t))))
           = filter logs_names t"
proof -
  have "io_steps (never_emits logs_names) (Component_on_item d clk b (CodegenAtomWriter_write env) task c)"
    by (auto simp: component_defs assms intro!: never_intros silent_calls silent_uid_atoms)
  moreover have "io_steps (never_emits logs_names) (Bind_on_item d clk b (CodegenAtomWriter_write env) task s)"
    by (auto simp: bind_defs assms intro!: never_intros silent_calls silent_uid_atoms)
  ultimately show ?thesis unfolding io_steps_def never_emits_def by (metis snd_conv)
qed

subsection \<open>What success means\<close>

lemma check_disabled_Ok:
  assumes "check_disabled_launcher_activity_and_log_to_statsd d b (CodegenAtomWriter_write env)
      pkg cls st caller (h, t) = (Ok launcher, (h', t'))"
  shows "h' = h \<and> accepted_atoms t' = accepted_atoms t \<and> enqueued_events t' = enqueued_events t \<and>
    (if sint st < 2 then launcher = False \<and> t' = t
     else \<exists>cu du. accepted_calls t' = accepted_calls t
       @ (if is_user_build d then [] else [set_component_enabled_setting_reported pkg cls st caller launcher])
       @ (if launcher \<and> caller \<noteq> [] then [disabled_launcher_activity_uids_reported cu du] else [])
       \<and> (launcher \<and> caller \<noteq> [] \<longrightarrow>
            (\<exists>u. get_uid_for_package b u (if caller = ''shell'' then ''com.android.shell'' else caller) = Some cu)
            \<and> (\<exists>u. get_uid_for_package b u pkg = Some du)))"
  using assms
  by (auto simp: check_disabled_launcher_activity_and_log_to_statsd_def io_bind_Ok_iff quiet_def
      COMPONENT_ENABLED_STATE_DISABLED_def split: if_splits dest!: bridge_Ok codegen_write_Ok)

lemma Component_enqueue_Ok:
  assumes "Component_enqueue_event d clk b pkg cls caller (h, t) = (Ok (), (h', t'))"
  shows "\<exists>uid now. h' = h \<and> accepted_atoms t' = accepted_atoms t \<and> accepted_calls t' = accepted_calls t
    \<and> enqueued_events t' = enqueued_events t @ [(disabled_event uid now pkg cls caller, False)]
    \<and> (\<exists>u. get_uid_for_package b u pkg = Some uid)"
  using assms
  by (fastforce simp: Component_enqueue_event_def io_bind_Ok_iff quiet_def dest!: bridge_Ok clock_Ok)

text \<open>
  A component setting that is handled successfully: the item carries no error code and
  non-empty package and class names. If the new state is an enabled one, nothing happens. Otherwise
  the bridge was asked whether the component is a launcher activity; statsd was given the full report
  (not on user builds), then the pair of UIDs if it is one and the caller is known, with
  \<open>shell\<close> looked up as \<open>com.android.shell\<close>; and exactly when it is one, the bridge was sent one
  buffered event with the three names and the UID of the package.
\<close>

theorem Component_on_item_Ok:
  assumes "Component_on_item d clk b (CodegenAtomWriter_write env) task data (h, t) = (Ok (), (h', t'))"
  shows "\<exists>pkg cls caller launcher cu du uid now.
      0 \<le> sint (ces_error_code data)
    \<and> bytes_as_nonempty_str (ces_package_name data) = Ok pkg
    \<and> bytes_as_nonempty_str (ces_class_name data) = Ok cls
    \<and> bytes_as_str (ces_calling_package_name data) = Ok caller \<and> h' = h
    \<and> (if sint (ces_new_state data) < 2 then t' = t
       else accepted_calls t' = accepted_calls t
          @ (if is_user_build d then []
             else [set_component_enabled_setting_reported pkg cls (ces_new_state data) caller launcher])
          @ (if launcher \<and> caller \<noteq> [] then [disabled_launcher_activity_uids_reported cu du] else [])
        \<and> (launcher \<and> caller \<noteq> [] \<longrightarrow>
            (\<exists>u. get_uid_for_package b u (if caller = ''shell'' then ''com.android.shell'' else caller) = Some cu)
            \<and> (\<exists>u. get_uid_for_package b u pkg = Some du))
        \<and> enqueued_events t' = enqueued_events t
          @ (if launcher then [(disabled_event uid now pkg cls caller, False)] else []))"
proof -
  obtain pkg cls caller launcher h1 t1 where
    "0 \<le> sint (ces_error_code data)"
    "bytes_as_nonempty_str (ces_package_name data) = Ok pkg"
    "bytes_as_nonempty_str (ces_class_name data) = Ok cls"
    "bytes_as_str (ces_calling_package_name data) = Ok caller"
    and 1: "check_disabled_launcher_activity_and_log_to_statsd d b (CodegenAtomWriter_write env)
      pkg cls (ces_new_state data) caller (h, t) = (Ok launcher, (h1, t1))"
    and 2: "(if launcher then Component_enqueue_event d clk b pkg cls caller else ret ()) (h1, t1)
      = (Ok (), (h', t'))"
    using assms by (auto simp: Component_on_item_def io_bind_Ok_iff map_err_Ok_iff split: if_splits)
  moreover note check_disabled_Ok [OF 1]
  moreover have "\<exists>uid now. h' = h1 \<and> accepted_calls t' = accepted_calls t1 \<and> (launcher \<or> t' = t1)
      \<and> enqueued_events t' = enqueued_events t1
          @ (if launcher then [(disabled_event uid now pkg cls caller, False)] else [])"
    using 2 Component_enqueue_Ok [of d clk b pkg cls caller h1 t1 h' t'] by (cases launcher) auto
  ultimately show ?thesis
    by (cases "sint (ces_new_state data) < 2")
      ((intro exI conjI; (assumption | simp)?), (fastforce split: if_splits)+)
qed

lemma Bind_log_Ok:
  assumes "Bind_log_to_statsd d b (CodegenAtomWriter_write env) ipkg iaction icpkg iccls flgs caller
      (h, t) = (Ok (), (h', t'))"
  shows "h' = h \<and> accepted_atoms t' = accepted_atoms t \<and> enqueued_events t' = enqueued_events t \<and>
    (\<exists>bu eu. accepted_calls t' = accepted_calls t
       @ (if is_user_build d then []
          else [bind_service_locked_with_bal_flags_reported ipkg flgs caller iaction icpkg iccls])
       @ (if caller \<noteq> [] \<and> (ipkg \<noteq> [] \<or> icpkg \<noteq> [])
          then [bind_service_locked_with_bal_flags_uids_reported bu eu] else [])
       \<and> (caller \<noteq> [] \<and> (ipkg \<noteq> [] \<or> icpkg \<noteq> []) \<longrightarrow>
            (\<exists>u. get_uid_for_package b u caller = Some bu)
            \<and> (\<exists>u. get_uid_for_package b u (if ipkg \<noteq> [] then ipkg else icpkg) = Some eu)))"
  using assms
  by (auto simp: Bind_log_to_statsd_def io_bind_Ok_iff quiet_def Let_def
      split: if_splits dest!: bridge_Ok codegen_write_Ok)

lemma Bind_enqueue_Ok:
  assumes "Bind_enqueue_event d clk b ipkg iaction icpkg iccls caller (h, t) = (Ok (), (h', t'))"
  shows "\<exists>now. h' = h \<and> accepted_atoms t' = accepted_atoms t \<and> accepted_calls t' = accepted_calls t
    \<and> enqueued_events t' = enqueued_events t @ [(bind_event now ipkg iaction icpkg iccls caller, False)]"
  using assms
  by (fastforce simp: Bind_enqueue_event_def io_bind_Ok_iff quiet_def dest!: bridge_Ok clock_Ok)

text \<open>
  A service binding that is handled successfully: without the background-activity-start flag
  nothing happens. With it, statsd was given the full report (not on user builds), then the UIDs of
  binder and bindee if both packages are known, the bindee being the intent's package or else its
  component's; and the bridge was always sent exactly one buffered event with the five strings.
\<close>

theorem Bind_on_item_Ok:
  assumes "Bind_on_item d clk b (CodegenAtomWriter_write env) task data (h, t) = (Ok (), (h', t'))"
  shows "\<exists>caller ipkg iaction icpkg iccls bu eu now.
      map bytes_as_str [bsl_calling_package data, bsl_intent_package data, bsl_intent_action data,
        bsl_intent_component_name_package data, bsl_intent_component_name_class data]
      = map Ok [caller, ipkg, iaction, icpkg, iccls]
    \<and> h' = h
    \<and> (if bind_flags data AND BIND_ALLOW_BACKGROUND_ACTIVITY_STARTS = 0 then t' = t
       else accepted_calls t' = accepted_calls t
          @ (if is_user_build d then [] else
              [bind_service_locked_with_bal_flags_reported ipkg (bind_flags data) caller iaction icpkg iccls])
          @ (if caller \<noteq> [] \<and> (ipkg \<noteq> [] \<or> icpkg \<noteq> [])
             then [bind_service_locked_with_bal_flags_uids_reported bu eu] else [])
        \<and> (caller \<noteq> [] \<and> (ipkg \<noteq> [] \<or> icpkg \<noteq> []) \<longrightarrow>
            (\<exists>u. get_uid_for_package b u caller = Some bu)
            \<and> (\<exists>u. get_uid_for_package b u (if ipkg \<noteq> [] then ipkg else icpkg) = Some eu))
        \<and> enqueued_events t' = enqueued_events t
          @ [(bind_event now ipkg iaction icpkg iccls caller, False)])"
proof -
  obtain caller ipkg iaction icpkg iccls where
    s: "map bytes_as_str [bsl_calling_package data, bsl_intent_package data, bsl_intent_action data,
        bsl_intent_component_name_package data, bsl_intent_component_name_class data]
      = map Ok [caller, ipkg, iaction, icpkg, iccls]"
    and r: "(if bind_flags data AND BIND_ALLOW_BACKGROUND_ACTIVITY_STARTS = 0 then ret ()
       else io_then (Bind_log_to_statsd d b (CodegenAtomWriter_write env) ipkg iaction icpkg iccls
               (bind_flags data) caller)
             (Bind_enqueue_event d clk b ipkg iaction icpkg iccls caller)) (h, t) = (Ok (), (h', t'))"
    using assms by (auto simp: Bind_on_item_def io_bind_Ok_iff Let_def split: if_splits)
  show ?thesis
  proof (cases "bind_flags data AND BIND_ALLOW_BACKGROUND_ACTIVITY_STARTS = 0")
    case True
    with s r show ?thesis by (intro exI) auto
  next
    case False
    then obtain h1 t1 where
      1: "Bind_log_to_statsd d b (CodegenAtomWriter_write env) ipkg iaction icpkg iccls
            (bind_flags data) caller (h, t) = (Ok (), (h1, t1))"
      and 2: "Bind_enqueue_event d clk b ipkg iaction icpkg iccls caller (h1, t1) = (Ok (), (h', t'))"
      using r by (auto simp: io_bind_Ok_iff)
    obtain bu eu now where "h' = h" "accepted_calls t' = accepted_calls t
          @ (if is_user_build d then [] else
              [bind_service_locked_with_bal_flags_reported ipkg (bind_flags data) caller iaction icpkg iccls])
          @ (if caller \<noteq> [] \<and> (ipkg \<noteq> [] \<or> icpkg \<noteq> [])
             then [bind_service_locked_with_bal_flags_uids_reported bu eu] else [])"
      "caller \<noteq> [] \<and> (ipkg \<noteq> [] \<or> icpkg \<noteq> []) \<longrightarrow>
            (\<exists>u. get_uid_for_package b u caller = Some bu)
            \<and> (\<exists>u. get_uid_for_package b u (if ipkg \<noteq> [] then ipkg else icpkg) = Some eu)"
      "enqueued_events t' = enqueued_events t @ [(bind_event now ipkg iaction icpkg iccls caller, False)]"
      using Bind_log_Ok [OF 1] Bind_enqueue_Ok [OF 2] by metis
    with s False show ?thesis by (intro exI conjI) (assumption | simp)+
  qed
qed

subsection \<open>Concrete runs\<close>

definition example_setting :: ComponentEnabledSetting where
  "example_setting = \<lparr>ces_error_code = 0, ces_package_name = ''a.b'' @ [NUL],
     ces_class_name = ''C'' @ [NUL], ces_new_state = 2, ces_calling_package_name = ''shell'' @ [NUL]\<rparr>"

definition example_bind :: BindServiceLocked where
  "example_bind = \<lparr>bsl_error_code = 0, bsl_intent_action = [NUL], bsl_intent_package = ''p'' @ [NUL],
     bsl_intent_component_name_package = [NUL], bsl_intent_component_name_class = [NUL],
     bind_flags = 0x00100001, bsl_calling_package = ''q'' @ [NUL]\<rparr>"

lemma example_strings:
  "bytes_as_nonempty_str (''a.b'' @ [NUL]) = Ok ''a.b''"
  "bytes_as_nonempty_str (''C'' @ [NUL]) = Ok ''C''"
  "bytes_as_str (''shell'' @ [NUL]) = Ok ''shell''" "bytes_as_str [NUL] = Ok []"
  "bytes_as_str (''p'' @ [NUL]) = Ok ''p''" "bytes_as_str (''q'' @ [NUL]) = Ok ''q''"
  by code_simp+

lemma example_user: "is_user_build (example_device ''user'')"
  by (simp add: is_user_build_def example_device_def)

lemmas example_calls = example_bridge_calls example_timestamp example_writers

theorem disruptive_user_build_no_names_witness:
  "filter logs_names (snd (snd (Component_on_item (example_device ''user'') example_clock
       example_bridge (CodegenAtomWriter_write example_env) example_resolved example_setting ((), []))))
     = filter logs_names []"
  by (rule conjunct1 [OF disruptive_user_build_no_names [OF example_user]])

theorem Component_on_item_Ok_witness:
  "\<exists>t' pkg. Component_on_item (example_device ''user'') example_clock example_bridge
       (CodegenAtomWriter_write example_env) example_resolved example_setting ((), [])
       = (Ok (), ((), t'))
     \<and> bytes_as_nonempty_str (ces_package_name example_setting) = Ok pkg"
proof -
  obtain t' where r: "Component_on_item (example_device ''user'') example_clock example_bridge
       (CodegenAtomWriter_write example_env) example_resolved example_setting ((), [])
       = (Ok (), ((), t'))"
    by (simp add: component_defs example_setting_def example_strings [simplified] io_bind_def
        example_calls example_user COMPONENT_ENABLED_STATE_DISABLED_def)
  then show ?thesis using Component_on_item_Ok [OF r] by blast
qed

theorem Bind_on_item_Ok_witness:
  "\<exists>t' caller. Bind_on_item (example_device ''user'') example_clock example_bridge
       (CodegenAtomWriter_write example_env) example_resolved example_bind ((), [])
       = (Ok (), ((), t'))
     \<and> bytes_as_str (bsl_calling_package example_bind) = Ok caller"
proof -
  obtain t' where r: "Bind_on_item (example_device ''user'') example_clock example_bridge
       (CodegenAtomWriter_write example_env) example_resolved example_bind ((), [])
       = (Ok (), ((), t'))"
    by (simp add: bind_defs example_bind_def example_strings [simplified] io_bind_def
        example_calls example_user BIND_ALLOW_BACKGROUND_ACTIVITY_STARTS_def)
  then show ?thesis using Bind_on_item_Ok [OF r] by auto
qed

end
