(* ===== verification/Accessibility.thy ===== *)
theory Accessibility
  imports Handler
begin

section \<open>Accessibility and runtime permissions\<close>

text \<open>
  \<open>core/bpf_handler/accessibility.rs\<close>: permission grants to apps with an enabled accessibility
  service, and the calls such services make, are forwarded to the bridge service and collected
  per UID. When polling ends, every grant is logged with the calls of the same UID that preceded it
  within ten seconds.
\<close>

datatype EventType = RuntimePermissionGrant string | A11y i32

record Event =
  e_uid :: i32
  e_timestamp :: duration
  e_variant :: EventType

definition Event_new :: "i32 \<Rightarrow> u64 \<Rightarrow> EventType \<Rightarrow> Event" where
  "Event_new uid timestamp_ns v =
     \<lparr>e_uid = uid, e_timestamp = from_nanos timestamp_ns, e_variant = v\<rparr>"

record AccessibilityEvent =
  ae_error_code :: i32
  ae_timestamp_ns :: c_ulong
  ae_variant :: i32
  ae_package_name :: "char list"
  ae_permission_name :: "char list"
  ae_uid :: i32
  ae_code :: i32

record AccessibilityHandler =
  events :: "(i32, Event list) hashmap"

record AccessibilityRuntimePermissionGrant =
  g_uid :: i32
  g_timestamp :: duration
  g_permission_name :: string
  preceding_a11y_calls :: "(i32 \<times> duration) list"

definition Grant_new :: "i32 \<Rightarrow> duration \<Rightarrow> string \<Rightarrow> AccessibilityRuntimePermissionGrant" where
  "Grant_new uid timestamp permission =
     \<lparr>g_uid = uid, g_timestamp = timestamp, g_permission_name = permission,
      preceding_a11y_calls = []\<rparr>"

definition A11Y_EVENT_WINDOW :: duration where
  "A11Y_EVENT_WINDOW = from_secs 10"

definition ATOM_ID_ACCESSIBILITY_RUNTIME_PERMISSION_GRANT :: u32 where
  "ATOM_ID_ACCESSIBILITY_RUNTIME_PERMISSION_GRANT = 1217"

text \<open>\<open>impl From<Event>\<close>; the conversion of the timestamp is an \<open>unwrap\<close>.\<close>

definition aidl_event_from :: "Event \<Rightarrow> AidlEvent res" where
  "aidl_event_from e =
     (case try_into_signed (int (as_millis (e_timestamp e))) of
        Ok ms \<Rightarrow> Ok
          \<lparr>ev_uid = e_uid e, ev_timestampMs = ms,
           ev_payloadId = (case e_variant e of
               A11y _ \<Rightarrow> payload_id_as_i32 BinderTransactionId
             | RuntimePermissionGrant _ \<Rightarrow> payload_id_as_i32 RuntimePermissionGrantId),
           ev_payload = (case e_variant e of
               A11y code \<Rightarrow>
                 [\<lparr>entry_key = ''CODE'', entry_val = IntValue code\<rparr>,
                  \<lparr>entry_key = ''INTERFACE_NAME'', entry_val = StringValue
                     ''android.accessibilityservice.IAccessibilityServiceConnection''\<rparr>]
             | RuntimePermissionGrant permission \<Rightarrow>
                 [\<lparr>entry_key = ''PERMISSION_NAME'', entry_val = StringValue permission\<rparr>])\<rparr>
      | _ \<Rightarrow> Panic ''called Result::unwrap() on an Err value'')"

definition handle_permission_grant_event ::
  "device \<Rightarrow> bridge \<Rightarrow> AccessibilityEvent \<Rightarrow> u64 \<Rightarrow> ('h st, Event option) io" where
  "handle_permission_grant_event d b data timestamp_ns =
     io_bind (lift_res (bytes_as_nonempty_str (ae_package_name data))) (\<lambda>package_name.
     io_bind (lift_res (bytes_as_nonempty_str (ae_permission_name data))) (\<lambda>permission_name.
     if \<not> prefix ''android.permission'' permission_name then ret None
     else
       io_then (bridge_service_get d b)
       (io_bind (packageHasEnabledAccessibilityService b package_name) (\<lambda>has_enabled.
        if \<not> has_enabled then ret None
        else
          io_bind (getUidForPackage b package_name) (\<lambda>uid.
          let event = Event_new uid timestamp_ns (RuntimePermissionGrant permission_name) in
          io_bind (lift_res (aidl_event_from event)) (\<lambda>ev.
          io_then (enqueueEvent b ev False) (ret (Some event))))))))"

definition handle_a11y_event ::
  "device \<Rightarrow> bridge \<Rightarrow> AccessibilityEvent \<Rightarrow> u64 \<Rightarrow> ('h st, Event option) io" where
  "handle_a11y_event d b data timestamp_ns =
     (let event = Event_new (ae_uid data) timestamp_ns (A11y (ae_code data)) in
      io_then (bridge_service_get d b)
      (io_bind (lift_res (aidl_event_from event)) (\<lambda>ev.
       io_then (enqueueEvent b ev False)
         (ret (Some (Event_new (ae_uid data) timestamp_ns (A11y (ae_code data))))))))"

definition push_event :: "Event \<Rightarrow> AccessibilityHandler \<Rightarrow> AccessibilityHandler" where
  "push_event e h =
     h\<lparr>events := AList.update (e_uid e)
         ((case map_of (events h) (e_uid e) of Some es \<Rightarrow> es | None \<Rightarrow> []) @ [e]) (events h)\<rparr>"

definition Accessibility_on_item ::
  "device \<Rightarrow> bridge \<Rightarrow> ResolvedTask \<Rightarrow> AccessibilityEvent \<Rightarrow> (AccessibilityHandler st, unit) io" where
  "Accessibility_on_item d b task data =
     (if sint (ae_error_code data) < 0 then fail (Anyhow ''Accessibility BPF error: {}'')
      else
        io_bind
          (if ae_variant data = 1 then handle_permission_grant_event d b data (ae_timestamp_ns data)
           else if ae_variant data = 2 then handle_a11y_event d b data (ae_timestamp_ns data)
           else fail (Anyhow ''Invalid variant: {variant}''))
          (\<lambda>event. case event of None \<Rightarrow> ret () | Some e \<Rightarrow> modify_self (push_event e)))"

text \<open>The loop of \<open>associate_events\<close>: the grants written so far and the most recent one.\<close>

fun associate_loop ::
  "AccessibilityRuntimePermissionGrant list \<Rightarrow> AccessibilityRuntimePermissionGrant option
     \<Rightarrow> Event list \<Rightarrow> AccessibilityRuntimePermissionGrant list" where
  "associate_loop grants cur [] = (case cur of Some g \<Rightarrow> grants @ [g] | None \<Rightarrow> grants)"
| "associate_loop grants cur (e # es) =
     (case e_variant e of
        RuntimePermissionGrant permission_name \<Rightarrow>
          associate_loop (case cur of Some g \<Rightarrow> grants @ [g] | None \<Rightarrow> grants)
            (Some (Grant_new (e_uid e) (e_timestamp e) permission_name)) es
      | A11y code \<Rightarrow>
          (case cur of
             None \<Rightarrow> associate_loop grants None es
           | Some g \<Rightarrow>
               if g_timestamp g - e_timestamp e < A11Y_EVENT_WINDOW
               then associate_loop grants (Some (g\<lparr>preceding_a11y_calls :=
                      preceding_a11y_calls g @ [(code, e_timestamp e)]\<rparr>)) es
               else associate_loop grants (Some g) es))"

definition associate_events :: "Event list \<Rightarrow> AccessibilityRuntimePermissionGrant list" where
  "associate_events es = associate_loop [] None es"

text \<open>\<open>sort_by(|a, b| b.timestamp.cmp(&a.timestamp))\<close>, a stable sort.\<close>

definition sort_descending :: "Event list \<Rightarrow> Event list" where
  "sort_descending es = sort_key (\<lambda>e. - int (e_timestamp e)) es"

definition grant_atom :: "AccessibilityRuntimePermissionGrant \<Rightarrow> UnstructuredAtom res" where
  "grant_atom g =
     res_bind (try_into_signed (int (as_millis (g_timestamp g)))) (\<lambda>ms.
     res_bind (collect_res (\<lambda>(_, t). try_into_signed (int (as_millis t))) (preceding_a11y_calls g))
     (\<lambda>times.
       Ok \<lparr>ua_atom_id = ATOM_ID_ACCESSIBILITY_RUNTIME_PERMISSION_GRANT,
           ua_fields =
             [Field_new_with_annotation (VInt32 (g_uid g)) (IsUid True),
              Field_new (VString (g_permission_name g)),
              Field_new (VInt64 ms),
              Field_new (VInt32Vec (map fst (preceding_a11y_calls g))),
              Field_new (VInt64Vec times)]\<rparr>))"

definition Accessibility_on_finished ::
  "(AccessibilityHandler, UnstructuredAtom) writer \<Rightarrow> (AccessibilityHandler st, unit) io" where
  "Accessibility_on_finished write_atom =
     io_then (modify_self (\<lambda>h. h\<lparr>events := map (\<lambda>(uid, es). (uid, sort_descending es)) (events h)\<rparr>))
     (io_bind get_self (\<lambda>self.
      for_each (\<lambda>g. io_bind (lift_res (grant_atom g)) write_atom)
        (concat (map (\<lambda>(uid, es). associate_events es) (events self)))))"

definition AccessibilityHandler_dict where
  "AccessibilityHandler_dict d b write_atom =
     \<lparr>MAP_PATH = ''/sys/fs/bpf/uprobestats/map_Accessibility_output_buf'', PROG_PATH = None,
      h_default = \<lparr>events = []\<rparr>, on_item = Accessibility_on_item d b,
      on_finished = Accessibility_on_finished write_atom\<rparr>"

subsection \<open>The collected events\<close>

definition a11y_inv :: "AccessibilityHandler \<Rightarrow> bool" where
  "a11y_inv h \<longleftrightarrow> hm_wf (events h) \<and>
     list_all (\<lambda>(uid, es). list_all (\<lambda>e. e_uid e = uid \<and> as_millis (e_timestamp e) < 2 ^ 63) es) (events h)"

lemma push_event_inv:
  assumes "a11y_inv h" and "as_millis (e_timestamp e) < 2 ^ 63"
  shows "a11y_inv (push_event e h)"
proof -
  have "list_all (\<lambda>e. e_uid e = uid \<and> as_millis (e_timestamp e) < 2 ^ 63) es"
    if "map_of (events h) uid = Some es" for uid es
    using assms(1) map_of_SomeD [OF that] by (auto simp: a11y_inv_def list_all_iff)
  moreover have "set (AList.update k v m) \<subseteq> set m \<union> {(k, v)}" for k :: i32 and v :: "Event list" and m
    by (induction m) auto
  ultimately show ?thesis using assms
    by (fastforce simp: a11y_inv_def push_event_def hm_wf_def distinct_update list_all_iff
        split: option.splits)
qed

lemma handled_event:
  "handle_permission_grant_event d b data ts (h, t) = (Ok (Some e), s') \<Longrightarrow>
     as_millis (e_timestamp e) < 2 ^ 63"
  "handle_a11y_event d b data ts (h, t) = (Ok (Some e), s') \<Longrightarrow> as_millis (e_timestamp e) < 2 ^ 63"
  using as_millis_from_nanos [of ts]
  by (auto simp: handle_permission_grant_event_def handle_a11y_event_def io_bind_Ok_iff Let_def
      Event_new_def split: if_splits)

lemma handlers_keep:
  "io_steps (keeps P) (handle_permission_grant_event d b data ts)"
  "io_steps (keeps P) (handle_a11y_event d b data ts)"
  by (auto simp: handle_permission_grant_event_def handle_a11y_event_def Let_def
      intro!: keeps_intros keeps_bridge)

lemma handlers_grow:
  "io_steps grows (handle_permission_grant_event d b data ts)"
  "io_steps grows (handle_a11y_event d b data ts)"
  by (auto simp: handle_permission_grant_event_def handle_a11y_event_def Let_def
      intro!: grows_intros grows_bridge)

lemma push_if_some_keeps:
  assumes "io_steps (keeps a11y_inv) m"
    and "\<And>s e s'. m s = (Ok (Some e), s') \<Longrightarrow> as_millis (e_timestamp e) < 2 ^ 63"
  shows "io_steps (keeps a11y_inv)
           (io_bind m (\<lambda>event. case event of None \<Rightarrow> ret () | Some e \<Rightarrow> modify_self (push_event e)))"
  unfolding io_steps_def
proof
  fix s
  obtain r h' t' where m: "m s = (r, (h', t'))" by (cases "m s") auto
  then have "keeps a11y_inv s (h', t')" using assms(1) by (metis io_steps_def snd_conv)
  then show "keeps a11y_inv s (snd (io_bind m (\<lambda>event. case event of
      None \<Rightarrow> ret () | Some e \<Rightarrow> modify_self (push_event e)) s))"
    using m assms(2) [of s] by (auto simp: io_bind_def keeps_def push_event_inv split: res.split option.split)
qed

interpretation a11y: handler_contract
    "AccessibilityHandler_dict d b (AStatsEventWriter_write env)" a11y_inv
proof unfold_locales
  let ?d = "AccessibilityHandler_dict d b (AStatsEventWriter_write env)"
  have w: "io_steps (keeps a11y_inv) (AStatsEventWriter_write env a)" for a
    by (simp add: keeps_untouched stats.write_self)
  show "a11y_inv (h_default ?d)" by (simp add: AccessibilityHandler_dict_def a11y_inv_def hm_wf_def)
  show "io_steps (keeps a11y_inv) (on_item ?d task data)" for task data
  proof -
    have "io_steps (keeps a11y_inv) (Accessibility_on_item d b task data)"
      unfolding Accessibility_on_item_def
      by (intro keep.steps_if keep.steps_pure push_if_some_keeps handlers_keep)
        (auto split: if_splits dest: handled_event)
    then show ?thesis by (simp add: AccessibilityHandler_dict_def)
  qed
  show "io_steps (keeps a11y_inv) (on_finished ?d)"
  proof -
    have "a11y_inv (h\<lparr>events := map (\<lambda>(uid, es). (uid, sort_descending es)) (events h)\<rparr>)"
      if "a11y_inv h" for h
      using that by (auto simp: a11y_inv_def hm_wf_def list_all_iff sort_descending_def comp_def split_def)
    then show ?thesis
      by (auto simp: AccessibilityHandler_dict_def Accessibility_on_finished_def
          intro!: keeps_intros w)
  qed
  show "io_steps grows (on_item ?d task data)" for task data
    by (auto simp: AccessibilityHandler_dict_def Accessibility_on_item_def
        intro!: grows_intros handlers_grow split: option.split)
  show "io_steps grows (on_finished ?d)"
    by (auto simp: AccessibilityHandler_dict_def Accessibility_on_finished_def
        intro!: grows_intros stats.write_grows)
qed

subsection \<open>Which calls belong to which grant\<close>

definition is_a11y :: "Event \<Rightarrow> bool" where
  "is_a11y e = (case e_variant e of A11y _ \<Rightarrow> True | RuntimePermissionGrant _ \<Rightarrow> False)"

lemma is_a11y_simps [simp]:
  "e_variant e = A11y c \<Longrightarrow> is_a11y e"
  "e_variant e = RuntimePermissionGrant p \<Longrightarrow> \<not> is_a11y e"
  by (simp_all add: is_a11y_def)

lemma is_a11y_cases: "is_a11y e \<longleftrightarrow> (\<exists>c. e_variant e = A11y c)"
  by (simp add: is_a11y_def split: EventType.split)

definition call_of :: "Event \<Rightarrow> i32 \<times> duration" where
  "call_of e = (case e_variant e of A11y code \<Rightarrow> (code, e_timestamp e) | _ \<Rightarrow> (0, 0))"

text \<open>Reading the list directly: every grant takes the run of calls that follows it.\<close>

fun grants_of :: "Event list \<Rightarrow> AccessibilityRuntimePermissionGrant list" where
  "grants_of [] = []"
| "grants_of (e # es) =
     (case e_variant e of
        A11y _ \<Rightarrow> grants_of es
      | RuntimePermissionGrant permission \<Rightarrow>
          \<lparr>g_uid = e_uid e, g_timestamp = e_timestamp e, g_permission_name = permission,
           preceding_a11y_calls = map call_of
             (filter (\<lambda>c. e_timestamp e - e_timestamp c < A11Y_EVENT_WINDOW) (takeWhile is_a11y es))\<rparr>
          # grants_of es)"

lemma associate_loop_eq:
  "associate_loop grants cur es = grants @
     (case cur of
        None \<Rightarrow> []
      | Some g \<Rightarrow> [g\<lparr>preceding_a11y_calls := preceding_a11y_calls g @ map call_of
          (filter (\<lambda>c. g_timestamp g - e_timestamp c < A11Y_EVENT_WINDOW) (takeWhile is_a11y es))\<rparr>])
     @ grants_of es"
proof (induction es arbitrary: grants cur)
  case Nil
  then show ?case by (auto split: option.split)
next
  case (Cons e es)
  then show ?case
    by (auto simp: Grant_new_def call_of_def split: EventType.split option.split)
qed

lemma associate_events_eq: "associate_events es = grants_of es"
  by (simp add: associate_events_def associate_loop_eq)

lemma grants_of_mem:
  "g \<in> set (grants_of xs) \<Longrightarrow> \<exists>pre e post p. xs = pre @ e # post
     \<and> e_variant e = RuntimePermissionGrant p
     \<and> g = \<lparr>g_uid = e_uid e, g_timestamp = e_timestamp e, g_permission_name = p,
           preceding_a11y_calls = map call_of
             (filter (\<lambda>c. e_timestamp e - e_timestamp c < A11Y_EVENT_WINDOW) (takeWhile is_a11y post))\<rparr>"
proof (induction xs)
  case (Cons x xs)
  show ?case
  proof (cases "g \<in> set (grants_of xs)")
    case True
    with Cons.IH show ?thesis by (metis append_Cons)
  next
    case False
    with Cons.prems obtain p where "e_variant x = RuntimePermissionGrant p"
      and "g = \<lparr>g_uid = e_uid x, g_timestamp = e_timestamp x, g_permission_name = p,
           preceding_a11y_calls = map call_of
             (filter (\<lambda>c. e_timestamp x - e_timestamp c < A11Y_EVENT_WINDOW) (takeWhile is_a11y xs))\<rparr>"
      by (auto split: EventType.splits)
    then show ?thesis by (metis append_Nil)
  qed
qed simp

definition grant_key :: "Event \<Rightarrow> i32 \<times> duration \<times> string" where
  "grant_key e = (e_uid e, e_timestamp e,
     case e_variant e of RuntimePermissionGrant p \<Rightarrow> p | A11y _ \<Rightarrow> [])"

lemma grants_of_keys:
  "map (\<lambda>g. (g_uid g, g_timestamp g, g_permission_name g)) (grants_of xs) =
     map grant_key (filter (\<lambda>e. \<not> is_a11y e) xs)"
  by (induction xs) (auto simp: grant_key_def split: EventType.split)

lemma takeWhile_descending:
  assumes "sorted_wrt (\<lambda>a b. e_timestamp a > e_timestamp b) xs"
  shows "e \<in> set (takeWhile P xs) \<longleftrightarrow>
     e \<in> set xs \<and> (\<forall>x \<in> set xs. e_timestamp e \<le> e_timestamp x \<longrightarrow> P x)"
  using assms
proof (induction xs)
  case (Cons x xs)
  then have "\<forall>y \<in> set xs. e_timestamp y \<le> e_timestamp x" by auto
  with Cons show ?case by auto
qed simp

lemma sort_descending_strict:
  assumes "distinct (map e_timestamp es)"
  shows "sorted_wrt (\<lambda>a b. e_timestamp a > e_timestamp b) (sort_descending es)"
proof -
  let ?k = "\<lambda>e. - int (e_timestamp e)"
  have "sorted (map ?k (sort_descending es))" by (simp add: sort_descending_def)
  moreover have "distinct (map ?k es)"
    using assms by (auto simp: distinct_map inj_on_def)
  then have "distinct (map ?k (sort_descending es))"
    by (simp add: sort_descending_def distinct_map)
  ultimately have "sorted_wrt (<) (map ?k (sort_descending es))"
    by (simp only: strict_sorted_iff)
  then show ?thesis by (simp add: sorted_wrt_map)
qed

lemma grant_calls_iff:
  assumes distinct: "distinct (map e_timestamp es)" and mem_g: "g \<in> set (grants_of (sort_descending es))"
  shows "(c, t) \<in> set (preceding_a11y_calls g) \<longleftrightarrow>
        (\<exists>e \<in> set es. e_variant e = A11y c \<and> e_timestamp e = t \<and> t < g_timestamp g
           \<and> g_timestamp g - t < from_secs 10
           \<and> list_all (\<lambda>o'. is_a11y o' \<or> e_timestamp o' < t \<or> g_timestamp g \<le> e_timestamp o') es)"
proof -
  have set: "set (sort_descending es) = set es" by (simp add: sort_descending_def)
  from grants_of_mem [OF mem_g] obtain pre e0 post p where xs: "sort_descending es = pre @ e0 # post"
    and g: "g_timestamp g = e_timestamp e0" and calls: "preceding_a11y_calls g = map call_of
           (filter (\<lambda>c. e_timestamp e0 - e_timestamp c < A11Y_EVENT_WINDOW) (takeWhile is_a11y post))"
    and gr: "e_variant e0 = RuntimePermissionGrant p" by auto
  have st: "sorted_wrt (\<lambda>a b. e_timestamp a > e_timestamp b) (pre @ e0 # post)"
    using sort_descending_strict [OF distinct] xs by simp
  then have post: "sorted_wrt (\<lambda>a b. e_timestamp a > e_timestamp b) post"
    and lt: "\<forall>x \<in> set post. e_timestamp x < e_timestamp e0"
    and ge: "\<forall>x \<in> set pre. e_timestamp e0 < e_timestamp x"
    by (auto simp: sorted_wrt_append)
  have mem: "x \<in> set post \<longleftrightarrow> x \<in> set es \<and> e_timestamp x < e_timestamp e0" for x
    using lt ge set xs by (metis (no_types, lifting) Un_iff insert_iff list.set(2)
        order_less_asym order_less_irrefl set_append)
  have tw: "e \<in> set (takeWhile is_a11y post) \<longleftrightarrow> e \<in> set es \<and> e_timestamp e < e_timestamp e0
      \<and> (\<forall>x \<in> set es. is_a11y x \<or> e_timestamp x < e_timestamp e \<or> e_timestamp e0 \<le> e_timestamp x)"
    for e using takeWhile_descending [OF post, of e is_a11y] mem by (meson not_le)
  have "(c, t) \<in> set (preceding_a11y_calls g) \<longleftrightarrow>
      (\<exists>e \<in> set (takeWhile is_a11y post). e_variant e = A11y c \<and> e_timestamp e = t
         \<and> e_timestamp e0 - t < from_secs 10)"
  proof -
    have "(c, t) = call_of e \<longleftrightarrow> e_variant e = A11y c \<and> e_timestamp e = t"
      if "e \<in> set (takeWhile is_a11y post)" for e
      using set_takeWhileD [OF that] by (auto simp: is_a11y_cases call_of_def)
    then show ?thesis unfolding calls A11Y_EVENT_WINDOW_def by (fastforce simp: image_iff)
  qed
  also have "\<dots> \<longleftrightarrow> (\<exists>e \<in> set es. e_variant e = A11y c \<and> e_timestamp e = t \<and> t < g_timestamp g
         \<and> g_timestamp g - t < from_secs 10
         \<and> list_all (\<lambda>o'. is_a11y o' \<or> e_timestamp o' < t \<or> g_timestamp g \<le> e_timestamp o') es)"
    using tw unfolding g list_all_iff by blast
  finally show ?thesis .
qed

text \<open>
  C7. Associating calls with grants. For the events of one UID with pairwise different
  timestamps, sorted as the handler sorts them: every permission grant is reported exactly once,
  the most recent first; and a call is listed under a grant if and only if it happened before the
  grant, by less than ten seconds, with no other grant in between.
\<close>

theorem a11y_association:
  assumes "distinct (map e_timestamp es)"
  shows "map (\<lambda>g. (g_uid g, g_timestamp g, g_permission_name g)) (associate_events (sort_descending es))
           = map grant_key (filter (\<lambda>e. \<not> is_a11y e) (sort_descending es))
    \<and> mset (sort_descending es) = mset es
    \<and> list_all (\<lambda>g. \<forall>c t. (c, t) \<in> set (preceding_a11y_calls g) \<longleftrightarrow>
        (\<exists>e \<in> set es. e_variant e = A11y c \<and> e_timestamp e = t \<and> t < g_timestamp g
           \<and> g_timestamp g - t < from_secs 10
           \<and> list_all (\<lambda>o'. is_a11y o' \<or> e_timestamp o' < t \<or> g_timestamp g \<le> e_timestamp o') es))
       (associate_events (sort_descending es))"
proof -
  have "mset (sort_descending es) = mset es" by (simp add: sort_descending_def)
  then show ?thesis using grant_calls_iff [OF assms]
    unfolding associate_events_eq list_all_iff by (simp add: grants_of_keys)
qed

subsection \<open>The report\<close>

lemma calls_in_range:
  assumes "list_all (\<lambda>e. as_millis (e_timestamp e) < 2 ^ 63) es" and "g \<in> set (grants_of es)"
  shows "as_millis (g_timestamp g) < 2 ^ 63"
    and "list_all (\<lambda>(c, t). as_millis t < 2 ^ 63) (preceding_a11y_calls g)"
proof -
  obtain pre e post p where es: "es = pre @ e # post" and "g_timestamp g = e_timestamp e"
    and c: "preceding_a11y_calls g = map call_of
       (filter (\<lambda>c. e_timestamp e - e_timestamp c < A11Y_EVENT_WINDOW) (takeWhile is_a11y post))"
    using grants_of_mem [OF assms(2)] by auto
  then show "as_millis (g_timestamp g) < 2 ^ 63" using assms(1) by simp
  show "list_all (\<lambda>(c, t). as_millis t < 2 ^ 63) (preceding_a11y_calls g)"
    using assms(1) unfolding c es
    by (auto simp: list_all_iff call_of_def as_millis_def split: EventType.split dest!: set_takeWhileD)
qed

definition grant_report :: "AccessibilityRuntimePermissionGrant \<Rightarrow> UnstructuredAtom" where
  "grant_report g =
     \<lparr>ua_atom_id = 1217,
      ua_fields =
        [Field_new_with_annotation (VInt32 (g_uid g)) (IsUid True),
         Field_new (VString (g_permission_name g)),
         Field_new (VInt64 (word_of_nat (as_millis (g_timestamp g)))),
         Field_new (VInt32Vec (map fst (preceding_a11y_calls g))),
         Field_new (VInt64Vec (map (\<lambda>(c, t). word_of_nat (as_millis t)) (preceding_a11y_calls g)))]\<rparr>"

lemma grant_atom_total:
  assumes "as_millis (g_timestamp g) < 2 ^ 63"
    and "list_all (\<lambda>(c, t). as_millis t < 2 ^ 63) (preceding_a11y_calls g)"
  shows "grant_atom g = Ok (grant_report g)"
proof -
  have conv: "try_into_signed (int n) = Ok (word_of_nat n :: i64)" if "n < 2 ^ 63" for n
  proof -
    have "int n < 2 ^ 63" using that by simp
    then show ?thesis by (simp add: try_into_signed_def)
  qed
  have "collect_res (\<lambda>(_, t). try_into_signed (int (as_millis t))) cs =
      Ok (map (\<lambda>(c, t). word_of_nat (as_millis t) :: i64) cs)"
    if "list_all (\<lambda>(c, t). as_millis t < 2 ^ 63) cs" for cs :: "(i32 \<times> duration) list"
    using that by (intro collect_res_total) (auto simp: conv list_all_iff)
  then show ?thesis using assms conv
    by (simp add: grant_atom_def grant_report_def ATOM_ID_ACCESSIBILITY_RUNTIME_PERMISSION_GRANT_def)
qed

text \<open>
  The end of a poll: for any collected events, no conversion fails or panics, and the handler
  writes one atom per permission grant, UID by UID; if the writer accepts them all, statsd has
  received all of them in order, and otherwise an initial part.
\<close>

theorem Accessibility_on_finished_reports:
  assumes "a11y_inv h"
    and "Accessibility_on_finished (AStatsEventWriter_write env) (h, t) = (r, (h', t'))"
    and "reports = map grant_report (concat (map (associate_events \<circ> sort_descending \<circ> snd) (events h)))"
  shows "\<exists>n. accepted_atoms t' = accepted_atoms t @ take n reports \<and> n \<le> length reports
    \<and> (r = Ok () \<longleftrightarrow> n = length reports) \<and> returns r"
proof -
  let ?w = "AStatsEventWriter_write env :: (AccessibilityHandler, UnstructuredAtom) writer"
  let ?h = "h\<lparr>events := map (\<lambda>(uid, es). (uid, sort_descending es)) (events h)\<rparr>"
  let ?gs = "concat (map (associate_events \<circ> sort_descending \<circ> snd) (events h))"
  have "grant_atom g = Ok (grant_report g)" if "g \<in> set ?gs" for g
  proof -
    from that have "\<exists>uid es. (uid, es) \<in> set (events h) \<and> g \<in> set (grants_of (sort_descending es))"
      by (fastforce simp: associate_events_eq)
    then obtain uid es where "(uid, es) \<in> set (events h)"
      and g: "g \<in> set (grants_of (sort_descending es))" by blast
    then have "list_all (\<lambda>e. as_millis (e_timestamp e) < 2 ^ 63) (sort_descending es)"
      using assms(1) by (auto simp: a11y_inv_def list_all_iff sort_descending_def)
    from calls_in_range [OF this g] show ?thesis by (rule grant_atom_total)
  qed
  then have "for_each (\<lambda>g. io_bind (lift_res (grant_atom g)) ?w) ?gs =
      for_each (\<lambda>g. ?w (grant_report g)) ?gs" by (intro for_each_cong_set) simp
  also have "\<dots> = for_each ?w (map grant_report ?gs)" by (rule for_each_map)
  finally have "for_each (\<lambda>g. io_bind (lift_res (grant_atom g)) ?w) ?gs = for_each ?w reports"
    using assms(3) by simp
  moreover have "concat (map (\<lambda>(uid, es). associate_events es) (events ?h)) = ?gs"
    by (simp add: comp_def split_def)
  ultimately have "for_each ?w reports (?h, t) = (r, (h', t'))"
    using assms(2) by (simp add: Accessibility_on_finished_def)
  then show ?thesis using stats.for_each_write [of reports t env ?h] by auto
qed

definition example_a11y :: "Event list" where
  "example_a11y =
     [\<lparr>e_uid = 10001, e_timestamp = 1000000000, e_variant = A11y 5\<rparr>,
      \<lparr>e_uid = 10001, e_timestamp = 3000000000, e_variant = RuntimePermissionGrant ''android.permission.CAMERA''\<rparr>]"

theorem a11y_association_witness:
  "map (\<lambda>g. (g_uid g, g_timestamp g, g_permission_name g)) (associate_events (sort_descending example_a11y))
     = map grant_key (filter (\<lambda>e. \<not> is_a11y e) (sort_descending example_a11y))"
  by (rule conjunct1 [OF a11y_association]) (simp add: example_a11y_def)

theorem Accessibility_on_finished_reports_witness:
  "\<exists>n r h' t'. Accessibility_on_finished (AStatsEventWriter_write example_env)
         (\<lparr>events = [(10001, example_a11y)]\<rparr>, []) = (r, (h', t'))
     \<and> accepted_atoms t' = [] @ take n (map grant_report (concat (map (associate_events \<circ>
         sort_descending \<circ> snd) [(10001, example_a11y)]))) \<and> returns r"
proof -
  let ?h = "\<lparr>events = [(10001, example_a11y)]\<rparr>"
  obtain r h' t' where run: "Accessibility_on_finished (AStatsEventWriter_write example_env) (?h, []) = (r, (h', t'))"
    using prod.exhaust by metis
  have "a11y_inv ?h" by (simp add: a11y_inv_def hm_wf_def example_a11y_def as_millis_def)
  from Accessibility_on_finished_reports [OF this run refl] obtain n where
    "accepted_atoms t' = accepted_atoms [] @ take n (map grant_report
       (concat (map (associate_events \<circ> sort_descending \<circ> snd) (events ?h))))" "returns r"
    by blast
  then show ?thesis using run
    by (intro exI [of _ n] exI [of _ r] exI [of _ h'] exI [of _ t'] conjI)
      (simp_all add: List.map_filter_simps)
qed

end
