(* ===== verification/Bridge_Handler_Tests.thy ===== *)
theory Bridge_Handler_Tests
  imports Handler_Tests Disruptive_App Accessibility
begin

section \<open>The unit tests of the handlers that ask the bridge service\<close>

text \<open>
  The unit tests of \<open>core/bpf_handler/disruptive_app.rs\<close> and \<open>core/bpf_handler/accessibility.rs\<close>, as definitions over the
  model with the mock of the bridge service, one per test and with its name.
\<close>

subsection \<open>disruptive_app.rs\<close>

definition TestDeviceProperties :: "bool \<Rightarrow> device" where
  "TestDeviceProperties user = example_device (if user then ''user'' else ''userdebug'')"

definition component_on_item ::
  "MockIUprobeStatsBridgeService \<Rightarrow> bool \<Rightarrow> ComponentEnabledSetting \<Rightarrow> unit res \<times> trace" where
  "component_on_item m user data =
     run_on () (Component_on_item (TestDeviceProperties user) example_clock (TestUprobeStatsBridgeService m)
       codegen_writer (create_task 0) data)"

definition bind_on_item ::
  "MockIUprobeStatsBridgeService \<Rightarrow> bool \<Rightarrow> BindServiceLocked \<Rightarrow> unit res \<times> trace" where
  "bind_on_item m user data =
     run_on () (Bind_on_item (TestDeviceProperties user) example_clock (TestUprobeStatsBridgeService m)
       codegen_writer (create_task 0) data)"

definition create_component_enabled_setting ::
  "string \<Rightarrow> string \<Rightarrow> i32 \<Rightarrow> string \<Rightarrow> ComponentEnabledSetting" where
  "create_component_enabled_setting package_name class_name new_state calling_package_name =
     \<lparr>ces_error_code = 0, ces_package_name = c_str_arr 128 package_name, ces_class_name = c_str_arr 128 class_name,
      ces_new_state = new_state, ces_calling_package_name = c_str_arr 128 calling_package_name\<rparr>"

definition create_bind_service_locked ::
  "string \<Rightarrow> string \<Rightarrow> string \<Rightarrow> c_long \<Rightarrow> string option \<Rightarrow> string option \<Rightarrow> BindServiceLocked" where
  "create_bind_service_locked intent_package cpkg calling_package bflags intent_action ccls =
     (let unwrap_or_empty = (\<lambda>s. case s of None \<Rightarrow> [] | Some s \<Rightarrow> s) in
      \<lparr>bsl_error_code = 0, bsl_intent_action = c_str_arr 128 (unwrap_or_empty intent_action),
       bsl_intent_package = c_str_arr 128 intent_package,
       bsl_intent_component_name_package = c_str_arr 128 cpkg,
       bsl_intent_component_name_class = c_str_arr 128 (unwrap_or_empty ccls),
       bind_flags = bflags, bsl_calling_package = c_str_arr 128 calling_package\<rparr>)"

definition expect_enqueue_disabled_launcher_activity_event ::
  "i32 \<Rightarrow> string \<Rightarrow> string \<Rightarrow> string \<Rightarrow> AidlEvent \<Rightarrow> bool \<Rightarrow> bool" where
  "expect_enqueue_disabled_launcher_activity_event disabled_uid disabled_pkg class_name calling_pkg event flsh =
     (if ev_uid event \<noteq> disabled_uid then False
      else if ev_payloadId event \<noteq> payload_id_as_i32 DisabledLauncherActivityId then False
      else has_entry event ''PACKAGE_NAME'' (StringValue disabled_pkg)
        \<and> has_entry event ''CLASS_NAME'' (StringValue class_name)
        \<and> has_entry event ''CALLING_PACKAGE_NAME'' (StringValue calling_pkg))"

definition expect_enqueue_bind_service_with_bal_event ::
  "string \<Rightarrow> string \<Rightarrow> string \<Rightarrow> string \<Rightarrow> string \<Rightarrow> AidlEvent \<Rightarrow> bool \<Rightarrow> bool" where
  "expect_enqueue_bind_service_with_bal_event binder_pkg intent_pkg intent_action component_pkg component_class
       event flsh =
     (if ev_uid event \<noteq> 0 then False
      else if ev_payloadId event \<noteq> payload_id_as_i32 BindAllowBackgroundActivityStartsId then False
      else has_entry event ''CALLING_PACKAGE'' (StringValue binder_pkg)
        \<and> has_entry event ''INTENT_PACKAGE'' (StringValue intent_pkg)
        \<and> has_entry event ''INTENT_ACTION'' (StringValue intent_action)
        \<and> has_entry event ''INTENT_COMPONENT_NAME_PACKAGE'' (StringValue component_pkg)
        \<and> has_entry event ''INTENT_COMPONENT_NAME_CLASS'' (StringValue component_class))"

definition component_enabled_setting_enabled_is_ignored :: bool where
  "component_enabled_setting_enabled_is_ignored =
     passes is_Ok (\<lambda>t. codegen_written [] t \<and> mock_satisfied Mock_new t)
       (component_on_item Mock_new False (create_component_enabled_setting ''pkg'' ''cls'' 1 ''caller''))"

definition assert_component_enabled_setting_launcher_activity :: "bool \<Rightarrow> bool" where
  "assert_component_enabled_setting_launcher_activity user =
     (let m = Mock_new\<lparr>expect_isLauncherActivity := Some True,
            expect_getUidForPackage := [(''caller'', Some 123), (''pkg'', Some 456)],
            expect_enqueueEvent := [expect_enqueue_disabled_launcher_activity_event 456 ''pkg'' ''cls'' ''caller'']\<rparr> in
      passes is_Ok
        (\<lambda>t. codegen_written
           ((if user then []
             else [SetComponentEnabledSettingReported ''pkg'' ''cls'' COMPONENT_ENABLED_STATE_DISABLED ''caller'' True])
            @ [DisabledLauncherActivityUidsReported 123 456]) t \<and> mock_satisfied m t)
        (component_on_item m user
           (create_component_enabled_setting ''pkg'' ''cls'' COMPONENT_ENABLED_STATE_DISABLED ''caller'')))"

definition component_enabled_setting_launcher_activity :: bool where
  "component_enabled_setting_launcher_activity =
     (assert_component_enabled_setting_launcher_activity True
      \<and> assert_component_enabled_setting_launcher_activity False)"

definition component_enabled_setting_non_launcher_activity :: bool where
  "component_enabled_setting_non_launcher_activity =
     (let m = Mock_new\<lparr>expect_isLauncherActivity := Some False\<rparr> in
      passes is_Ok
        (\<lambda>t. (case accepted_calls t of
               [set_component_enabled_setting_reported _ _ _ _ _] \<Rightarrow> True | _ \<Rightarrow> False) \<and> mock_satisfied m t)
        (component_on_item m False
           (create_component_enabled_setting ''pkg'' ''cls'' COMPONENT_ENABLED_STATE_DISABLED ''caller'')))"

definition component_enabled_setting_shell_caller :: bool where
  "component_enabled_setting_shell_caller =
     (let m = Mock_new\<lparr>expect_isLauncherActivity := Some True,
            expect_getUidForPackage := [(''com.android.shell'', Some 123), (''pkg'', Some 456)],
            expect_enqueueEvent := [expect_enqueue_disabled_launcher_activity_event 456 ''pkg'' ''cls'' ''shell'']\<rparr> in
      passes is_Ok (\<lambda>t. codegen_written [DisabledLauncherActivityUidsReported 123 456] t \<and> mock_satisfied m t)
        (component_on_item m True
           (create_component_enabled_setting ''pkg'' ''cls'' COMPONENT_ENABLED_STATE_DISABLED ''shell'')))"

definition bind_service_locked_no_bal_is_ignored :: bool where
  "bind_service_locked_no_bal_is_ignored =
     passes is_Ok (\<lambda>t. codegen_written [] t \<and> mock_satisfied Mock_new t)
       (bind_on_item Mock_new False (create_bind_service_locked ''pkg'' ''comp_pkg'' ''caller'' 0 None None))"

definition assert_bind_service_locked_with_bal :: "bool \<Rightarrow> bool" where
  "assert_bind_service_locked_with_bal user =
     (let m = Mock_new\<lparr>expect_getUidForPackage := [(''caller'', Some 123), (''pkg'', Some 456)],
            expect_enqueueEvent :=
              [expect_enqueue_bind_service_with_bal_event ''caller'' ''pkg'' ''action'' ''comp_pkg'' ''comp_cls'']\<rparr> in
      passes is_Ok
        (\<lambda>t. (case accepted_calls t of
               [atom2] \<Rightarrow> user \<and> atom2 = codegen_call (BindServiceLockedWithBalFlagsUidsReported 123 456)
             | [bind_service_locked_with_bal_flags_reported _ _ _ _ _ _, atom2] \<Rightarrow>
                 \<not> user \<and> atom2 = codegen_call (BindServiceLockedWithBalFlagsUidsReported 123 456)
             | _ \<Rightarrow> False) \<and> mock_satisfied m t)
        (bind_on_item m user (create_bind_service_locked ''pkg'' ''comp_pkg'' ''caller''
           BIND_ALLOW_BACKGROUND_ACTIVITY_STARTS (Some ''action'') (Some ''comp_cls''))))"

definition bind_service_locked_with_bal :: bool where
  "bind_service_locked_with_bal =
     (assert_bind_service_locked_with_bal True \<and> assert_bind_service_locked_with_bal False)"

definition bind_service_locked_with_bal_empty_intent_package :: bool where
  "bind_service_locked_with_bal_empty_intent_package =
     (let m = Mock_new\<lparr>expect_getUidForPackage := [(''caller'', Some 123), (''comp_pkg'', Some 456)],
            expect_enqueueEvent := [expect_enqueue_bind_service_with_bal_event ''caller'' [] [] ''comp_pkg'' []]\<rparr> in
      passes is_Ok (\<lambda>t. codegen_written [BindServiceLockedWithBalFlagsUidsReported 123 456] t \<and> mock_satisfied m t)
        (bind_on_item m True (create_bind_service_locked [] ''comp_pkg'' ''caller''
           BIND_ALLOW_BACKGROUND_ACTIVITY_STARTS None None)))"

definition is_BpfDataInvalid :: "'a res \<Rightarrow> bool" where
  "is_BpfDataInvalid r = (case r of Err (BpfDataInvalid _) \<Rightarrow> True | _ \<Rightarrow> False)"

text \<open>Three calls on one handler, which has no state.\<close>

definition component_enabled_setting_empty_fields_fail :: bool where
  "component_enabled_setting_empty_fields_fail =
     (let m = Mock_new\<lparr>expect_isLauncherActivity := Some False\<rparr> in
      passes is_BpfDataInvalid (mock_satisfied m) (component_on_item m False
        (create_component_enabled_setting [] ''cls'' COMPONENT_ENABLED_STATE_DISABLED ''caller''))
      \<and> passes is_BpfDataInvalid (mock_satisfied m) (component_on_item m False
        (create_component_enabled_setting ''pkg'' [] COMPONENT_ENABLED_STATE_DISABLED ''caller''))
      \<and> passes is_Ok (mock_satisfied m) (component_on_item m False
        (create_component_enabled_setting ''pkg'' ''cls'' COMPONENT_ENABLED_STATE_DISABLED [])))"

definition only_bal_flags_reported :: "trace \<Rightarrow> bool" where
  "only_bal_flags_reported t =
     (case accepted_calls t of [bind_service_locked_with_bal_flags_reported _ _ _ _ _ _] \<Rightarrow> True | _ \<Rightarrow> False)"

definition bind_service_locked_empty_calling_package_no_uid_atom :: bool where
  "bind_service_locked_empty_calling_package_no_uid_atom =
     (let m = Mock_new\<lparr>expect_enqueueEvent :=
            [expect_enqueue_bind_service_with_bal_event [] ''pkg'' [] ''comp_pkg'' []]\<rparr> in
      passes is_Ok (\<lambda>t. only_bal_flags_reported t \<and> mock_satisfied m t)
        (bind_on_item m False (create_bind_service_locked ''pkg'' ''comp_pkg'' []
           BIND_ALLOW_BACKGROUND_ACTIVITY_STARTS None None)))"

definition bind_service_locked_empty_intent_packages_no_uid_atom :: bool where
  "bind_service_locked_empty_intent_packages_no_uid_atom =
     (let m = Mock_new\<lparr>expect_enqueueEvent :=
            [expect_enqueue_bind_service_with_bal_event ''caller'' [] [] [] []]\<rparr> in
      passes is_Ok (\<lambda>t. only_bal_flags_reported t \<and> mock_satisfied m t)
        (bind_on_item m False (create_bind_service_locked [] [] ''caller''
           BIND_ALLOW_BACKGROUND_ACTIVITY_STARTS None None)))"

definition bind_service_locked_all_empty_fails :: bool where
  "bind_service_locked_all_empty_fails =
     passes is_err (mock_satisfied Mock_new)
       (bind_on_item Mock_new False (create_bind_service_locked [] [] [] 0 None None))"

definition is_BpfProgramError :: "i64 \<Rightarrow> 'a res \<Rightarrow> bool" where
  "is_BpfProgramError code r = (case r of Err (BpfProgramError c) \<Rightarrow> c = code | _ \<Rightarrow> False)"

definition component_enabled_setting_with_error_bails :: bool where
  "component_enabled_setting_with_error_bails =
     passes (is_BpfProgramError (- 1)) (\<lambda>t. codegen_written [] t \<and> mock_satisfied Mock_new t)
       (component_on_item Mock_new False
          ((create_component_enabled_setting ''pkg'' ''cls'' 2 ''caller'')\<lparr>ces_error_code := - 1\<rparr>))"

definition bind_service_locked_with_error_bails :: bool where
  "bind_service_locked_with_error_bails =
     passes (is_BpfProgramError (- 1)) (\<lambda>t. codegen_written [] t \<and> mock_satisfied Mock_new t)
       (bind_on_item Mock_new False
          ((create_bind_service_locked ''pkg'' ''comp_pkg'' ''caller'' BIND_ALLOW_BACKGROUND_ACTIVITY_STARTS None None)
             \<lparr>bsl_error_code := - 1\<rparr>))"

lemma component_tests_pass:
  "component_enabled_setting_enabled_is_ignored" "component_enabled_setting_launcher_activity"
  "component_enabled_setting_non_launcher_activity" "component_enabled_setting_shell_caller"
  "component_enabled_setting_empty_fields_fail" "component_enabled_setting_with_error_bails"
  by code_simp+

lemma bind_tests_pass:
  "bind_service_locked_no_bal_is_ignored" "bind_service_locked_with_bal"
  "bind_service_locked_with_bal_empty_intent_package" "bind_service_locked_empty_calling_package_no_uid_atom"
  "bind_service_locked_empty_intent_packages_no_uid_atom" "bind_service_locked_all_empty_fails"
  "bind_service_locked_with_error_bails"
  by code_simp+

subsection \<open>accessibility.rs\<close>

abbreviation (input) "TEST_PACKAGE_NAME \<equiv> ''pkg.name''"
abbreviation (input) "TEST_PERMISSION_NAME \<equiv> ''android.permission.A''"
abbreviation (input) "TEST_UID \<equiv> 123"
abbreviation (input) "TEST_A11Y_CODE \<equiv> 456"

definition A11y_setup_handler_and_task :: ResolvedTask where
  "A11y_setup_handler_and_task =
     \<lparr>rt_id = 1, rt_duration = from_secs 0,
      resolved_process = \<lparr>rp_pid = 0, rp_uid = TEST_UID, rp_name = TEST_PACKAGE_NAME\<rparr>,
      bpf_map_paths = [], statsd_logging_config = None, resolved_probes = []\<rparr>"

definition create_permission_event :: "string \<Rightarrow> string \<Rightarrow> duration \<Rightarrow> AccessibilityEvent" where
  "create_permission_event pkg_name perm_name timestamp =
     \<lparr>ae_error_code = 0, ae_timestamp_ns = of_nat timestamp, ae_variant = 1,
      ae_package_name = c_str_arr 128 pkg_name, ae_permission_name = c_str_arr 128 perm_name,
      ae_uid = 0, ae_code = 0\<rparr>"

definition create_a11y_event :: "i32 \<Rightarrow> i32 \<Rightarrow> duration \<Rightarrow> AccessibilityEvent" where
  "create_a11y_event uid code timestamp =
     \<lparr>ae_error_code = 0, ae_timestamp_ns = of_nat timestamp, ae_variant = 2,
      ae_package_name = replicate 128 NUL, ae_permission_name = replicate 128 NUL,
      ae_uid = uid, ae_code = code\<rparr>"

definition expect_enqueue_a11y_event :: "i32 \<Rightarrow> duration \<Rightarrow> i32 \<Rightarrow> AidlEvent \<Rightarrow> bool \<Rightarrow> bool" where
  "expect_enqueue_a11y_event uid timestamp code event flsh =
     (if flsh then False
      else if ev_uid event \<noteq> uid then False
      else if ev_timestampMs event \<noteq> of_nat (as_millis timestamp) then False
      else if ev_payloadId event \<noteq> payload_id_as_i32 BinderTransactionId then False
      else has_entry event ''CODE'' (IntValue code)
        \<and> has_entry event ''INTERFACE_NAME''
            (StringValue ''android.accessibilityservice.IAccessibilityServiceConnection''))"

definition expect_enqueue_permission_grant_event :: "i32 \<Rightarrow> duration \<Rightarrow> string \<Rightarrow> AidlEvent \<Rightarrow> bool \<Rightarrow> bool" where
  "expect_enqueue_permission_grant_event uid timestamp permission_name event flsh =
     (if flsh then False
      else if ev_uid event \<noteq> uid then False
      else if ev_timestampMs event \<noteq> of_nat (as_millis timestamp) then False
      else if ev_payloadId event \<noteq> payload_id_as_i32 RuntimePermissionGrantId then False
      else has_entry event ''PERMISSION_NAME'' (StringValue permission_name))"

definition a11y_on_item :: "MockIUprobeStatsBridgeService \<Rightarrow> AccessibilityEvent \<Rightarrow> (AccessibilityHandler st, unit) io" where
  "a11y_on_item m data =
     Accessibility_on_item (example_device ''user'') (TestUprobeStatsBridgeService m) A11y_setup_handler_and_task data"

text \<open>Items and then \<open>on_finished\<close>, or one item only.\<close>

definition a11y_test :: "MockIUprobeStatsBridgeService \<Rightarrow> AccessibilityEvent list \<Rightarrow> unit res \<times> trace" where
  "a11y_test m es =
     run_on \<lparr>events = []\<rparr> (io_then (for_each (a11y_on_item m) es) (Accessibility_on_finished stats_writer))"

definition a11y_item :: "MockIUprobeStatsBridgeService \<Rightarrow> AccessibilityEvent \<Rightarrow> unit res \<times> trace" where
  "a11y_item m e = run_on \<lparr>events = []\<rparr> (a11y_on_item m e)"

text \<open>The atom that the tests expect for a grant, and the mock that most of them start from.\<close>

definition expected_grant_atom :: "i32 \<Rightarrow> string \<Rightarrow> duration \<Rightarrow> i32 list \<Rightarrow> duration list \<Rightarrow> UnstructuredAtom" where
  "expected_grant_atom uid permission_name timestamp codes timestamps =
     \<lparr>ua_atom_id = ATOM_ID_ACCESSIBILITY_RUNTIME_PERMISSION_GRANT, ua_fields =
       [Field_new_with_annotation (VInt32 uid) (IsUid True), Field_new (VString permission_name),
        Field_new (VInt64 (of_nat (as_millis timestamp))), Field_new (VInt32Vec codes),
        Field_new (VInt64Vec (map (\<lambda>t. of_nat (as_millis t)) timestamps))]\<rparr>"

definition enabled_mock :: "(AidlEvent \<Rightarrow> bool \<Rightarrow> bool) list \<Rightarrow> MockIUprobeStatsBridgeService" where
  "enabled_mock evs = Mock_new\<lparr>expect_packageHasEnabledAccessibilityService := [(TEST_PACKAGE_NAME, Some True)],
     expect_getUidForPackage := [(TEST_PACKAGE_NAME, Some TEST_UID)], expect_enqueueEvent := evs\<rparr>"

definition permission_grant_after_a11y_event_is_reported :: bool where
  "permission_grant_after_a11y_event_is_reported =
     (let a11y_timestamp = from_secs 1; permission_timestamp = from_secs 2;
          m = enabled_mock [expect_enqueue_a11y_event TEST_UID a11y_timestamp TEST_A11Y_CODE,
            expect_enqueue_permission_grant_event TEST_UID permission_timestamp TEST_PERMISSION_NAME] in
      passes is_Ok (\<lambda>t. written [expected_grant_atom TEST_UID TEST_PERMISSION_NAME permission_timestamp [TEST_A11Y_CODE]
          [a11y_timestamp]] t \<and> mock_satisfied m t)
        (a11y_test m [create_a11y_event TEST_UID TEST_A11Y_CODE a11y_timestamp,
           create_permission_event TEST_PACKAGE_NAME TEST_PERMISSION_NAME permission_timestamp]))"

definition non_android_permission_is_ignored :: bool where
  "non_android_permission_is_ignored =
     passes is_Ok (\<lambda>t. written [] t \<and> mock_satisfied Mock_new t)
       (a11y_test Mock_new [create_permission_event TEST_PACKAGE_NAME ''com.example.permission'' (from_millis 2000)])"

definition no_enabled_a11y_service_is_ignored :: bool where
  "no_enabled_a11y_service_is_ignored =
     (let m = Mock_new\<lparr>expect_packageHasEnabledAccessibilityService := [(TEST_PACKAGE_NAME, Some False)]\<rparr> in
      passes is_Ok (\<lambda>t. written [] t \<and> mock_satisfied m t)
        (a11y_test m [create_permission_event TEST_PACKAGE_NAME TEST_PERMISSION_NAME (from_millis 2000)]))"

definition package_has_enabled_a11y_service_error_is_propagated :: bool where
  "package_has_enabled_a11y_service_error_is_propagated =
     (let m = Mock_new\<lparr>expect_packageHasEnabledAccessibilityService := [(TEST_PACKAGE_NAME, None)]\<rparr> in
      passes is_err (mock_satisfied m)
        (a11y_item m (create_permission_event TEST_PACKAGE_NAME TEST_PERMISSION_NAME (from_millis 2000))))"

definition get_uid_for_package_error_is_propagated :: bool where
  "get_uid_for_package_error_is_propagated =
     (let m = Mock_new\<lparr>expect_packageHasEnabledAccessibilityService := [(TEST_PACKAGE_NAME, Some True)],
            expect_getUidForPackage := [(TEST_PACKAGE_NAME, None)]\<rparr> in
      passes is_err (mock_satisfied m)
        (a11y_item m (create_permission_event TEST_PACKAGE_NAME TEST_PERMISSION_NAME (from_millis 2000))))"

definition a11y_event_after_permission_grant_is_ignored :: bool where
  "a11y_event_after_permission_grant_is_ignored =
     (let permission_timestamp = from_millis 1; a11y_timestamp = from_millis 2;
          m = enabled_mock [expect_enqueue_a11y_event TEST_UID a11y_timestamp TEST_A11Y_CODE,
            expect_enqueue_permission_grant_event TEST_UID permission_timestamp TEST_PERMISSION_NAME] in
      passes is_Ok (\<lambda>t. written [expected_grant_atom TEST_UID TEST_PERMISSION_NAME permission_timestamp [] []] t
          \<and> mock_satisfied m t)
        (a11y_test m [create_a11y_event TEST_UID TEST_A11Y_CODE a11y_timestamp,
           create_permission_event TEST_PACKAGE_NAME TEST_PERMISSION_NAME permission_timestamp]))"

definition a11y_event_outside_window_is_ignored :: bool where
  "a11y_event_outside_window_is_ignored =
     (let a11y_timestamp = from_nanos 1000; permission_timestamp = A11Y_EVENT_WINDOW + from_secs 1;
          m = enabled_mock [expect_enqueue_a11y_event TEST_UID a11y_timestamp TEST_A11Y_CODE,
            expect_enqueue_permission_grant_event TEST_UID permission_timestamp TEST_PERMISSION_NAME] in
      passes is_Ok (\<lambda>t. written [expected_grant_atom TEST_UID TEST_PERMISSION_NAME permission_timestamp [] []] t
          \<and> mock_satisfied m t)
        (a11y_test m [create_a11y_event TEST_UID TEST_A11Y_CODE a11y_timestamp,
           create_permission_event TEST_PACKAGE_NAME TEST_PERMISSION_NAME permission_timestamp]))"

definition multiple_a11y_events_are_recorded :: bool where
  "multiple_a11y_events_are_recorded =
     (let a11y_code1 = 456; a11y_code2 = 789; a11y_timestamp1 = from_millis 10; a11y_timestamp2 = from_millis 15;
          permission_timestamp = from_millis 20;
          m = enabled_mock [expect_enqueue_a11y_event TEST_UID a11y_timestamp1 a11y_code1,
            expect_enqueue_a11y_event TEST_UID a11y_timestamp2 a11y_code2,
            expect_enqueue_permission_grant_event TEST_UID permission_timestamp TEST_PERMISSION_NAME] in
      passes is_Ok (\<lambda>t. written [expected_grant_atom TEST_UID TEST_PERMISSION_NAME permission_timestamp
          [a11y_code2, a11y_code1] [a11y_timestamp2, a11y_timestamp1]] t \<and> mock_satisfied m t)
        (a11y_test m [create_a11y_event TEST_UID a11y_code1 a11y_timestamp1,
           create_a11y_event TEST_UID a11y_code2 a11y_timestamp2,
           create_permission_event TEST_PACKAGE_NAME TEST_PERMISSION_NAME permission_timestamp]))"

definition multiple_permission_grants :: bool where
  "multiple_permission_grants =
     (let package_name_a = ''pkg.name.a''; permission_name_a = ''android.permission.A'';
          package_name_b = ''pkg.name.b''; permission_name_b = ''android.permission.B'';
          a11y_code1 = 456; a11y_code2 = 789;
          a11y_timestamp1 = from_millis 10; permission_timestamp_a = from_millis 20;
          a11y_timestamp2 = from_millis 30; permission_timestamp_b = from_millis 40;
          m = Mock_new\<lparr>expect_packageHasEnabledAccessibilityService :=
              [(package_name_a, Some True), (package_name_b, Some True)],
            expect_getUidForPackage := [(package_name_a, Some TEST_UID), (package_name_b, Some TEST_UID)],
            expect_enqueueEvent :=
              [expect_enqueue_permission_grant_event TEST_UID permission_timestamp_a permission_name_a,
               expect_enqueue_a11y_event TEST_UID a11y_timestamp1 a11y_code1,
               expect_enqueue_permission_grant_event TEST_UID permission_timestamp_b permission_name_b,
               expect_enqueue_a11y_event TEST_UID a11y_timestamp2 a11y_code2]\<rparr> in
      passes is_Ok
        (\<lambda>t. written [expected_grant_atom TEST_UID permission_name_b permission_timestamp_b [a11y_code2] [a11y_timestamp2],
             expected_grant_atom TEST_UID permission_name_a permission_timestamp_a [a11y_code1] [a11y_timestamp1]] t
           \<and> mock_satisfied m t)
        (a11y_test m [create_permission_event package_name_a permission_name_a permission_timestamp_a,
           create_a11y_event TEST_UID a11y_code1 a11y_timestamp1,
           create_permission_event package_name_b permission_name_b permission_timestamp_b,
           create_a11y_event TEST_UID a11y_code2 a11y_timestamp2]))"

definition no_a11y_events :: bool where
  "no_a11y_events =
     (let permission_timestamp = from_millis 20;
          m = enabled_mock [expect_enqueue_permission_grant_event TEST_UID permission_timestamp TEST_PERMISSION_NAME] in
      passes is_Ok (\<lambda>t. written [expected_grant_atom TEST_UID TEST_PERMISSION_NAME permission_timestamp [] []] t
          \<and> mock_satisfied m t)
        (a11y_test m [create_permission_event TEST_PACKAGE_NAME TEST_PERMISSION_NAME permission_timestamp]))"

definition no_permission_grants :: bool where
  "no_permission_grants =
     (let a11y_timestamp = from_millis 10;
          m = Mock_new\<lparr>expect_enqueueEvent := [expect_enqueue_a11y_event TEST_UID a11y_timestamp TEST_A11Y_CODE]\<rparr> in
      passes is_Ok (\<lambda>t. written [] t \<and> mock_satisfied m t)
        (a11y_test m [create_a11y_event TEST_UID TEST_A11Y_CODE a11y_timestamp]))"

definition invalid_variant_is_an_error :: bool where
  "invalid_variant_is_an_error =
     passes is_err (mock_satisfied Mock_new) (a11y_item Mock_new
       \<lparr>ae_error_code = 0, ae_timestamp_ns = 0, ae_variant = 99, ae_package_name = replicate 128 NUL,
        ae_permission_name = replicate 128 NUL, ae_uid = 0, ae_code = 0\<rparr>)"

text \<open>The test sorts the two atoms by the UID in their first field.\<close>

definition uid_of_atom :: "UnstructuredAtom \<Rightarrow> int" where
  "uid_of_atom a = (case ua_fields a of f # _ \<Rightarrow> (case fld_value f of VInt32 uid \<Rightarrow> sint uid | _ \<Rightarrow> 0) | [] \<Rightarrow> 0)"

definition multiple_uids :: bool where
  "multiple_uids =
     (let package_name_a = ''pkg.name.a''; permission_name_a = ''android.permission.A''; uid_a = 123;
          a11y_code_a = 456; a11y_timestamp_a = from_millis 10; permission_timestamp_a = from_millis 20;
          package_name_b = ''pkg.name.b''; permission_name_b = ''android.permission.B''; uid_b = 789;
          a11y_code_b = 101; a11y_timestamp_b = from_millis 30; permission_timestamp_b = from_millis 40;
          m = Mock_new\<lparr>expect_packageHasEnabledAccessibilityService :=
              [(package_name_a, Some True), (package_name_b, Some True)],
            expect_getUidForPackage := [(package_name_a, Some uid_a), (package_name_b, Some uid_b)],
            expect_enqueueEvent :=
              [expect_enqueue_a11y_event uid_a a11y_timestamp_a a11y_code_a,
               expect_enqueue_permission_grant_event uid_a permission_timestamp_a permission_name_a,
               expect_enqueue_a11y_event uid_b a11y_timestamp_b a11y_code_b,
               expect_enqueue_permission_grant_event uid_b permission_timestamp_b permission_name_b]\<rparr> in
      passes is_Ok
        (\<lambda>t. sort_key uid_of_atom (accepted_atoms t) =
             [expected_grant_atom uid_a permission_name_a permission_timestamp_a [a11y_code_a] [a11y_timestamp_a],
              expected_grant_atom uid_b permission_name_b permission_timestamp_b [a11y_code_b] [a11y_timestamp_b]]
           \<and> mock_satisfied m t)
        (a11y_test m [create_a11y_event uid_a a11y_code_a a11y_timestamp_a,
           create_permission_event package_name_a permission_name_a permission_timestamp_a,
           create_a11y_event uid_b a11y_code_b a11y_timestamp_b,
           create_permission_event package_name_b permission_name_b permission_timestamp_b]))"

definition accessibility_event_with_error_bails :: bool where
  "accessibility_event_with_error_bails =
     passes is_err (mock_satisfied Mock_new) (a11y_item Mock_new
       ((create_a11y_event TEST_UID TEST_A11Y_CODE (from_secs 1))\<lparr>ae_error_code := - 1\<rparr>))"

text \<open>Two calls on one handler.\<close>

definition accessibility_event_empty_fields_fail :: bool where
  "accessibility_event_empty_fields_fail =
     (case a11y_on_item Mock_new (create_permission_event [] TEST_PERMISSION_NAME (from_secs 1)) (\<lparr>events = []\<rparr>, []) of
        (r1, s1) \<Rightarrow>
          (case a11y_on_item Mock_new (create_permission_event TEST_PACKAGE_NAME [] (from_secs 1)) s1 of
             (r2, (h2, t2)) \<Rightarrow> is_err r1 \<and> is_err r2 \<and> mock_satisfied Mock_new t2))"

lemma permission_grant_after_a11y_event_is_reported_passes: "permission_grant_after_a11y_event_is_reported"
  by code_simp

lemma non_android_permission_is_ignored_passes: "non_android_permission_is_ignored"
  by code_simp

lemma no_enabled_a11y_service_is_ignored_passes: "no_enabled_a11y_service_is_ignored"
  by code_simp

lemma package_has_enabled_a11y_service_error_is_propagated_passes: "package_has_enabled_a11y_service_error_is_propagated"
  by code_simp

lemma get_uid_for_package_error_is_propagated_passes: "get_uid_for_package_error_is_propagated"
  by code_simp

lemma a11y_event_after_permission_grant_is_ignored_passes: "a11y_event_after_permission_grant_is_ignored"
  by code_simp

lemma a11y_event_outside_window_is_ignored_passes: "a11y_event_outside_window_is_ignored"
  by code_simp

lemma multiple_a11y_events_are_recorded_passes: "multiple_a11y_events_are_recorded"
  by code_simp

lemma multiple_permission_grants_passes: "multiple_permission_grants"
  by code_simp

lemma no_a11y_events_passes: "no_a11y_events"
  by code_simp

lemma no_permission_grants_passes: "no_permission_grants"
  by code_simp

lemma invalid_variant_is_an_error_passes: "invalid_variant_is_an_error"
  by code_simp

lemma multiple_uids_passes: "multiple_uids"
  by code_simp

lemma accessibility_event_with_error_bails_passes: "accessibility_event_with_error_bails"
  by code_simp

lemma accessibility_event_empty_fields_fail_passes: "accessibility_event_empty_fields_fail"
  by code_simp

end
