(* ===== verification/Bpf_Helpers.thy ===== *)
theory Bpf_Helpers
  imports World
begin

unbundle bit_operations_syntax

section \<open>The functions shared by the BPF programs\<close>

text \<open>
  \<open>bpf/headers/include/uprobestats_bpf_fns.h\<close>: what every BPF program uses to copy Java strings and
  fields of the traced process into its record. The kernel's helpers are parameters. A helper that
  fills in memory gives its return code and the bytes that the destination starts with afterwards;
  what is known about them is \<open>probe_helpers\<close> (errors are negated error numbers, above -4096) and \<open>reads_memory\<close>, the text of the manual page
  \<open>bpf-helpers(7)\<close>. The bytes left behind by a failed read are not documented and are arbitrary here.
\<close>

record bpf_kernel =
  probe_read_user :: "u64 \<Rightarrow> nat \<Rightarrow> int \<times> char list"
  probe_read_user_str :: "u64 \<Rightarrow> nat \<Rightarrow> int \<times> char list"
  ktime_get_ns :: u64
  get_current_pid_tgid :: u64

text \<open>\<open>struct pt_regs\<close> of \<open>uprobestats_bpf_structs.h\<close>; the programs use the first eleven registers.\<close>

record pt_regs =
  r_regs :: "nat \<Rightarrow> c_ulong"
  r_sp :: c_ulong
  r_pc :: c_ulong

definition MAX_STRING_LENGTH :: u32 where "MAX_STRING_LENGTH = 128"

definition EFAULT :: int where "EFAULT = 14"

text \<open>A little-endian number in memory.\<close>

fun le_nat :: "char list \<Rightarrow> nat" where
  "le_nat [] = 0"
| "le_nat (c # cs) = byte_of c + 256 * le_nat cs"

fun le_bytes :: "nat \<Rightarrow> nat \<Rightarrow> char list" where
  "le_bytes 0 v = []"
| "le_bytes (Suc n) v = char_of (v mod 256) # le_bytes n (v div 256)"

abbreviation le_word :: "char list \<Rightarrow> 'a::len word" where
  "le_word bs \<equiv> word_of_nat (le_nat bs)"

text \<open>Reading a scalar, or a reference of the managed heap (four bytes, zero-extended).\<close>

definition read_scalar :: "bpf_kernel \<Rightarrow> nat \<Rightarrow> u64 \<Rightarrow> int \<times> 'a::len word" where
  "read_scalar k n addr = (case probe_read_user k addr n of (rc, bs) \<Rightarrow> (rc, le_word bs))"

abbreviation read_ref :: "bpf_kernel \<Rightarrow> u64 \<Rightarrow> int \<times> u64" where
  "read_ref k addr \<equiv> read_scalar k 4 addr"

definition recordString :: "bpf_kernel \<Rightarrow> u64 \<Rightarrow> u32 \<Rightarrow> char list \<Rightarrow> int \<times> char list" where
  "recordString k jstring max_length dest =
     (if jstring = 0 then (0, dest[0 := NUL])
      else
        (case read_scalar k 4 (jstring + 8) of (rc, cnt :: u32) \<Rightarrow>
           if rc < 0 then (rc, dest)
           else
             (let cnt = cnt div 2;
                  size = (if max_length < cnt + 1 then max_length else cnt + 1) in
              (case probe_read_user_str k (jstring + 16) (unat size) of
                 (rc, bs) \<Rightarrow> (rc, bs @ drop (length bs) dest)))))"

definition recordStringArg :: "bpf_kernel \<Rightarrow> pt_regs \<Rightarrow> u32 \<Rightarrow> nat \<Rightarrow> char list \<Rightarrow> int \<times> char list" where
  "recordStringArg k ctx max_length position dest =
     recordString k (r_regs ctx (2 + position)) max_length dest"

definition recordStringArgFromSp ::
  "bpf_kernel \<Rightarrow> pt_regs \<Rightarrow> u32 \<Rightarrow> u64 \<Rightarrow> char list \<Rightarrow> int \<times> char list" where
  "recordStringArgFromSp k ctx max_length sp_offset dest =
     (case read_ref k (r_sp ctx + sp_offset) of (rc, jstring) \<Rightarrow>
        if rc < 0 then (rc, dest) else recordString k jstring max_length dest)"

definition getJitMethodStackFrame :: "pt_regs \<Rightarrow> u64" where
  "getJitMethodStackFrame ctx = r_sp ctx + r_regs ctx 0"

definition load :: "bpf_kernel \<Rightarrow> u64 \<Rightarrow> nat \<Rightarrow> u64 \<Rightarrow> int \<times> 'a::len word" where
  "load k offs len user_space_address =
     (let canonical_address = user_space_address AND 0x00FFFFFFFFFFFFFF in
      read_scalar k len (canonical_address + offs))"

subsection \<open>The documented helpers\<close>

definition probe_helpers :: "bpf_kernel \<Rightarrow> bool" where
  "probe_helpers k \<longleftrightarrow>
     (\<forall>a n. case probe_read_user k a n of (r, bs) \<Rightarrow> - 4096 < r \<and> r \<le> 0 \<and> length bs = n)
   \<and> (\<forall>a n. 0 < n \<longrightarrow> (case probe_read_user_str k a n of (r, bs) \<Rightarrow>
        length bs \<le> n \<and> - 4096 < r \<and> (r < 0 \<or> r = int (length bs)
          \<and> (\<exists>s. bs = s @ [NUL] \<and> NUL \<notin> set s))))"

text \<open>The memory of the traced process: the bytes that are mapped.\<close>

type_synonym user_memory = "u64 \<Rightarrow> char option"

definition mem_bytes :: "user_memory \<Rightarrow> u64 \<Rightarrow> nat \<Rightarrow> char list option" where
  "mem_bytes mem a n = those (map (\<lambda>i. mem (a + word_of_nat i)) [0..<n])"

definition c_prefix :: "nat \<Rightarrow> char list \<Rightarrow> char list" where
  "c_prefix n bs = takeWhile (\<lambda>c. c \<noteq> NUL) (take (n - 1) bs) @ [NUL]"

definition reads_memory :: "bpf_kernel \<Rightarrow> user_memory \<Rightarrow> bool" where
  "reads_memory k mem \<longleftrightarrow>
     (\<forall>a n bs. mem_bytes mem a n = Some bs \<longrightarrow> probe_read_user k a n = (0, bs))
   \<and> (\<forall>a n bs. 0 < n \<longrightarrow> mem_bytes mem a n = Some bs \<longrightarrow>
        probe_read_user_str k a n = (int (length (c_prefix n bs)), c_prefix n bs))"

text \<open>
  A Java string at an address, as the comment of \<open>recordString\<close> describes it: the count (twice the
  length) at offset 8, the characters from offset 16 on, one byte each, followed by at least one
  readable byte of the heap.
\<close>

definition java_string :: "user_memory \<Rightarrow> u64 \<Rightarrow> string \<Rightarrow> bool" where
  "java_string mem p s \<longleftrightarrow>
     p \<noteq> 0 \<and> length s < 2 ^ 31 \<and> NUL \<notin> set s
   \<and> mem_bytes mem (p + 8) 4 = Some (le_bytes 4 (2 * length s))
   \<and> (\<exists>c. mem_bytes mem (p + 16) (length s + 1) = Some (s @ [c]))"

definition java_ref :: "user_memory \<Rightarrow> u64 \<Rightarrow> u64 \<Rightarrow> bool" where
  "java_ref mem addr p \<longleftrightarrow> unat p < 2 ^ 32 \<and> mem_bytes mem addr 4 = Some (le_bytes 4 (unat p))"

text \<open>A kernel over a given memory; a failed read leaves zeros, as the implementation does.\<close>

definition memory_kernel :: "user_memory \<Rightarrow> u64 \<Rightarrow> u64 \<Rightarrow> bpf_kernel" where
  "memory_kernel mem time tgid =
     \<lparr>probe_read_user = (\<lambda>a n. case mem_bytes mem a n of
          Some bs \<Rightarrow> (0, bs) | None \<Rightarrow> (- EFAULT, replicate n NUL)),
      probe_read_user_str = (\<lambda>a n. case mem_bytes mem a n of
          Some bs \<Rightarrow> (int (length (c_prefix n bs)), c_prefix n bs)
        | None \<Rightarrow> (- EFAULT, replicate n NUL)),
      ktime_get_ns = time, get_current_pid_tgid = tgid\<rparr>"

subsection \<open>Lemmas\<close>

lemma le_bytes_length [simp]: "length (le_bytes n v) = n"
  by (induction n arbitrary: v) simp_all

lemma le_nat_le_bytes [simp]: "v < 256 ^ n \<Longrightarrow> le_nat (le_bytes n v) = v"
proof (induction n arbitrary: v)
  case (Suc n)
  then have "v div 256 < 256 ^ n" by (simp add: less_mult_imp_div_less mult.commute)
  with Suc.IH show ?case by (simp add: of_char_of)
qed simp

lemma those_length: "those xs = Some ys \<Longrightarrow> length ys = length xs"
  by (induction xs arbitrary: ys) (auto split: option.splits)

lemma mem_bytes_length: "mem_bytes mem a n = Some bs \<Longrightarrow> length bs = n"
  unfolding mem_bytes_def by (drule those_length) simp

lemma those_take: "those xs = Some ys \<Longrightarrow> those (take n xs) = Some (take n ys)"
proof (induction xs arbitrary: ys n)
  case (Cons x xs)
  then show ?case by (cases n) (auto split: option.splits)
qed simp

lemma mem_bytes_take: "mem_bytes mem a n = Some bs \<Longrightarrow> m \<le> n \<Longrightarrow> mem_bytes mem a m = Some (take m bs)"
  unfolding mem_bytes_def by (drule those_take [where n = m]) (simp add: take_map)

lemma c_prefix_bound: "0 < n \<Longrightarrow> length (c_prefix n bs) \<le> n"
proof -
  have "length (takeWhile (\<lambda>c. c \<noteq> NUL) (take (n - 1) bs)) \<le> n - 1"
    by (metis length_take length_takeWhile_le min.bounded_iff)
  then show "0 < n \<Longrightarrow> length (c_prefix n bs) \<le> n" by (simp add: c_prefix_def)
qed

lemma c_prefix_terminated: "\<exists>s. c_prefix n bs = s @ [NUL] \<and> NUL \<notin> set s"
  by (auto simp: c_prefix_def dest: set_takeWhileD)

lemma memory_kernel_ok: "probe_helpers (memory_kernel mem time tgid)" "reads_memory (memory_kernel mem time tgid) mem"
  using c_prefix_bound c_prefix_terminated
  by (auto simp: probe_helpers_def reads_memory_def memory_kernel_def mem_bytes_length EFAULT_def
      split: option.split)

lemma probe_helpersD:
  assumes "probe_helpers k"
  shows read_user_doc: "probe_read_user k a n = (r, bs) \<Longrightarrow> - 4096 < r \<and> r \<le> 0 \<and> length bs = n"
    and read_str_doc: "probe_read_user_str k a n = (r, bs) \<Longrightarrow> 0 < n \<Longrightarrow>
      length bs \<le> n \<and> - 4096 < r \<and> (r < 0 \<or> r = int (length bs) \<and> (\<exists>s. bs = s @ [NUL] \<and> NUL \<notin> set s))"
proof -
  note doc = assms [unfolded probe_helpers_def]
  from doc [THEN conjunct1, THEN spec, THEN spec]
  have "case probe_read_user k a n of (r, bs) \<Rightarrow> - 4096 < r \<and> r \<le> 0 \<and> length bs = n" .
  then show "probe_read_user k a n = (r, bs) \<Longrightarrow> - 4096 < r \<and> r \<le> 0 \<and> length bs = n" by simp
  from doc [THEN conjunct2, THEN spec, THEN spec, THEN mp]
  have "0 < n \<Longrightarrow> case probe_read_user_str k a n of (r, bs) \<Rightarrow>
      length bs \<le> n \<and> - 4096 < r \<and> (r < 0 \<or> r = int (length bs) \<and> (\<exists>s. bs = s @ [NUL] \<and> NUL \<notin> set s))" .
  then show "probe_read_user_str k a n = (r, bs) \<Longrightarrow> 0 < n \<Longrightarrow>
      length bs \<le> n \<and> - 4096 < r \<and> (r < 0 \<or> r = int (length bs) \<and> (\<exists>s. bs = s @ [NUL] \<and> NUL \<notin> set s))" by simp
qed

lemma reads_memoryD:
  assumes "reads_memory k mem" and "mem_bytes mem a n = Some bs"
  shows "probe_read_user k a n = (0, bs)"
    and "0 < n \<Longrightarrow> probe_read_user_str k a n = (int (length (c_prefix n bs)), c_prefix n bs)"
  using assms unfolding reads_memory_def by simp_all

lemma read_ref_java:
  assumes "reads_memory k mem" and "java_ref mem addr p"
  shows "read_ref k addr = (0, p)"
  using assms reads_memoryD(1) [OF assms(1), of addr 4]
  by (auto simp: read_scalar_def java_ref_def)

subsection \<open>Copying a string\<close>

text \<open>The size passed to the kernel, as a number.\<close>

lemma record_size:
  "unat (if m < (c :: u32) div 2 + 1 then m else c div 2 + 1) = min (unat m) (unat c div 2 + 1)"
proof -
  have "unat (c div 2) = unat c div 2" by (simp add: unat_div)
  moreover have "unat c < 2 ^ 32" using unsigned_less [of c] by simp
  ultimately have "unat (c div 2 + 1) = unat c div 2 + 1" by (simp add: unat_word_ariths(1))
  then show ?thesis by (simp add: word_less_nat_alt)
qed

lemma recordString_read:
  assumes "p \<noteq> 0" and "read_scalar k 4 (p + 8) = (r, cnt :: u32)" and "0 \<le> r"
  shows "recordString k p m dest =
    (case probe_read_user_str k (p + 16) (min (unat m) (unat cnt div 2 + 1)) of
       (rc, bs) \<Rightarrow> (rc, bs @ drop (length bs) dest))"
  unfolding record_size [symmetric] using assms by (simp add: recordString_def Let_def)

lemma recordString_cases:
  assumes "probe_helpers k" and "recordString k p m dest = (rc, dest')" and "0 < m"
  obtains (null) "p = 0" and "rc = 0" and "dest' = dest[0 := NUL]"
    | (unread) "rc < 0" and "- 4096 < rc" and "dest' = dest"
    | (read) bs where "dest' = bs @ drop (length bs) dest" and "length bs \<le> unat m"
        and "- 4096 < rc" and "rc < 0 \<or> rc = int (length bs) \<and> (\<exists>s. bs = s @ [NUL] \<and> NUL \<notin> set s)"
proof -
  obtain r bs where rd: "probe_read_user k (p + 8) 4 = (r, bs)" by (cases "probe_read_user k (p + 8) 4")
  let ?n = "min (unat m) (unat (le_word bs :: u32) div 2 + 1)"
  obtain r2 bs2 where str: "probe_read_user_str k (p + 16) ?n = (r2, bs2)"
    by (cases "probe_read_user_str k (p + 16) ?n")
  have "0 < ?n" using assms(3) by (simp add: word_less_nat_alt)
  note doc = read_str_doc [OF assms(1) str this]
  show thesis
  proof (cases "p = 0")
    case False
    note p = this
    show thesis
    proof (cases "r < 0")
      case True
      with p assms(2) rd show thesis by (intro unread) (use read_user_doc [OF assms(1) rd] in \<open>simp_all add: recordString_def read_scalar_def\<close>)
    next
      case False
      with p assms(2) rd have "(case probe_read_user_str k (p + 16) ?n of
          (rc, bs) \<Rightarrow> (rc, bs @ drop (length bs) dest)) = (rc, dest')"
        using recordString_read [OF p, of k r "le_word bs" m dest, symmetric] by (simp add: read_scalar_def)
      then have "rc = r2" "dest' = bs2 @ drop (length bs2) dest" unfolding str by simp_all
      with doc show thesis by (intro read [of bs2]) auto
    qed
  qed (use assms(2) null in \<open>simp add: recordString_def\<close>)
qed

lemma recordString_safe:
  assumes "probe_helpers k" and "0 < m" and "unat m \<le> length dest"
    and "recordString k p m dest = (rc, dest')"
  shows "length dest' = length dest" and "drop (unat m) dest' = drop (unat m) dest"
    and "rc < 0 \<or> (\<exists>s rest. dest' = s @ NUL # rest \<and> NUL \<notin> set s \<and> length s < unat m)"
    and "- 4096 < rc" and "rc \<le> int (unat m)"
proof -
  have m: "0 < unat m" using assms(2) by (simp add: word_less_nat_alt)
  have "length dest' = length dest \<and> drop (unat m) dest' = drop (unat m) dest
    \<and> (rc < 0 \<or> (\<exists>s rest. dest' = s @ NUL # rest \<and> NUL \<notin> set s \<and> length s < unat m))
    \<and> - 4096 < rc \<and> rc \<le> int (unat m)"
    using assms(1,4,2)
  proof (cases rule: recordString_cases)
    case null
    with m assms(3) obtain c cs where dest: "dest = c # cs" by (cases dest) auto
    have "dest' = [] @ NUL # cs \<and> NUL \<notin> set [] \<and> length ([] :: char list) < unat m"
      using null m dest by simp
    then have "\<exists>s rest. dest' = s @ NUL # rest \<and> NUL \<notin> set s \<and> length s < unat m" by blast
    with null m dest show ?thesis by (cases "unat m") simp_all
  next
    case (read bs)
    have "rc < 0 \<or> (\<exists>s. dest' = s @ NUL # drop (length bs) dest \<and> NUL \<notin> set s \<and> length s < unat m)"
      using read by auto
    then have "rc < 0 \<or> (\<exists>s rest. dest' = s @ NUL # rest \<and> NUL \<notin> set s \<and> length s < unat m)" by blast
    moreover have "rc \<le> int (unat m)" using read(2,4) by (metis (no_types) less_imp_le of_nat_0_le_iff of_nat_mono order.trans)
    ultimately show ?thesis using read(1-3) assms(3) by simp
  qed (use order.trans [of rc 0 "int (unat m)"] in simp)
  then show "length dest' = length dest" and "drop (unat m) dest' = drop (unat m) dest"
    and "rc < 0 \<or> (\<exists>s rest. dest' = s @ NUL # rest \<and> NUL \<notin> set s \<and> length s < unat m)"
    and "- 4096 < rc" and "rc \<le> int (unat m)" by blast+
qed

text \<open>
  C24. Copying a Java string never writes outside its destination: whatever the kernel returns, at
  most the limit's worth of bytes change and the destination keeps its length. When the copy does
  not report an error, whatever the destination held before, it now starts with a NUL-terminated
  string that is shorter than the limit.
\<close>

theorem recordString_bounds:
  assumes "probe_helpers k" and "0 < m" and "unat m \<le> length dest"
    and "recordString k p m dest = (rc, dest')"
  shows "length dest' = length dest \<and> drop (unat m) dest' = drop (unat m) dest
    \<and> (rc < 0 \<or> (\<exists>s rest. dest' = s @ NUL # rest \<and> NUL \<notin> set s \<and> length s < unat m))"
  using recordString_safe(1-3) [OF assms] by blast

text \<open>A string of the traced process arrives as its first characters, up to the limit.\<close>

lemma recordString_java:
  assumes "reads_memory k mem" and "java_string mem p s" and "0 < m"
  shows "recordString k p m dest = (int (length (take (unat m - 1) s @ [NUL])),
    take (unat m - 1) s @ NUL # drop (Suc (length (take (unat m - 1) s))) dest)"
proof -
  from assms(2) obtain c where p: "p \<noteq> 0" and len: "length s < 2 ^ 31" and nul: "NUL \<notin> set s"
    and cnt: "mem_bytes mem (p + 8) 4 = Some (le_bytes 4 (2 * length s))"
    and chars: "mem_bytes mem (p + 16) (length s + 1) = Some (s @ [c])"
    unfolding java_string_def by blast
  let ?n = "min (unat m) (length s + 1)" and ?w = "take (unat m - 1) s"
  have m: "0 < unat m" using assms(3) by (simp add: word_less_nat_alt)
  have rd: "read_scalar k 4 (p + 8) = (0, word_of_nat (2 * length s) :: u32)"
    using reads_memoryD(1) [OF assms(1) cnt] len by (simp add: read_scalar_def)
  have size: "unat (word_of_nat (2 * length s) :: u32) div 2 = length s"
    using len by (simp add: unat_of_nat del: of_nat_mult)
  have part: "mem_bytes mem (p + 16) ?n = Some (take ?n (s @ [c]))"
    by (rule mem_bytes_take [OF chars]) simp
  have "take (?n - 1) (take ?n (s @ [c])) = ?w" using m by (auto simp: min_def)
  moreover have "NUL \<notin> set ?w" using nul set_take_subset [of "unat m - 1" s] by blast
  moreover from this have "takeWhile (\<lambda>c. c \<noteq> NUL) ?w = ?w"
    unfolding takeWhile_eq_all_conv by blast
  ultimately have pre: "c_prefix ?n (take ?n (s @ [c])) = ?w @ [NUL]"
    unfolding c_prefix_def by (simp del: take_append take_take)
  have "0 < ?n" using m by simp
  from reads_memoryD(2) [OF assms(1) part this] have
    "probe_read_user_str k (p + 16) ?n = (int (length (?w @ [NUL])), ?w @ [NUL])" unfolding pre .
  then have "recordString k p m dest =
      (int (length (?w @ [NUL])), (?w @ [NUL]) @ drop (length (?w @ [NUL])) dest)"
    unfolding recordString_read [OF p rd order.refl] size by simp
  then show ?thesis by simp
qed

lemma recordString_java_str:
  assumes "reads_memory k mem" and "java_string mem p s" and "0 < m" and "ascii s"
  obtains rc dest' where "recordString k p m dest = (rc, dest')" and "0 < rc" and "rc \<le> int (unat m)"
    and "bytes_as_str dest' = Ok (take (unat m - 1) s)"
proof -
  let ?w = "take (unat m - 1) s"
  have "set ?w \<subseteq> set s" by (rule set_take_subset)
  then have "NUL \<notin> set ?w" "ascii ?w" using assms(2,4) by (auto simp: java_string_def ascii_def)
  then have str: "bytes_as_str (?w @ NUL # drop (Suc (length ?w)) dest) = Ok ?w"
    unfolding bytes_as_str_Ok_iff using ascii_valid_utf8 by blast
  have "0 < unat m" using assms(3) by (simp add: word_less_nat_alt)
  then have "length (?w @ [NUL]) \<le> unat m" by simp
  then have "int (length (?w @ [NUL])) \<le> int (unat m)" by (rule of_nat_mono)
  then show thesis by (rule that [OF recordString_java [OF assms(1,2,3)] _ _ str, rotated]) simp
qed

text \<open>A string that a field of an object refers to.\<close>

definition java_string_at :: "user_memory \<Rightarrow> u64 \<Rightarrow> string \<Rightarrow> bool" where
  "java_string_at mem addr s \<longleftrightarrow> (\<exists>p. java_ref mem addr p \<and> java_string mem p s)"


theorem recordString_bounds_witness:
  "\<exists>rc dest'. recordString (memory_kernel (\<lambda>_. None) 0 0) 0x1000 4 ''12345'' = (rc, dest')
     \<and> length dest' = 5 \<and> drop 4 dest' = ''5''"
proof -
  obtain rc dest' where run: "recordString (memory_kernel (\<lambda>_. None) 0 0) 0x1000 4 ''12345'' = (rc, dest')" by force
  from recordString_bounds [OF memory_kernel_ok(1) _ _ run] run show ?thesis by simp
qed

end
