(* ===== verification/Bpf_Map.thy ===== *)
theory Bpf_Map
  imports World
begin

section \<open>BPF through the C interface\<close>

text \<open>
  \<open>ffi/bpf/bpf.rs\<close> (ring buffers, perf events, map elements), the generic \<open>BpfMapAccessor\<close> of
  \<open>android/bpf_map.rs\<close> and the map of binder filters of \<open>android/bpf_map/binder_transaction.rs\<close>.
  The kernel is a parameter: every call's return code, and the key or value it fills in, is a
  function of the trace. What is known of a BPF hash map is the hypothesis \<open>kernel_hash_map\<close>.
\<close>

record bpf_env =
  ring_create :: "trace \<Rightarrow> string \<Rightarrow> bool"
  ring_discard :: "trace \<Rightarrow> string \<Rightarrow> int"
  perf_event_open :: "trace \<Rightarrow> string \<Rightarrow> i32 \<Rightarrow> i32 \<Rightarrow> string \<Rightarrow> int"
  map_open :: "trace \<Rightarrow> string \<Rightarrow> int"
  map_update :: "trace \<Rightarrow> CKey \<Rightarrow> CValue \<Rightarrow> u64 \<Rightarrow> int"
  map_lookup :: "trace \<Rightarrow> CKey \<Rightarrow> int \<times> CValue"
  map_get_first_key :: "trace \<Rightarrow> int \<times> CKey"
  map_delete :: "trace \<Rightarrow> CKey \<Rightarrow> int"

definition ENOENT :: int where "ENOENT = 2"

subsection \<open>Ring buffers and perf events\<close>

definition BpfRingBuffer_new :: "bpf_env \<Rightarrow> string \<Rightarrow> ('h st, unit) io" where
  "BpfRingBuffer_new env map_path =
     io_bind (lift_res (c_string map_path)) (\<lambda>path.
     io_bind (ext_call (\<lambda>t. ring_create env t path) (RingCreate path)) (\<lambda>ok.
     lift_res (ensure ok (Anyhow ''Failed to create BpfRingBuffer''))))"

text \<open>A poll: the code of \<open>bpfRingBufPoll\<close>, and the items its callback was called with.\<close>

type_synonym 't ring = "trace \<Rightarrow> i32 \<Rightarrow> int \<times> 't list"

definition BpfRingBuffer_poll :: "'t ring \<Rightarrow> string \<Rightarrow> i32 \<Rightarrow> ('h st, 't list) io" where
  "BpfRingBuffer_poll ring map_path timeout_ms =
     io_bind (ext_call (\<lambda>t. ring t timeout_ms) (\<lambda>(r, _). RingPoll map_path timeout_ms r)) (\<lambda>(r, data).
     io_then (lift_res (ensure (r \<ge> 0) (Anyhow ''Failed to poll ring buffer. Error code: {}'')))
       (ret data))"

definition BpfRingBuffer_drop :: "('h st, unit) io" where
  "BpfRingBuffer_drop = emit RingDestroy"

definition bpf_ring_buffer_discard :: "bpf_env \<Rightarrow> string \<Rightarrow> ('h st, bool) io" where
  "bpf_ring_buffer_discard env path =
     io_bind (lift_res (c_string path)) (\<lambda>path.
     io_bind (ext_call (\<lambda>t. ring_discard env t path) (RingDiscard path)) (\<lambda>r.
     io_then (lift_res (ensure (r \<ge> 0) (Anyhow ''Failed to discard ring buffer at {}. Error code: {}'')))
       (ret (r = 1))))"

definition bpf_perf_event_open ::
  "bpf_env \<Rightarrow> string \<Rightarrow> i32 \<Rightarrow> i32 \<Rightarrow> string \<Rightarrow> ('h st, int) io" where
  "bpf_perf_event_open env filename offs pid program_path =
     io_bind (lift_res (c_string filename)) (\<lambda>filename.
     io_bind (lift_res (c_string program_path)) (\<lambda>program_path.
     io_bind (ext_call (\<lambda>t. perf_event_open env t filename offs pid program_path)
                (PerfEventOpen filename offs pid program_path)) (\<lambda>fd.
     io_then (lift_res (ensure (fd \<ge> 0) (Anyhow ''Failed to attach BPF. Error code: {}'')))
       (ret fd))))"

definition OwnedFd_drop :: "int \<Rightarrow> ('h st, unit) io" where
  "OwnedFd_drop fd = emit (FdClose fd)"

subsection \<open>Map elements\<close>

datatype UpdateMapElemFlags = Upsert | Insert | Update

fun UpdateMapElemFlags_as_u64 :: "UpdateMapElemFlags \<Rightarrow> u64" where
  "UpdateMapElemFlags_as_u64 Upsert = 0"
| "UpdateMapElemFlags_as_u64 Insert = 1"
| "UpdateMapElemFlags_as_u64 Update = 2"

definition bpf_map_open_exclusive_rw :: "bpf_env \<Rightarrow> string \<Rightarrow> ('h st, unit) io" where
  "bpf_map_open_exclusive_rw env path =
     io_bind (lift_res (c_string path)) (\<lambda>path.
     io_bind (ext_call (\<lambda>t. map_open env t path) (MapOpen path)) (\<lambda>r.
     lift_res (ensure (r = 0) (Anyhow ''Failed to open BPF map at {}: error {}''))))"

definition bpf_map_close :: "('h st, unit) io" where
  "bpf_map_close = emit MapClose"

definition bpf_map_update_elem ::
  "bpf_env \<Rightarrow> CKey \<Rightarrow> CValue \<Rightarrow> UpdateMapElemFlags \<Rightarrow> ('h st, unit) io" where
  "bpf_map_update_elem env key v fl =
     io_bind (ext_call (\<lambda>t. map_update env t key v (UpdateMapElemFlags_as_u64 fl))
                (MapUpdate key v (UpdateMapElemFlags_as_u64 fl))) (\<lambda>r.
     lift_res (ensure (r = 0) (Anyhow ''Failed to write to BPF map. Error code: {}'')))"

definition bpf_map_lookup_elem :: "bpf_env \<Rightarrow> CKey \<Rightarrow> ('h st, CValue option) io" where
  "bpf_map_lookup_elem env key =
     io_bind (ext_call (\<lambda>t. map_lookup env t key) (\<lambda>(r, _). MapLookup key r)) (\<lambda>(r, v).
     if r = - ENOENT then ret None
     else io_then (lift_res (ensure (r = 0) (Anyhow ''Failed to lookup BPF map element. Error code: {}'')))
            (ret (Some v)))"

definition bpf_map_get_first_key :: "bpf_env \<Rightarrow> ('h st, CKey option) io" where
  "bpf_map_get_first_key env =
     io_bind (ext_call (map_get_first_key env) (\<lambda>(r, _). MapGetFirstKey r)) (\<lambda>(r, k).
     if r = - ENOENT then ret None
     else io_then (lift_res (ensure (r = 0) (Anyhow ''Failed to get first BPF map key. Error code: {}'')))
            (ret (Some k)))"

definition bpf_map_delete_elem :: "bpf_env \<Rightarrow> CKey \<Rightarrow> ('h st, bool) io" where
  "bpf_map_delete_elem env key =
     io_bind (ext_call (\<lambda>t. map_delete env t key) (MapDelete key)) (\<lambda>r.
     if r = - ENOENT then ret False
     else io_then (lift_res (ensure (r = 0) (Anyhow ''Failed to delete BPF map element. Error code: {}'')))
            (ret True))"

subsection \<open>The accessor\<close>

text \<open>The dictionary of the trait \<open>BpfMap\<close> (\<open>core/bpf_map.rs\<close>), and the accessor over it.\<close>

record ('k, 'v) bpf_map =
  BM_MAP_PATH :: string
  to_c_key :: "'k \<Rightarrow> CKey"
  to_c_value :: "'v \<Rightarrow> CValue"
  from_c_value :: "CValue \<Rightarrow> 'v"
  from_c_key :: "CKey \<Rightarrow> 'k"

definition BpfMapAccessor_new :: "('k, 'v) bpf_map \<Rightarrow> bpf_env \<Rightarrow> ('h st, unit) io" where
  "BpfMapAccessor_new m env = bpf_map_open_exclusive_rw env (BM_MAP_PATH m)"

definition BpfMapAccessor_put ::
  "('k, 'v) bpf_map \<Rightarrow> bpf_env \<Rightarrow> 'k \<Rightarrow> 'v \<Rightarrow> UpdateMapElemFlags \<Rightarrow> ('h st, unit) io" where
  "BpfMapAccessor_put m env key v fl =
     bpf_map_update_elem env (to_c_key m key) (to_c_value m v) fl"

definition BpfMapAccessor_get :: "('k, 'v) bpf_map \<Rightarrow> bpf_env \<Rightarrow> 'k \<Rightarrow> ('h st, 'v option) io" where
  "BpfMapAccessor_get m env key =
     io_bind (bpf_map_lookup_elem env (to_c_key m key)) (\<lambda>found.
     ret (map_option (from_c_value m) found))"

definition BpfMapAccessor_get_first_key :: "('k, 'v) bpf_map \<Rightarrow> bpf_env \<Rightarrow> ('h st, 'k option) io" where
  "BpfMapAccessor_get_first_key m env =
     io_bind (bpf_map_get_first_key env) (\<lambda>found. ret (map_option (from_c_key m) found))"

definition BpfMapAccessor_delete :: "('k, 'v) bpf_map \<Rightarrow> bpf_env \<Rightarrow> 'k \<Rightarrow> ('h st, bool) io" where
  "BpfMapAccessor_delete m env key = bpf_map_delete_elem env (to_c_key m key)"

definition BpfMapAccessor_drop :: "('h st, unit) io" where
  "BpfMapAccessor_drop = bpf_map_close"

subsection \<open>The map of binder interfaces\<close>

definition binder_to_c_key :: "string \<Rightarrow> CKey" where
  "binder_to_c_key key =
     (let len = min (length key) 128 in take len key @ replicate (128 - len) NUL)"

definition binder_to_c_value :: "c_ulong list \<Rightarrow> CValue" where
  "binder_to_c_value v =
     (let len = min (length v) 10 in take len v @ replicate (10 - len) 0)"

definition binder_from_c_value :: "CValue \<Rightarrow> c_ulong list" where
  "binder_from_c_value v = v"

definition binder_from_c_key :: "CKey \<Rightarrow> string" where
  "binder_from_c_key key = (case bytes_as_str key of Ok s \<Rightarrow> s | _ \<Rightarrow> [])"

definition BinderInterfaceBpfMap :: "(string, c_ulong list) bpf_map" where
  "BinderInterfaceBpfMap =
     \<lparr>BM_MAP_PATH = ''/sys/fs/bpf/uprobestats/map_Binder_interfaces'',
      to_c_key = binder_to_c_key, to_c_value = binder_to_c_value,
      from_c_value = binder_from_c_value, from_c_key = binder_from_c_key\<rparr>"

text \<open>\<open>BinderInterfaceMapAccessor::drain\<close>, with a bound on the number of iterations.\<close>

fun drain :: "nat \<Rightarrow> bpf_env \<Rightarrow> ('h st, unit) io" where
  "drain 0 env = lift_res NoFuel"
| "drain (Suc n) env =
     io_bind (BpfMapAccessor_get_first_key BinderInterfaceBpfMap env) (\<lambda>k.
       case k of
         None \<Rightarrow> ret ()
       | Some key \<Rightarrow>
           io_bind (BpfMapAccessor_delete BinderInterfaceBpfMap env key) (\<lambda>deleted.
             if \<not> deleted then fail (Anyhow ''Failed to delete key {}'')
             else drain n env))"

lemmas bpf_defs = BpfRingBuffer_new_def BpfRingBuffer_poll_def BpfRingBuffer_drop_def
  bpf_ring_buffer_discard_def bpf_perf_event_open_def OwnedFd_drop_def bpf_map_open_exclusive_rw_def
  bpf_map_close_def bpf_map_update_elem_def bpf_map_lookup_elem_def bpf_map_get_first_key_def
  bpf_map_delete_elem_def BpfMapAccessor_new_def BpfMapAccessor_put_def BpfMapAccessor_get_def
  BpfMapAccessor_get_first_key_def BpfMapAccessor_delete_def BpfMapAccessor_drop_def

lemma grows_bpf:
  "io_steps grows (BpfRingBuffer_new env p)" "io_steps grows (BpfRingBuffer_poll ring p ms)"
  "io_steps grows BpfRingBuffer_drop" "io_steps grows (bpf_ring_buffer_discard env p)"
  "io_steps grows (bpf_perf_event_open env p offs pid prog)" "io_steps grows (OwnedFd_drop fd)"
  "io_steps grows (BpfMapAccessor_new m env)" "io_steps grows (BpfMapAccessor_put m env k v fl)"
  "io_steps grows (BpfMapAccessor_get_first_key m env)" "io_steps grows (BpfMapAccessor_delete m env k)"
  "io_steps grows BpfMapAccessor_drop"
  by (auto simp: bpf_defs intro!: grows_intros split: prod.split)

lemma grows_drain: "io_steps grows (drain n env)"
  by (induction n) (auto intro!: grows_intros grows_bpf)

subsection \<open>Descriptors\<close>

definition opened_fd :: "effect \<Rightarrow> int option" where
  "opened_fd e = (case e of PerfEventOpen _ _ _ _ fd \<Rightarrow> if fd \<ge> 0 then Some fd else None | _ \<Rightarrow> None)"

definition closed_fd :: "effect \<Rightarrow> int option" where
  "closed_fd e = (case e of FdClose fd \<Rightarrow> Some fd | _ \<Rightarrow> None)"

abbreviation opened_fds :: "trace \<Rightarrow> int list" where "opened_fds \<equiv> List.map_filter opened_fd"
abbreviation closed_fds :: "trace \<Rightarrow> int list" where "closed_fds \<equiv> List.map_filter closed_fd"

text \<open>What a computation opens and what it closes.\<close>

definition fd_balance :: "trace \<Rightarrow> trace \<Rightarrow> int list \<Rightarrow> int list \<Rightarrow> bool" where
  "fd_balance t t' opn cls \<longleftrightarrow>
     opened_fds t' = opened_fds t @ opn \<and> closed_fds t' = closed_fds t @ cls"

lemma fd_balance_trans:
  "fd_balance t t1 a b \<Longrightarrow> fd_balance t1 t2 c d \<Longrightarrow> fd_balance t t2 (a @ c) (b @ d)"
  by (simp add: fd_balance_def)

lemma fd_balance_refl [simp]: "fd_balance t t [] []"
  by (simp add: fd_balance_def)

fun fd_effect :: "effect \<Rightarrow> bool" where
  "fd_effect (PerfEventOpen _ _ _ _ _) = True"
| "fd_effect (FdClose _) = True"
| "fd_effect _ = False"

lemma fd_filter: "opened_fds t = opened_fds (filter fd_effect t)" "closed_fds t = closed_fds (filter fd_effect t)"
proof (induction t)
  case (Cons e t)
  { case 1 then show ?case using Cons(1) by (cases e) (simp_all add: List.map_filter_simps opened_fd_def) }
  { case 2 then show ?case using Cons(2) by (cases e) (simp_all add: List.map_filter_simps closed_fd_def) }
qed simp_all

lemma fd_quiet:
  "io_steps (never_emits fd_effect) m \<Longrightarrow> m (h, t) = (r, (h', t')) \<Longrightarrow> fd_balance t t' [] []"
  unfolding io_steps_def never_emits_def fd_balance_def by (metis append_Nil2 fd_filter snd_conv)

lemma close_all: "for_each OwnedFd_drop fds (h, t) = (Ok (), (h, t @ map FdClose fds))"
  by (induction fds arbitrary: t) (simp_all add: OwnedFd_drop_def)

lemma close_all_balance: "fd_balance t (t @ map FdClose fds) [] fds"
  by (induction fds rule: rev_induct)
    (simp_all add: fd_balance_def opened_fd_def closed_fd_def List.map_filter_simps)

lemma io_returns_bpf:
  "io_returns (BpfMapAccessor_new m env)" "io_returns (BpfMapAccessor_put m env k v fl)"
  "io_returns BpfMapAccessor_drop" "io_returns (bpf_ring_buffer_discard env p)"
  "io_returns (bpf_perf_event_open env p offs pid prog)" "io_returns (OwnedFd_drop fd)"
  by (auto simp: bpf_defs intro!: io_returns_intros)

fun is_poll :: "effect \<Rightarrow> bool" where
  "is_poll (RingPoll _ _ _) = True"
| "is_poll _ = False"

subsection \<open>The codec of a map\<close>

text \<open>What the accessor relies on: keys it considers good survive the way to the kernel and back.\<close>

locale bpf_map_codec =
  fixes m :: "('k, 'v) bpf_map"
    and good_key :: "'k \<Rightarrow> bool"
    and c_key_wf :: "CKey \<Rightarrow> bool"
  assumes from_to_key: "good_key k \<Longrightarrow> from_c_key m (to_c_key m k) = k"
    and from_good: "c_key_wf c \<Longrightarrow> good_key (from_c_key m c)"
    and to_wf: "c_key_wf (to_c_key m k)"
begin

lemma to_c_key_inj: "good_key j \<Longrightarrow> good_key k \<Longrightarrow> to_c_key m j = to_c_key m k \<Longrightarrow> j = k"
  by (metis from_to_key)

text \<open>A kernel key is \<open>stable\<close> when reading and writing it back gives the same key; exactly the
  keys that were written from good ones are.\<close>

lemma stable_iff:
  "c_key_wf c \<Longrightarrow> to_c_key m (from_c_key m c) = c \<longleftrightarrow> (\<exists>k. good_key k \<and> c = to_c_key m k)"
  by (metis from_to_key from_good)

end

definition good_name :: "string \<Rightarrow> bool" where
  "good_name s \<longleftrightarrow> length s < 128 \<and> NUL \<notin> set s \<and> valid_utf8 s"

lemma binder_to_c_key_length: "length (binder_to_c_key s) = 128"
  by (simp add: binder_to_c_key_def Let_def)

lemma binder_from_to_key: "good_name s \<Longrightarrow> binder_from_c_key (binder_to_c_key s) = s"
proof -
  assume g: "good_name s"
  then have "length s < 128" by (simp add: good_name_def)
  moreover from this have "128 - length s = Suc (127 - length s)" by arith
  ultimately have "binder_to_c_key s = s @ NUL # replicate (127 - length s) NUL"
    by (simp add: binder_to_c_key_def)
  with g have "bytes_as_str (binder_to_c_key s) = Ok s"
    by (auto simp: bytes_as_str_Ok_iff good_name_def)
  then show ?thesis by (simp add: binder_from_c_key_def)
qed

lemma binder_from_c_key_good: "length c = 128 \<Longrightarrow> good_name (binder_from_c_key c)"
proof (cases "bytes_as_str c")
  case (Ok s)
  assume len: "length c = 128"
  from Ok obtain rest where c: "NUL \<notin> set s" "valid_utf8 s" "c = s @ NUL # rest"
    by (auto simp: bytes_as_str_Ok_iff)
  then have "length c = length s + Suc (length rest)" by simp
  with len have "length s < 128" by linarith
  moreover from Ok have "binder_from_c_key c = s" by (simp add: binder_from_c_key_def)
  ultimately show ?thesis using c(1,2) by (simp add: good_name_def)
qed (simp_all add: binder_from_c_key_def good_name_def)

interpretation binder_codec: bpf_map_codec BinderInterfaceBpfMap good_name "\<lambda>c. length c = 128"
  by unfold_locales
    (simp_all add: BinderInterfaceBpfMap_def binder_from_to_key binder_from_c_key_good
      binder_to_c_key_length)

lemma unstable_not_written:
  "binder_to_c_key (binder_from_c_key d) = c \<Longrightarrow> length d = 128 \<Longrightarrow>
     binder_to_c_key (binder_from_c_key c) = c"
  using binder_from_to_key [OF binder_from_c_key_good, of d] by auto

text \<open>
  C40. Round trip of an interface name through the kernel's key: it comes back as it was exactly
  when it is shorter than 128 bytes, has no NUL byte and is valid UTF-8. A Rust string is always
  valid UTF-8, but nothing checks the other two when a configuration is resolved.
\<close>

theorem binder_key_round_trip:
  "binder_from_c_key (binder_to_c_key s) = s \<longleftrightarrow> length s < 128 \<and> NUL \<notin> set s \<and> valid_utf8 s"
  using binder_from_to_key [of s] binder_from_c_key_good [OF binder_to_c_key_length, of s]
  by (auto simp: good_name_def)

text \<open>
  The method codes of an interface in the kernel's value: at most ten are stored, in order and
  padded with zeros; the eleventh and all later ones are dropped without an error.
\<close>

theorem binder_value_truncates:
  "binder_from_c_value (binder_to_c_value ids) = take 10 ids @ replicate (10 - length ids) 0"
  by (simp add: binder_from_c_value_def binder_to_c_value_def Let_def min_def)

subsection \<open>Draining\<close>

definition touches_map :: "effect \<Rightarrow> bool" where
  "touches_map e = (case e of MapUpdate _ _ _ _ \<Rightarrow> True | MapDelete _ _ \<Rightarrow> True | _ \<Rightarrow> False)"

text \<open>A BPF hash map under an exclusive lock: \<open>view\<close> is its contents after a trace, which only this
  process changes, by successful updates and deletions. Its keys have 128 bytes.\<close>

definition kernel_hash_map :: "bpf_env \<Rightarrow> (trace \<Rightarrow> CKey \<rightharpoonup> CValue) \<Rightarrow> bool" where
  "kernel_hash_map env view \<longleftrightarrow>
     (\<forall>t. finite (dom (view t)) \<and> (\<forall>k \<in> dom (view t). length k = 128))
   \<and> (\<forall>t. case map_get_first_key env t of (r, k) \<Rightarrow>
        (if view t = Map.empty then r = - ENOENT else r = 0 \<and> k \<in> dom (view t)))
   \<and> (\<forall>t k. map_delete env t k = (if k \<in> dom (view t) then 0 else - ENOENT))
   \<and> (\<forall>t k v. map_update env t k v 1 = 0 \<longrightarrow> k \<notin> dom (view t))
   \<and> (\<forall>t e. \<not> touches_map e \<longrightarrow> view (t @ [e]) = view t)
   \<and> (\<forall>t k r. view (t @ [MapDelete k r]) = (if r = 0 then (view t)(k := None) else view t))
   \<and> (\<forall>t k v f. length k = 128 \<longrightarrow>
        view (t @ [MapUpdate k v f (map_update env t k v f)]) =
          (if map_update env t k v f = 0 then (view t)(k \<mapsto> v) else view t))"

lemma kernel_hash_mapD:
  assumes "kernel_hash_map env view"
  shows kernel_finite: "finite (dom (view t))"
    and kernel_key_length: "k \<in> dom (view t) \<Longrightarrow> length k = 128"
    and kernel_first: "case map_get_first_key env t of (r, k) \<Rightarrow>
        (if view t = Map.empty then r = - ENOENT else r = 0 \<and> k \<in> dom (view t))"
    and kernel_delete: "map_delete env t k = (if k \<in> dom (view t) then 0 else - ENOENT)"
    and kernel_other: "\<not> touches_map e \<Longrightarrow> view (t @ [e]) = view t"
    and kernel_after_delete:
      "view (t @ [MapDelete k r]) = (if r = 0 then (view t)(k := None) else view t)"
    and kernel_after_update: "length k = 128 \<Longrightarrow>
      view (t @ [MapUpdate k v f (map_update env t k v f)]) =
        (if map_update env t k v f = 0 then (view t)(k \<mapsto> v) else view t)"
proof -
  note k = assms [unfolded kernel_hash_map_def]
  from k show "finite (dom (view t))" by (elim conjE) (drule spec [of _ t], elim conjE, assumption)
  from k show "k \<in> dom (view t) \<Longrightarrow> length k = 128"
    by (elim conjE) (drule spec [of _ t], elim conjE, drule (1) bspec)
  from k show "case map_get_first_key env t of (r, k) \<Rightarrow>
        (if view t = Map.empty then r = - ENOENT else r = 0 \<and> k \<in> dom (view t))"
    by (elim conjE) (erule spec)
  from k show "map_delete env t k = (if k \<in> dom (view t) then 0 else - ENOENT)"
    by (elim conjE) (erule allE [of _ t], erule spec)
  from k show "\<not> touches_map e \<Longrightarrow> view (t @ [e]) = view t"
    by (elim conjE) metis
  from k show "view (t @ [MapDelete k r]) = (if r = 0 then (view t)(k := None) else view t)"
    by (elim conjE) metis
  from k show "length k = 128 \<Longrightarrow>
      view (t @ [MapUpdate k v f (map_update env t k v f)]) =
        (if map_update env t k v f = 0 then (view t)(k \<mapsto> v) else view t)"
    by (elim conjE) metis
qed

lemma drain_step:
  assumes "kernel_hash_map env view"
  shows drain_step_empty:
      "view t = Map.empty \<Longrightarrow> \<exists>t'. drain (Suc n) env (h, t) = (Ok (), (h, t')) \<and> view t' = Map.empty"
    and drain_step_more: "view t \<noteq> Map.empty \<Longrightarrow> \<exists>c t1. c \<in> dom (view t) \<and>
      (let d = binder_to_c_key (binder_from_c_key c) in
       if d \<in> dom (view t)
       then view t1 = (view t)(d := None) \<and> drain (Suc n) env (h, t) = drain n env (h, t1)
       else view t1 = view t
         \<and> drain (Suc n) env (h, t) = (Err (Anyhow ''Failed to delete key {}''), (h, t1)))"
proof -
  obtain r c where f: "map_get_first_key env t = (r, c)" by (cases "map_get_first_key env t")
  let ?t1 = "t @ [MapGetFirstKey r]"
  have v1: "view ?t1 = view t" by (rule kernel_other [OF assms]) (simp add: touches_map_def)
  have first: "if view t = Map.empty then r = - ENOENT else r = 0 \<and> c \<in> dom (view t)"
    using kernel_first [OF assms, of t] f by simp
  show "\<exists>t'. drain (Suc n) env (h, t) = (Ok (), (h, t')) \<and> view t' = Map.empty"
    if "view t = Map.empty"
    using that first v1 f by (simp add: bpf_defs)
  assume "view t \<noteq> Map.empty"
  with first have r: "r = 0" and c: "c \<in> dom (view t)" by simp_all
  let ?d = "binder_to_c_key (binder_from_c_key c)"
  let ?t2 = "\<lambda>r'. ?t1 @ [MapDelete ?d r']"
  have del: "map_delete env ?t1 ?d = (if ?d \<in> dom (view t) then 0 else - ENOENT)"
    using kernel_delete [OF assms, of ?t1 ?d] v1 by simp
  have v2: "view (?t2 r') = (if r' = 0 then (view t)(?d := None) else view t)" for r'
    using kernel_after_delete [OF assms, of ?t1 ?d r'] v1 by simp
  show "\<exists>c t1. c \<in> dom (view t) \<and>
      (let d = binder_to_c_key (binder_from_c_key c) in
       if d \<in> dom (view t)
       then view t1 = (view t)(d := None) \<and> drain (Suc n) env (h, t) = drain n env (h, t1)
       else view t1 = view t
         \<and> drain (Suc n) env (h, t) = (Err (Anyhow ''Failed to delete key {}''), (h, t1)))"
  proof (cases "?d \<in> dom (view t)")
    case True
    then have "drain (Suc n) env (h, t) = drain n env (h, ?t2 0)"
      using f r del by (simp add: bpf_defs BinderInterfaceBpfMap_def ENOENT_def)
    with True c v2 [of 0] show ?thesis by (intro exI [of _ c] exI [of _ "?t2 0"]) (simp add: Let_def)
  next
    case False
    then have "drain (Suc n) env (h, t) =
        (Err (Anyhow ''Failed to delete key {}''), (h, ?t2 (- ENOENT)))"
      using f r del by (simp add: bpf_defs BinderInterfaceBpfMap_def ENOENT_def)
    with False c v2 [of "- ENOENT"] show ?thesis
      by (intro exI [of _ c] exI [of _ "?t2 (- ENOENT)"]) (simp add: Let_def ENOENT_def)
  qed
qed

text \<open>Fuel bounds the number of keys; all keys the daemon itself writes from good names are found
  again, a key that is not stable is never deleted.\<close>

lemma drain_clean_map:
  assumes "kernel_hash_map env view" and "card (dom (view t)) < n"
    and "\<forall>c \<in> dom (view t). binder_to_c_key (binder_from_c_key c) = c"
  shows "\<exists>t'. drain n env (h, t) = (Ok (), (h, t')) \<and> view t' = Map.empty"
  using assms(2,3)
proof (induction n arbitrary: t)
  case (Suc n)
  show ?case
  proof (cases "view t = Map.empty")
    case True
    then show ?thesis by (rule drain_step_empty [OF assms(1)])
  next
    case False
    from drain_step_more [OF assms(1) this, of n h] Suc.prems(2)
    obtain c t1 where c: "c \<in> dom (view t)" and v: "view t1 = (view t)(c := None)"
      and d: "drain (Suc n) env (h, t) = drain n env (h, t1)"
      by (auto simp: Let_def simp del: drain.simps split: if_splits)
    have "card (dom (view t1)) < n"
      using v c Suc.prems(1) kernel_finite [OF assms(1), of t] card_Diff1_less [of "dom (view t)" c]
      by simp
    moreover have "\<forall>c \<in> dom (view t1). binder_to_c_key (binder_from_c_key c) = c"
      using v Suc.prems(2) by simp
    ultimately show ?thesis using Suc.IH [of t1] d by simp
  qed
qed simp

lemma drain_bad_key:
  assumes "kernel_hash_map env view"
    and "c \<in> dom (view t)" and "binder_to_c_key (binder_from_c_key c) \<noteq> c"
  shows "\<exists>r t'. drain n env (h, t) = (r, (h, t')) \<and> r \<noteq> Ok () \<and> c \<in> dom (view t')"
  using assms(2)
proof (induction n arbitrary: t)
  case (Suc n)
  from Suc.prems have "view t \<noteq> Map.empty" by auto
  from drain_step_more [OF assms(1) this, of n h] obtain d t1 where
    in_d: "d \<in> dom (view t)" and d: "if binder_to_c_key (binder_from_c_key d) \<in> dom (view t)
       then view t1 = (view t)(binder_to_c_key (binder_from_c_key d) := None)
         \<and> drain (Suc n) env (h, t) = drain n env (h, t1)
       else view t1 = view t
         \<and> drain (Suc n) env (h, t) = (Err (Anyhow ''Failed to delete key {}''), (h, t1))"
    by (auto simp: Let_def simp del: drain.simps)
  have "binder_to_c_key (binder_from_c_key d) \<noteq> c"
    using assms(3) unstable_not_written kernel_key_length [OF assms(1) in_d] by blast
  with Suc.prems have in_t1: "c \<in> dom (view t1)" using d by (auto split: if_splits)
  show ?case
  proof (cases "binder_to_c_key (binder_from_c_key d) \<in> dom (view t)")
    case True
    then have "drain (Suc n) env (h, t) = drain n env (h, t1)" using d by (simp del: drain.simps)
    then show ?thesis using Suc.IH [OF in_t1] by (simp del: drain.simps)
  next
    case False
    then show ?thesis using d in_t1 by (simp del: drain.simps)
  qed
qed (use assms in auto)

lemma drain_enough_fuel:
  assumes "kernel_hash_map env view" and "card (dom (view t)) < n"
  shows "fst (drain n env (h, t)) \<in> {Ok (), Err (Anyhow ''Failed to delete key {}'')}"
  using assms(2)
proof (induction n arbitrary: t)
  case (Suc n)
  show ?case
  proof (cases "view t = Map.empty")
    case True
    from drain_step_empty [OF assms(1) this, of n h] show ?thesis
      by (auto simp del: drain.simps)
  next
    case False
    from drain_step_more [OF assms(1) this, of n h] obtain d t1 where
      d: "if d \<in> dom (view t)
         then view t1 = (view t)(d := None) \<and> drain (Suc n) env (h, t) = drain n env (h, t1)
         else drain (Suc n) env (h, t) = (Err (Anyhow ''Failed to delete key {}''), (h, t1))"
      unfolding Let_def by (metis (full_types))
    have less: "card (dom (view t1)) < n" if "d \<in> dom (view t)"
      using that d Suc.prems kernel_finite [OF assms(1), of t] card_Diff1_less [of "dom (view t)" d]
      by simp
    show ?thesis
    proof (cases "d \<in> dom (view t)")
      case True
      with d have "drain (Suc n) env (h, t) = drain n env (h, t1)" by (simp del: drain.simps)
      with Suc.IH [OF less [OF True]] show ?thesis by (simp only:)
    qed (use d in \<open>simp del: drain.simps\<close>)
  qed
qed simp

subsection \<open>A concrete kernel\<close>

text \<open>It has room for 5000 keys, as the map of \<open>bpf_progs/Binder.c\<close>.\<close>

definition kernel_room :: "(CKey \<times> CValue) list \<Rightarrow> CKey \<Rightarrow> bool" where
  "kernel_room m k \<longleftrightarrow> length m < 5000 \<or> map_of m k \<noteq> None"

fun kernel_apply :: "(CKey \<times> CValue) list \<Rightarrow> effect \<Rightarrow> (CKey \<times> CValue) list" where
  "kernel_apply m (MapUpdate k v f r) =
     (if r = 0 \<and> length k = 128 \<and> kernel_room m k then AList.update k v m else m)"
| "kernel_apply m (MapDelete k r) = (if r = 0 then AList.delete k m else m)"
| "kernel_apply m e = m"

definition kernel_contents :: "(CKey \<times> CValue) list \<Rightarrow> trace \<Rightarrow> (CKey \<times> CValue) list" where
  "kernel_contents m0 t = fold (\<lambda>e m. kernel_apply m e) t m0"

definition example_kernel :: "(CKey \<times> CValue) list \<Rightarrow> bpf_env" where
  "example_kernel m0 =
     \<lparr>ring_create = \<lambda>_ _. True, ring_discard = \<lambda>_ _. 0, perf_event_open = \<lambda>_ _ _ _ _. 3,
      map_open = \<lambda>_ _. 0,
      map_update = \<lambda>t k v f.
        (if f = 1 \<and> map_of (kernel_contents m0 t) k \<noteq> None then - 17
         else if kernel_room (kernel_contents m0 t) k then 0 else - 7),
      map_lookup = \<lambda>t k. (case map_of (kernel_contents m0 t) k of
         None \<Rightarrow> (- ENOENT, []) | Some v \<Rightarrow> (0, v)),
      map_get_first_key = \<lambda>t. (case kernel_contents m0 t of
         [] \<Rightarrow> (- ENOENT, []) | (k, _) # _ \<Rightarrow> (0, k)),
      map_delete = \<lambda>t k. (if map_of (kernel_contents m0 t) k = None then - ENOENT else 0)\<rparr>"

lemma kernel_contents_step:
  "kernel_contents m0 [] = m0"
  "kernel_contents m0 (t @ [e]) = kernel_apply (kernel_contents m0 t) e"
  by (simp_all add: kernel_contents_def)

lemma kernel_contents_keys:
  "list_all (\<lambda>(k, _). length k = 128) m0 \<Longrightarrow>
     list_all (\<lambda>(k, _). length k = 128) (kernel_contents m0 t)"
proof (induction t rule: rev_induct)
  case (snoc e t)
  have "fst ` set (kernel_apply m e) \<subseteq> fst ` set m \<union> {k. length k = 128}" for m
    by (cases e) (auto simp: update_conv' delete_conv simp flip: dom_map_of_conv_image_fst
        split: if_splits)
  with snoc show ?case by (fastforce simp: kernel_contents_step list_all_iff)
qed (simp add: kernel_contents_step)

lemma example_kernel_hash_map:
  assumes "list_all (\<lambda>(k, _). length k = 128) m0"
  shows "kernel_hash_map (example_kernel m0) (\<lambda>t. map_of (kernel_contents m0 t))"
proof -
  have keys: "length k = 128" if "k \<in> dom (map_of (kernel_contents m0 t))" for k t
    using that kernel_contents_keys [OF assms, of t]
    by (auto simp: list_all_iff dest: map_of_SomeD)
  have other: "kernel_apply m e = m" if "\<not> touches_map e" for m e
    using that by (cases e) (simp_all add: touches_map_def)
  have first: "case map_get_first_key (example_kernel m0) t of (r, k) \<Rightarrow>
      if map_of (kernel_contents m0 t) = Map.empty then r = - ENOENT
      else r = 0 \<and> k \<in> dom (map_of (kernel_contents m0 t))" for t
    by (cases "kernel_contents m0 t") (auto simp: example_kernel_def)
  have del: "map_of (kernel_apply m (MapDelete k r)) =
      (if r = 0 then (map_of m)(k := None) else map_of m)" for m k r
    by (simp add: delete_conv')
  have upd: "map_of (kernel_apply m (MapUpdate k v f r)) =
      (if r = 0 then (map_of m)(k \<mapsto> v) else map_of m)" if "length k = 128" "r = 0 \<longrightarrow> kernel_room m k"
      for m k v f r
    using that by (simp add: update_conv')
  have room: "map_update (example_kernel m0) t k v f = 0 \<longrightarrow> kernel_room (kernel_contents m0 t) k" for t k v f
    by (simp add: example_kernel_def)
  show ?thesis
    unfolding kernel_hash_map_def
    using keys other first del upd room
    by (intro conjI allI impI ballI)
      (simp_all only: kernel_contents_step finite_dom_map_of other del upd room,
       auto simp: example_kernel_def ENOENT_def update_conv' split: if_splits)
qed

lemma length_AList_update:
  "length (AList.update k v m) = (if map_of m k = None then Suc (length m) else length m)"
  by (induction m) auto

lemma example_kernel_capacity:
  assumes "length m0 < n" and "5000 < n"
  shows "card (dom (map_of (kernel_contents m0 t))) < n"
proof -
  have "length (kernel_apply m e) < n" if "length m < n" for m e
    using that assms(2)
    by (cases e) (auto simp: kernel_room_def length_AList_update
        intro: le_less_trans [OF length_delete_le])
  then have "length (kernel_contents m0 t) < n"
    by (induction t rule: rev_induct) (simp_all add: kernel_contents_step assms(1))
  then show ?thesis
    by (metis card_length dom_map_of_conv_image_fst le_less_trans length_map set_map)
qed

text \<open>
  Draining the filter map. If every key in the map was written from a name that makes the round
  trip, \<open>drain\<close> returns successfully and leaves the map empty; one iteration more than there are keys is
  enough.
\<close>

theorem drain_empties:
  assumes "kernel_hash_map env view" and "card (dom (view t)) < n"
    and "\<And>c. c \<in> dom (view t) \<Longrightarrow> \<exists>s. good_name s \<and> c = binder_to_c_key s"
  shows "\<exists>t'. drain n env (h, t) = (Ok (), (h, t')) \<and> view t' = Map.empty"
  by (rule drain_clean_map [OF assms(1,2)]) (metis assms(3) binder_from_to_key)

theorem drain_empties_witness:
  "\<exists>t'. drain 3 (example_kernel [(binder_to_c_key ''a.IFoo'', []), (binder_to_c_key ''b.IBar'', [])])
          ((), []) = (Ok (), ((), t'))
     \<and> map_of (kernel_contents [(binder_to_c_key ''a.IFoo'', []), (binder_to_c_key ''b.IBar'', [])] t')
          = Map.empty"
proof (rule drain_empties [OF example_kernel_hash_map])
  have good: "good_name ''a.IFoo'' \<and> good_name ''b.IBar''"
    by (simp add: good_name_def ascii_valid_utf8 ascii_def)
  let ?m = "[(binder_to_c_key ''a.IFoo'', []), (binder_to_c_key ''b.IBar'', [])]"
  show "list_all (\<lambda>(k, _). length k = 128) ?m" by (simp add: binder_to_c_key_length)
  show "card (dom (map_of (kernel_contents ?m []))) < 3"
    by (simp add: kernel_contents_step card_insert_if)
  show "\<exists>s. good_name s \<and> c = binder_to_c_key s" if "c \<in> dom (map_of (kernel_contents ?m []))" for c
    using that good by (auto simp: kernel_contents_step split: if_splits)
qed

text \<open>
  C38. An interface name of 128 bytes or more is written without a terminating NUL, is read back as
  the empty string, and so cannot be deleted by its name: with such a key in the map, \<open>drain\<close> fails
  and the key stays, and so does every later \<open>drain\<close>.
\<close>

theorem drain_stuck:
  assumes "kernel_hash_map env view" and "128 \<le> length s" and "NUL \<notin> set s"
    and "binder_to_c_key s \<in> dom (view t)" and "card (dom (view t)) < n"
  shows "\<exists>t'. drain n env (h, t) = (Err (Anyhow ''Failed to delete key {}''), (h, t'))
    \<and> binder_to_c_key s \<in> dom (view t')"
proof -
  let ?c = "binder_to_c_key s"
  have "?c = take 128 s" using assms(2) by (simp add: binder_to_c_key_def min_def)
  then have noNUL: "NUL \<notin> set ?c" using assms(3) set_take_subset [of 128 s] by auto
  then have "binder_from_c_key ?c = []"
    by (simp add: binder_from_c_key_def bytes_as_str_def from_bytes_until_nul_def)
  moreover have "NUL \<in> set (binder_to_c_key [])" by (simp add: binder_to_c_key_def)
  ultimately have "binder_to_c_key (binder_from_c_key ?c) \<noteq> ?c" using noNUL by auto
  from drain_bad_key [OF assms(1,4) this, of n h] drain_enough_fuel [OF assms(1,5), of h]
  show ?thesis by auto
qed

theorem drain_stuck_witness:
  "\<exists>t'. drain 2 (example_kernel [(binder_to_c_key (replicate 128 CHR ''a''), [])]) ((), [])
       = (Err (Anyhow ''Failed to delete key {}''), ((), t'))
     \<and> binder_to_c_key (replicate 128 CHR ''a'')
         \<in> dom (map_of (kernel_contents [(binder_to_c_key (replicate 128 CHR ''a''), [])] t'))"
  by (rule drain_stuck [OF example_kernel_hash_map])
    (simp_all add: binder_to_c_key_length kernel_contents_step)

end
