(* ===== verification/Poll_Loop.thy ===== *)
theory Poll_Loop
  imports Bpf_Map Generic_Instrumentation Process_Management Bitmap_Allocation Binder_Transaction
    Disruptive_App Accessibility
begin

section \<open>Polling\<close>

text \<open>
  \<open>android/bpf_handler.rs\<close>: the loop that polls a ring buffer until the task's duration is over and
  hands every item to the handler, and the registry of handlers. The loop has fuel, one unit for each
  poll; \<open>poll_registry_returns\<close> gives an amount that is enough for a clock that advances.
\<close>

subsection \<open>The loop\<close>

fun classify_error :: "err \<Rightarrow> ErrorType \<times> i64" where
  "classify_error (BpfProgramError point) = (ErrorTypeBpfProgramError, point)"
| "classify_error (BpfDataInvalid point) = (ErrorTypeBpfRingBufferDataInvalid, point)"
| "classify_error e = (ErrorTypeTaskExecutionFailed, 0)"

definition report_and_mark ::
  "('h, 't) handler \<Rightarrow> string \<Rightarrow> ResolvedTask \<Rightarrow> ErrorType \<times> i64 \<Rightarrow> err \<Rightarrow> ('h st, 'a) io" where
  "report_and_mark hdl map_path task ty_point e =
     io_then (write_internal_error (fst ty_point) (rt_id task) (PROG_PATH hdl) (Some map_path)
                (snd ty_point))
       (fail (ReportedToStatsd e))"

definition on_item_reported ::
  "('h, 't) handler \<Rightarrow> string \<Rightarrow> ResolvedTask \<Rightarrow> 't \<Rightarrow> ('h st, unit) io" where
  "on_item_reported hdl map_path task i =
     on_err (on_item hdl task i) (\<lambda>e. report_and_mark hdl map_path task (classify_error e) e)"

fun poll_while ::
  "nat \<Rightarrow> clock \<Rightarrow> ('h, 't) handler \<Rightarrow> 't ring \<Rightarrow> string \<Rightarrow> ResolvedTask \<Rightarrow> Timer \<Rightarrow> i64
     \<Rightarrow> ('h st, i64) io" where
  "poll_while 0 clk hdl ring map_path task timer total_events = lift_res NoFuel"
| "poll_while (Suc n) clk hdl ring map_path task timer total_events =
     io_bind (remaining_millis clk timer) (\<lambda>remaining.
       case remaining of
         None \<Rightarrow> ret total_events
       | Some ms \<Rightarrow>
           io_bind (lift_res (try_into_signed (int ms))) (\<lambda>remaining_ms.
           io_bind (on_err (BpfRingBuffer_poll ring map_path remaining_ms)
                      (report_and_mark hdl map_path task (ErrorTypeBpfRingBufferPollFailed, 0)))
             (\<lambda>result.
           io_bind (lift_res (checked_i64 ''attempt to add with overflow''
                      (sint total_events + sint (word_of_nat (length result) :: i64)))) (\<lambda>total_events.
           io_then (for_each (on_item_reported hdl map_path task) result)
             (poll_while n clk hdl ring map_path task timer total_events)))))"

definition poll_loop_generic ::
  "nat \<Rightarrow> bpf_env \<Rightarrow> clock \<Rightarrow> ('h, 't) handler \<Rightarrow> 't ring \<Rightarrow> string \<Rightarrow> ResolvedTask \<Rightarrow> duration
     \<Rightarrow> ('g st, unit) io" where
  "poll_loop_generic fuel bpf clk hdl ring map_path task dur =
     (if map_path \<noteq> MAP_PATH hdl then fail (Anyhow ''map_path mismatch: {} != {}'')
      else with_local (h_default hdl)
        (io_bind (Timer_new clk dur) (\<lambda>timer.
         io_then (on_err (BpfRingBuffer_new bpf map_path)
                    (report_and_mark hdl map_path task (ErrorTypeBpfRingBufferCreateFailed, 0)))
         (finally_do
            (io_bind (poll_while fuel clk hdl ring map_path task timer 0) (\<lambda>total_events.
             io_then (on_finished hdl)
             (io_bind (lift_res (bpf_map_path_to_enum map_path)) (\<lambda>path_enum.
              io_bind (lift_res (try_into_signed (int (as_millis dur)))) (\<lambda>ms.
              emit (BpfMapPolledWrite path_enum ms total_events (rt_id task)))))))
            BpfRingBuffer_drop))))"

subsection \<open>The registry\<close>

text \<open>What the polling threads use of the outside, with one ring buffer for each handler.\<close>

record rings =
  bitmap_ring :: "BitmapEvent ring"
  call_timestamp_ring :: "CallTimestamp ring"
  call_result_ring :: "CallResult ring"
  set_uid_ring :: "SetUidTempAllowlistStateRecord ring"
  update_idle_ring :: "UpdateDeviceIdleTempAllowlistRecord ring"
  binder_ring :: "BinderTransaction ring"
  accessibility_ring :: "AccessibilityEvent ring"
  bind_service_ring :: "BindServiceLocked ring"
  component_ring :: "ComponentEnabledSetting ring"
  jit_ring :: "StartActivityAsUser ring"
  aot_ring :: "UpdateDeviceIdleTempAllowlistRecord ring"

record daemon_env =
  e_bpf :: bpf_env
  e_clock :: clock
  e_stats :: stats_env
  e_bridge :: bridge
  e_device :: device
  e_flags :: flags
  e_rings :: rings
  e_hasher :: "string \<Rightarrow> u64"
  e_debug :: bool

type_synonym 'g poll_fn = "string \<Rightarrow> ResolvedTask \<Rightarrow> duration \<Rightarrow> ('g st, unit) io"

definition register_handler ::
  "nat \<Rightarrow> daemon_env \<Rightarrow> ('h, 't) handler \<Rightarrow> 't ring \<Rightarrow> (string, 'g poll_fn) hashmap
     \<Rightarrow> (string, 'g poll_fn) hashmap" where
  "register_handler fuel env hdl ring registry =
     snd (hm_insert (MAP_PATH hdl) (poll_loop_generic fuel (e_bpf env) (e_clock env) hdl ring) registry)"

definition HANDLER_REGISTRY :: "nat \<Rightarrow> daemon_env \<Rightarrow> (string, 'g poll_fn) hashmap" where
  "HANDLER_REGISTRY fuel env =
    (let fl = e_flags env; d = e_device env; clk = e_clock env; b = e_bridge env; r = e_rings env;
         codegen = \<lambda>a. CodegenAtomWriter_write (e_stats env) a;
         codegen_v1 = \<lambda>a. CodegenAtomWriter_write (e_stats env) a;
         stats = \<lambda>a. AStatsEventWriter_write (e_stats env) a;
         stats_a11y = \<lambda>a. AStatsEventWriter_write (e_stats env) a;
         m = [];
         m = (if enable_bitmap_snapshot fl
              then register_handler fuel env (BitmapAllocationHandlerV1_dict clk codegen_v1) (bitmap_ring r) m
              else register_handler fuel env (BitmapAllocationHandlerV0_dict codegen ()) (bitmap_ring r) m);
         m = register_handler fuel env (CallTimestampHandler stats ()) (call_timestamp_ring r) m;
         m = register_handler fuel env (CallResultHandler stats ()) (call_result_ring r) m;
         m = register_handler fuel env (SetUidTempAllowlistStateRecordHandler stats ()) (set_uid_ring r) m;
         m = register_handler fuel env (UpdateDeviceIdleTempAllowlistRecordHandler stats ())
               (update_idle_ring r) m;
         m = (if enable_binder_transaction fl
              then register_handler fuel env (BinderTransactionHandler d clk b stats ()) (binder_ring r) m
              else m);
         m = (if is_at_least_cinnamon_bun d then
                (let m = (if a11y_runtime_permission fl
                          then register_handler fuel env (AccessibilityHandler_dict d b stats_a11y)
                                 (accessibility_ring r) m
                          else m)
                 in if uprobestats_monitor_disruptive_app_activities fl
                    then register_handler fuel env (ComponentEnabledSettingHandler d clk b codegen ())
                           (component_ring r)
                          (register_handler fuel env (BindServiceLockedHandler d clk b codegen ())
                             (bind_service_ring r) m)
                    else m)
              else m)
     in if feature_art_test fl
        then register_handler fuel env (AotHandler (e_debug env) (e_hasher env) stats ()) (aot_ring r)
              (register_handler fuel env (JitHandler (e_hasher env) stats ()) (jit_ring r) m)
        else m)"

definition poll_registry ::
  "nat \<Rightarrow> daemon_env \<Rightarrow> string \<Rightarrow> ResolvedTask \<Rightarrow> duration \<Rightarrow> ('g st, unit) io" where
  "poll_registry fuel env map_path task dur =
     (case map_of (HANDLER_REGISTRY fuel env) map_path of
        None \<Rightarrow> fail (Anyhow ''unsupported map_path: {}'')
      | Some poll_loop_fn \<Rightarrow> poll_loop_fn map_path task dur)"

subsection \<open>What the loop relies on\<close>

text \<open>The effects that belong to the loop: no handler produces one.\<close>

fun loop_effect :: "effect \<Rightarrow> bool" where
  "loop_effect (RingPoll _ _ _) = True"
| "loop_effect (RingCreate _ _) = True"
| "loop_effect RingDestroy = True"
| "loop_effect (InternalErrorWrite _ _ _ _ _) = True"
| "loop_effect (BpfMapPolledWrite _ _ _ _) = True"
| "loop_effect _ = False"

text \<open>\<open>unmarked m\<close>: an error of \<open>m\<close> does not carry the marker \<open>ReportedToStatsd\<close>.\<close>

definition unmarked :: "('s, 'a) io \<Rightarrow> bool" where
  "unmarked m \<longleftrightarrow> (\<forall>s e. fst (m s) \<noteq> Err (ReportedToStatsd e))"

lemma unmarked_pure: "(\<And>e. r \<noteq> Err (ReportedToStatsd e)) \<Longrightarrow> unmarked (lift_res r)"
  by (simp add: unmarked_def)

lemma unmarked_bind:
  assumes "unmarked m" and "\<And>x. unmarked (f x)"
  shows "unmarked (io_bind m f)"
  unfolding unmarked_def
proof (intro allI)
  fix s e
  obtain r s' where m: "m s = (r, s')" by (cases "m s")
  with assms(1) have "r \<noteq> Err (ReportedToStatsd e)" by (metis unmarked_def fst_conv)
  with m assms(2) show "fst (io_bind m f s) \<noteq> Err (ReportedToStatsd e)"
    by (cases r) (simp_all add: io_bind_def unmarked_def)
qed

lemma unmarked_for_each: "(\<And>x. unmarked (f x)) \<Longrightarrow> unmarked (for_each f xs)"
  by (induction xs) (auto intro: unmarked_pure unmarked_bind)

lemma unmarked_world:
  "unmarked (ext_call q e)" "unmarked (emit e')" "unmarked get_self" "unmarked (modify_self f)"
  "unmarked (AStatsEventWriter_write env a)" "unmarked (CodegenAtomWriter_write env c)"
  by (auto simp: unmarked_def ext_call_def emit_def get_self_def modify_self_def
      AStatsEventWriter_write_eq CodegenAtomWriter_write_eq Let_def)

lemma unmarked_try_into [simp]:
  "checked_i64 msg i \<noteq> Err (ReportedToStatsd e)" "bpf_map_path_to_enum mp \<noteq> Err (ReportedToStatsd e)"
  "try_into_signed i \<noteq> Err (ReportedToStatsd e)" "try_into_unsigned i \<noteq> Err (ReportedToStatsd e)"
  by (simp_all add: checked_i64_def bpf_map_path_to_enum_def rsplit_next_def try_into_signed_def
      try_into_unsigned_def)

lemmas unmarked_intros = unmarked_pure unmarked_bind unmarked_for_each unmarked_world

locale polled_handler = handler_contract hdl inv
  for hdl :: "('h, 't) handler" and inv :: "'h \<Rightarrow> bool" +
  assumes on_item_never: "io_steps (never_emits loop_effect) (on_item hdl task d)"
    and on_finished_never: "io_steps (never_emits loop_effect) (on_finished hdl)"
    and on_item_fuel: "fuel_free (on_item hdl task d)"
    and on_finished_fuel: "fuel_free (on_finished hdl)"
    and on_finished_unmarked: "unmarked (on_finished hdl)"

lemma never_writers:
  "io_steps (never_emits loop_effect) (AStatsEventWriter_write env a)"
  "io_steps (never_emits loop_effect) (CodegenAtomWriter_write env c)"
  by (auto simp: io_steps_def never_emits_def AStatsEventWriter_write_eq CodegenAtomWriter_write_eq
      Let_def)

lemma never_bridge:
  "io_steps (never_emits loop_effect) (bridge_service_get d b)"
  "io_steps (never_emits loop_effect) (isLauncherActivity b p c m)"
  "io_steps (never_emits loop_effect) (getUidForPackage b p)"
  "io_steps (never_emits loop_effect) (packageHasEnabledAccessibilityService b p)"
  "io_steps (never_emits loop_effect) (enqueueEvent b ev fl)"
  "io_steps (never_emits loop_effect) (get_current_timestamp_millis clk)"
  by (auto simp: bridge_defs get_current_timestamp_millis_def intro!: never_intros split: res.split)

lemma fuel_free_writers:
  "fuel_free (AStatsEventWriter_write env a)" "fuel_free (CodegenAtomWriter_write env c)"
  by (auto simp: fuel_free_def AStatsEventWriter_write_eq CodegenAtomWriter_write_eq Let_def)

lemmas polled_intros = never_intros never_writers never_bridge
lemmas fuel_intros = fuel_free_intros fuel_free_world fuel_free_writers fuel_free_bridge

lemma NoFuel_helpers [simp]:
  "checked_i64 msg v \<noteq> NoFuel" "index xs i \<noteq> NoFuel" "method_identifier offs \<noteq> NoFuel"
  by (simp_all add: checked_i64_def index_def method_identifier_def)

lemma register_fields_NoFuel [simp]: "register_fields data ps \<noteq> NoFuel"
proof (induction ps)
  case (Cons p ps)
  have "register_value data p \<noteq> NoFuel"
    unfolding register_value_def Let_def by (simp add: res_bind_NoFuel)
  with Cons show ?case unfolding register_fields.simps by (intro res_bind_NoFuel) simp_all
qed simp

lemma handler_NoFuel [simp]:
  "api_method_identifier task \<noteq> NoFuel" "assert_method api ident \<noteq> NoFuel"
  "r \<noteq> NoFuel \<Longrightarrow> unwrap r \<noteq> NoFuel" "aidl_event_from e \<noteq> NoFuel" "grant_atom g \<noteq> NoFuel"
  "collect_res (atom_field uid name code ts) ps \<noteq> NoFuel" "r \<noteq> NoFuel \<Longrightarrow> map_err f r \<noteq> NoFuel"
proof -
  show "api_method_identifier task \<noteq> NoFuel"
    unfolding api_method_identifier_def by (intro res_bind_NoFuel) simp_all
  show "assert_method api ident \<noteq> NoFuel" by (simp add: assert_method_def)
  show "unwrap r \<noteq> NoFuel" if "r \<noteq> NoFuel" using that by (cases r) (simp_all add: unwrap_def)
  show "aidl_event_from e \<noteq> NoFuel" by (simp add: aidl_event_from_def split: res.split)
  show "grant_atom g \<noteq> NoFuel"
    unfolding grant_atom_def by (intro res_bind_NoFuel collect_res_NoFuel) (simp_all split: prod.split)
  have "atom_field uid name code ts p \<noteq> NoFuel" for p by (cases p) simp_all
  then show "collect_res (atom_field uid name code ts) ps \<noteq> NoFuel" by (rule collect_res_NoFuel)
  show "map_err f r \<noteq> NoFuel" if "r \<noteq> NoFuel" using that by (cases r) simp_all
qed

lemma res_bind_not_Err: "r \<noteq> Err e \<Longrightarrow> (\<And>x. f x \<noteq> Err e) \<Longrightarrow> res_bind r f \<noteq> Err e"
  by (cases r) auto

lemma collect_res_not_Err: "(\<And>x. f x \<noteq> Err e) \<Longrightarrow> collect_res f xs \<noteq> Err e"
proof (induction xs)
  case (Cons x xs)
  then show ?case unfolding collect_res.simps by (intro res_bind_not_Err) simp_all
qed simp

lemma grant_atom_unmarked [simp]: "grant_atom g \<noteq> Err (ReportedToStatsd e)"
  unfolding grant_atom_def
  by (intro res_bind_not_Err collect_res_not_Err) (simp_all split: prod.split)

subsection \<open>The twelve handlers\<close>

interpretation polled_bitmap_v0: polled_handler
    "BitmapAllocationHandlerV0_dict (CodegenAtomWriter_write env) dflt" "\<lambda>_. True"
  by unfold_locales
    (auto simp: BitmapAllocationHandlerV0_dict_def BitmapV0_on_item_def
      intro!: polled_intros fuel_intros unmarked_intros)

interpretation polled_call_timestamp: polled_handler
    "CallTimestampHandler (AStatsEventWriter_write env) dflt" "\<lambda>_. True"
  by unfold_locales
    (auto simp: CallTimestampHandler_def CallTimestamp_on_item_def when_logging_def
      intro!: polled_intros fuel_intros unmarked_intros)

interpretation polled_call_result: polled_handler
    "CallResultHandler (AStatsEventWriter_write env) dflt" "\<lambda>_. True"
  by unfold_locales
    (auto simp: CallResultHandler_def CallResult_on_item_def when_logging_def
      intro!: polled_intros fuel_intros unmarked_intros)

interpretation polled_set_uid: polled_handler
    "SetUidTempAllowlistStateRecordHandler (AStatsEventWriter_write env) dflt" "\<lambda>_. True"
  by unfold_locales
    (auto simp: SetUidTempAllowlistStateRecordHandler_def SetUidTempAllowlistStateRecord_on_item_def
      when_logging_def intro!: polled_intros fuel_intros unmarked_intros)

interpretation polled_update_idle: polled_handler
    "UpdateDeviceIdleTempAllowlistRecordHandler (AStatsEventWriter_write env) dflt" "\<lambda>_. True"
  by unfold_locales
    (auto simp: UpdateDeviceIdleTempAllowlistRecordHandler_def
      UpdateDeviceIdleTempAllowlistRecord_on_item_def when_logging_def
      intro!: polled_intros fuel_intros unmarked_intros)

interpretation polled_jit: polled_handler "JitHandler hash (AStatsEventWriter_write env) dflt" "\<lambda>_. True"
  by unfold_locales
    (auto simp: JitHandler_def Jit_on_item_def when_logging_def
      intro!: polled_intros fuel_intros unmarked_intros)

interpretation polled_aot: polled_handler
    "AotHandler dbg hash (AStatsEventWriter_write env) dflt" "\<lambda>_. True"
  by unfold_locales
    (auto simp: AotHandler_def Aot_on_item_def when_logging_def
      intro!: polled_intros fuel_intros unmarked_intros split: if_splits)

interpretation polled_binder: polled_handler
    "BinderTransactionHandler d clk b (AStatsEventWriter_write env) dflt" "\<lambda>_. True"
  by unfold_locales
    (auto simp: BinderTransactionHandler_def binder_item_defs
      intro!: polled_intros fuel_intros unmarked_intros)

interpretation polled_component: polled_handler
    "ComponentEnabledSettingHandler d clk b (CodegenAtomWriter_write env) dflt" "\<lambda>_. True"
  by unfold_locales
    (auto simp: ComponentEnabledSettingHandler_def component_defs
      intro!: polled_intros fuel_intros unmarked_intros)

interpretation polled_bind: polled_handler
    "BindServiceLockedHandler d clk b (CodegenAtomWriter_write env) dflt" "\<lambda>_. True"
  by unfold_locales
    (auto simp: BindServiceLockedHandler_def bind_defs
      intro!: polled_intros fuel_intros unmarked_intros)

interpretation polled_bitmap_v1: polled_handler
    "BitmapAllocationHandlerV1_dict clk (CodegenAtomWriter_write env)" bitmap_inv
proof unfold_locales
  let ?d = "BitmapAllocationHandlerV1_dict clk (CodegenAtomWriter_write env)"
  show "io_steps (never_emits loop_effect) (on_item ?d task data)" for task data
    unfolding BitmapAllocationHandlerV1_dict_def handler.simps bitmap_item_defs
    by (auto intro!: polled_intros)
  show "fuel_free (on_item ?d task data)" for task data
    unfolding BitmapAllocationHandlerV1_dict_def handler.simps bitmap_item_defs
    by (auto intro!: fuel_intros)
qed (auto simp: BitmapAllocationHandlerV1_dict_def BitmapV1_on_finished_def
      intro!: polled_intros fuel_intros unmarked_intros)

interpretation polled_a11y: polled_handler
    "AccessibilityHandler_dict d b (AStatsEventWriter_write env)" a11y_inv
  by unfold_locales
    (auto simp: AccessibilityHandler_dict_def Accessibility_on_item_def Accessibility_on_finished_def
      handle_permission_grant_event_def handle_a11y_event_def Let_def
      intro!: polled_intros fuel_intros unmarked_intros)

subsection \<open>Reporting\<close>

fun is_internal_error :: "effect \<Rightarrow> bool" where
  "is_internal_error (InternalErrorWrite _ _ _ _ _) = True"
| "is_internal_error _ = False"

abbreviation internal_errors :: "trace \<Rightarrow> effect list" where
  "internal_errors \<equiv> filter is_internal_error"

fun marked :: "'a res \<Rightarrow> err option" where
  "marked (Err (ReportedToStatsd e)) = Some e"
| "marked r = None"

text \<open>An error with the marker was reported exactly once, as \<open>Q\<close> says; any other outcome reports
  nothing. This passes through sequencing.\<close>

definition report_ok :: "(err \<Rightarrow> effect \<Rightarrow> bool) \<Rightarrow> err option \<Rightarrow> trace \<Rightarrow> trace \<Rightarrow> bool" where
  "report_ok Q e t t' \<longleftrightarrow>
     (case e of
        None \<Rightarrow> internal_errors t' = internal_errors t
      | Some e \<Rightarrow> \<exists>ie. Q e ie \<and> internal_errors t' = internal_errors t @ [ie])"

definition reports_once :: "(err \<Rightarrow> effect \<Rightarrow> bool) \<Rightarrow> ('h st, 'a) io \<Rightarrow> bool" where
  "reports_once Q m \<longleftrightarrow> (\<forall>h t. report_ok Q (marked (fst (m (h, t)))) t (snd (snd (m (h, t)))))"

definition loop_report :: "ResolvedTask \<Rightarrow> string \<Rightarrow> err \<Rightarrow> effect \<Rightarrow> bool" where
  "loop_report task map_path e ie \<longleftrightarrow> (\<exists>ty prog point.
     ie = InternalErrorWrite ty (rt_id task) prog (ie_map (Some map_path)) point
     \<and> (ty, point) \<in> {classify_error e, (ErrorTypeBpfRingBufferCreateFailed, 0),
           (ErrorTypeBpfRingBufferPollFailed, 0)})"

lemma marked_Some_iff: "marked r = Some e \<longleftrightarrow> r = Err (ReportedToStatsd e)"
  by (cases r rule: marked.cases) auto

lemma marked_None_if: "(\<And>e. r \<noteq> Err (ReportedToStatsd e)) \<Longrightarrow> marked r = None"
  by (cases "marked r") (simp_all add: marked_Some_iff)

lemma reportsD: "reports_once Q m \<Longrightarrow> m (h, t) = (r, (h', t')) \<Longrightarrow> report_ok Q (marked r) t t'"
  unfolding reports_once_def by (metis fst_conv snd_conv)

lemma reportsI:
  "(\<And>h t r h' t'. m (h, t) = (r, (h', t')) \<Longrightarrow> report_ok Q (marked r) t t') \<Longrightarrow> reports_once Q m"
  unfolding reports_once_def by (metis prod.collapse)

lemma report_ok_None: "report_ok Q None t t' \<longleftrightarrow> internal_errors t' = internal_errors t"
  by (simp add: report_ok_def)

lemma report_ok_trans: "report_ok Q None t t' \<Longrightarrow> report_ok Q e t' t'' \<Longrightarrow> report_ok Q e t t''"
  by (simp add: report_ok_def split: option.splits)

lemma reports_pure: "(\<And>e. r \<noteq> Err (ReportedToStatsd e)) \<Longrightarrow> reports_once Q (lift_res r)"
  by (simp add: reports_once_def marked_None_if report_ok_None)

lemma reports_bind:
  fixes m :: "('h st, 'a) io" and f :: "'a \<Rightarrow> ('h st, 'b) io"
  assumes m: "reports_once Q m" and f: "\<And>x. reports_once Q (f x)"
  shows "reports_once Q (io_bind m f)"
proof (rule reportsI)
  fix h t h'' t'' and r'' :: "'b res"
  assume run: "io_bind m f (h, t) = (r'', (h'', t''))"
  obtain r h' t' where ms: "m (h, t) = (r, (h', t'))" by (cases "m (h, t)") auto
  note ok = reportsD [OF m ms]
  show "report_ok Q (marked r'') t t''"
  proof (cases r)
    case (Ok x)
    with run ms have "f x (h', t') = (r'', (h'', t''))" by (simp add: io_bind_def)
    from reportsD [OF f this] ok Ok show ?thesis by (auto intro: report_ok_trans)
  next
    case (Err e)
    then have "r'' = Err e" "t'' = t'" using run ms by (simp_all add: io_bind_def)
    moreover have "marked (Err e :: 'b res) = marked (Err e :: 'a res)" by (cases e) simp_all
    ultimately show ?thesis using ok Err by simp
  qed (use ok run ms in \<open>auto simp: io_bind_def\<close>)
qed

lemma reports_for_each: "(\<And>x. reports_once Q (f x)) \<Longrightarrow> reports_once Q (for_each f xs)"
  by (induction xs) (auto intro: reports_pure reports_bind)

lemma never_internal: "never_emits loop_effect s s' \<Longrightarrow> internal_errors (snd s') = internal_errors (snd s)"
proof -
  assume "never_emits loop_effect s s'"
  then have "filter is_internal_error (filter loop_effect (snd s')) =
      filter is_internal_error (filter loop_effect (snd s))" by (simp add: never_emits_def)
  moreover have "(\<lambda>e. loop_effect e \<and> is_internal_error e) = is_internal_error"
  proof
    fix e show "(loop_effect e \<and> is_internal_error e) = is_internal_error e" by (cases e) simp_all
  qed
  ultimately show ?thesis by (simp add: conj_commute)
qed

lemma reports_silent:
  assumes "io_steps (never_emits loop_effect) m" and "unmarked m"
  shows "reports_once Q m"
proof (rule reportsI)
  fix h t r h' t' assume m: "m (h, t) = (r, (h', t'))"
  have "never_emits loop_effect (h, t) (h', t')" using assms(1) m by (metis io_steps_def snd_conv)
  moreover have "marked r = None" using assms(2) m by (intro marked_None_if) (metis unmarked_def fst_conv)
  ultimately show "report_ok Q (marked r) t t'" by (simp add: report_ok_None never_internal [of "(h, t)" "(h', t')", simplified])
qed

lemma reports_effect:
  "(\<And>r. \<not> is_internal_error (e r)) \<Longrightarrow> reports_once Q (ext_call q e)"
  "\<not> is_internal_error e' \<Longrightarrow> reports_once Q (emit e')"
  by (auto simp: reports_once_def report_ok_None)

lemma reports_finally_do:
  assumes "reports_once Q m" and "io_steps (never_emits is_internal_error) k"
  shows "reports_once Q (finally_do m k)"
proof (rule reportsI)
  fix h t r h'' t'' assume run: "finally_do m k (h, t) = (r, (h'', t''))"
  obtain h' t' where m: "m (h, t) = (r, (h', t'))" and k: "snd (k (h', t')) = (h'', t'')"
    using run by (auto simp: finally_do_def split: prod.splits)
  have "internal_errors t'' = internal_errors t'"
    using assms(2) k unfolding io_steps_def never_emits_def by (metis snd_conv)
  with reportsD [OF assms(1) m] show "report_ok Q (marked r) t t''"
    by (simp add: report_ok_def split: option.splits)
qed

lemma reports_with_local: "reports_once Q m \<Longrightarrow> reports_once Q (with_local l m)"
  by (simp add: reports_once_def)

lemma reports_on_err:
  assumes "io_steps (never_emits is_internal_error) m"
    and "\<And>e. Q e (InternalErrorWrite (fst (tp e)) (rt_id task) (ie_program (PROG_PATH hdl))
            (ie_map (Some mp)) (snd (tp e)))"
  shows "reports_once Q (on_err m (\<lambda>e. report_and_mark hdl mp task (tp e) e))"
proof (rule reportsI)
  fix h t r'' h'' t''
  assume run: "on_err m (\<lambda>e. report_and_mark hdl mp task (tp e) e) (h, t) = (r'', (h'', t''))"
  obtain r h' t' where m: "m (h, t) = (r, (h', t'))" by (cases "m (h, t)") auto
  then have "internal_errors t' = internal_errors t"
    using assms(1) unfolding io_steps_def never_emits_def by (metis snd_conv)
  then show "report_ok Q (marked r'') t t''"
    using run m assms(2) by (cases r) (auto simp: on_err_def report_and_mark_def report_ok_def)
qed

lemma loop_report_kinds:
  "loop_report task mp e (InternalErrorWrite (fst (classify_error e)) (rt_id task) prog
     (ie_map (Some mp)) (snd (classify_error e)))"
  "loop_report task mp e (InternalErrorWrite ErrorTypeBpfRingBufferCreateFailed (rt_id task) prog
     (ie_map (Some mp)) 0)"
  "loop_report task mp e (InternalErrorWrite ErrorTypeBpfRingBufferPollFailed (rt_id task) prog
     (ie_map (Some mp)) 0)"
  by (auto simp: loop_report_def)

context polled_handler
begin

lemma on_item_reported_once:
  "reports_once (loop_report task mp) (on_item_reported hdl mp task i)"
  unfolding on_item_reported_def
proof (rule reports_on_err [where tp = classify_error])
  show "io_steps (never_emits is_internal_error) (on_item hdl task i)"
    using on_item_never never_internal unfolding io_steps_def never_emits_def [of is_internal_error] by blast
qed (rule loop_report_kinds)

lemma poll_while_reports:
  "reports_once (loop_report task mp) (poll_while n clk hdl ring mp task tm cnt)"
proof (induction n arbitrary: cnt)
  case (Suc n)
  have rem: "reports_once Q (remaining_millis clk tm)" for Q
    by (rule reports_silent) (auto simp: remaining_millis_def Let_def intro!: never_intros unmarked_intros)
  have poll: "reports_once (loop_report task mp)
      (on_err (BpfRingBuffer_poll ring mp ms)
         (report_and_mark hdl mp task (ErrorTypeBpfRingBufferPollFailed, 0)))" for ms
    by (rule reports_on_err [where tp = "\<lambda>_. (ErrorTypeBpfRingBufferPollFailed, 0)"])
      (auto simp: loop_report_kinds bpf_defs intro!: never_intros split: prod.split)
  show ?case
    unfolding poll_while.simps
    by (intro reports_bind rem poll reports_for_each on_item_reported_once Suc)
      (auto intro!: reports_pure reports_bind poll reports_for_each
        on_item_reported_once Suc split: option.split)
qed (simp add: reports_pure)

lemma poll_loop_reports:
  "reports_once (loop_report task mp) (poll_loop_generic n bpf clk hdl ring mp task dur)"
proof -
  have tm: "reports_once Q (Timer_new clk dur)" for Q
    by (rule reports_silent) (auto simp: Timer_new_def intro!: never_intros unmarked_intros)
  have create: "reports_once (loop_report task mp)
      (on_err (BpfRingBuffer_new bpf mp)
         (report_and_mark hdl mp task (ErrorTypeBpfRingBufferCreateFailed, 0)))" for mp
    by (rule reports_on_err [where tp = "\<lambda>_. (ErrorTypeBpfRingBufferCreateFailed, 0)"])
      (auto simp: loop_report_kinds bpf_defs intro!: never_intros)
  have fin: "reports_once Q (on_finished hdl)" for Q
    by (rule reports_silent [OF on_finished_never on_finished_unmarked])
  show ?thesis
    unfolding poll_loop_generic_def
    by (auto simp: BpfRingBuffer_drop_def intro!: reports_pure reports_with_local reports_bind tm create
        fin reports_finally_do poll_while_reports reports_effect never_intros)
qed

lemma on_item_reported_fuel: "fuel_free (on_item_reported hdl mp task i)"
  by (auto simp: on_item_reported_def report_and_mark_def intro!: fuel_intros on_item_fuel)

lemma on_item_reported_grows: "io_steps grows (on_item_reported hdl mp task i)"
  by (auto simp: on_item_reported_def report_and_mark_def intro!: grows_intros on_item_grows)

lemma poll_while_grows: "io_steps grows (poll_while n clk hdl ring mp task tm cnt)"
  by (induction n arbitrary: cnt)
    (auto simp: report_and_mark_def intro!: grows_intros grows_clock grows_bpf on_item_reported_grows)

lemma poll_loop_grows: "io_steps grows (poll_loop_generic n bpf clk hdl ring mp task dur)"
  by (auto simp: poll_loop_generic_def report_and_mark_def intro!: grows_intros grows_clock grows_bpf
      poll_while_grows on_finished_grows)

end

subsection \<open>Termination\<close>

lemma poll_fuel_free: "fuel_free (on_err (BpfRingBuffer_poll ring mp ms) (report_and_mark hdl mp task tp))"
  by (auto simp: bpf_defs report_and_mark_def intro!: fuel_intros split: prod.split)

lemma poll_takes_time:
  assumes "ticking clk"
    and "on_err (BpfRingBuffer_poll ring mp ms) (report_and_mark hdl mp task tp) (h, t) = (Ok x, (h', t'))"
  shows "instant_now clk t < instant_now clk t'"
  using assms by (auto simp: on_err_def bpf_defs report_and_mark_def ticking_def ensure_def
      split: prod.splits if_splits res.splits)

context polled_handler
begin

lemma poll_while_enough_fuel:
  assumes clk: "ticking clk" and "expiry tm \<le> instant_now clk t + n"
  shows "fst (poll_while (Suc n) clk hdl ring mp task tm cnt (h, t)) \<noteq> NoFuel"
  using assms(2)
proof (induction n arbitrary: cnt h t)
  case 0
  then show ?case using remaining_millis_None_iff [of clk tm h t] by (auto simp: io_bind_run)
next
  case (Suc n)
  show ?case
  proof
    assume "fst (poll_while (Suc (Suc n)) clk hdl ring mp task tm cnt (h, t)) = NoFuel"
    then obtain s where run: "poll_while (Suc (Suc n)) clk hdl ring mp task tm cnt (h, t) = (NoFuel, s)"
      by (metis prod.collapse)
    obtain rem where rem: "remaining_millis clk tm (h, t) = (Ok rem, (h, t @ [InstantNow]))"
      by (simp add: remaining_millis_def Let_def)
    with run obtain ms where rem': "rem = Some ms"
      by (cases rem) (auto simp: poll_while.simps(2) [of "Suc n"] io_bind_run simp del: poll_while.simps)
    let ?poll = "\<lambda>w. on_err (BpfRingBuffer_poll ring mp w)
        (report_and_mark hdl mp task (ErrorTypeBpfRingBufferPollFailed, 0))"
    have no_poll: "?poll w s1 \<noteq> (NoFuel, s2)" for w s1 s2 by (rule fuel_freeD [OF poll_fuel_free])
    have no_items: "for_each (on_item_reported hdl mp task) xs s1 \<noteq> (NoFuel, s2)" for xs s1 s2
      by (rule fuel_freeD [OF fuel_free_for_each [OF on_item_reported_fuel]])
    from run rem rem' obtain w xs h1 t1 cnt' h2 t2 where
      p: "?poll w (h, t @ [InstantNow]) = (Ok xs, (h1, t1))"
      and items: "for_each (on_item_reported hdl mp task) xs (h1, t1) = (Ok (), (h2, t2))"
      and rest: "poll_while (Suc n) clk hdl ring mp task tm cnt' (h2, t2) = (NoFuel, s)"
      by (auto simp: poll_while.simps(2) [of "Suc n"] io_bind_run io_bind_NoFuel_iff no_poll no_items
          simp del: poll_while.simps)
    have "instant_now clk t < instant_now clk t1"
      using poll_takes_time [OF clk p] ticking_mono [OF clk, of t "t @ [InstantNow]"] by simp
    moreover have "instant_now clk t1 \<le> instant_now clk t2"
    proof (rule ticking_mono [OF clk])
      have "io_steps grows (for_each (on_item_reported hdl mp task) xs)"
        by (intro grow.steps_for_each on_item_reported_grows)
      from growsD [OF this items] show "prefix t1 t2" .
    qed
    ultimately have "expiry tm \<le> instant_now clk t2 + n" using Suc.prems by linarith
    from Suc.IH [OF this, of cnt' h2] rest show False by (metis fst_conv)
  qed
qed

lemma poll_loop_enough_fuel:
  assumes "ticking clk" and "(as_millis dur + 1) * 1000000 < n"
  shows "fuel_free (poll_loop_generic n bpf clk hdl ring mp task dur)"
  unfolding fuel_free_def
proof (intro allI notI)
  fix s :: "'g st" assume nf: "fst (poll_loop_generic n bpf clk hdl ring mp task dur s) = NoFuel"
  let ?create = "\<lambda>p. on_err (BpfRingBuffer_new bpf p)
      (report_and_mark hdl p task (ErrorTypeBpfRingBufferCreateFailed, 0))"
  have "fuel_free (?create p)" for p by (auto simp: bpf_defs report_and_mark_def intro!: fuel_intros)
  then have no_create: "?create p s1 \<noteq> (NoFuel, s2)" for p s1 s2 by (rule fuel_freeD)
  have no_fin: "on_finished hdl s1 \<noteq> (NoFuel, s2)" for s1 s2 by (rule fuel_freeD [OF on_finished_fuel])
  obtain g t where s: "s = (g, t)" by (cases s)
  from nf s obtain s1 h2 t2 where
    create: "?create mp (h_default hdl, t @ [InstantNow]) = (Ok (), (h2, t2))"
    and loop: "poll_while n clk hdl ring mp task \<lparr>timer_now = instant_now clk t, timer_duration = dur\<rparr> 0
        (h2, t2) = (NoFuel, s1)"
    by (auto simp: poll_loop_generic_def Timer_new_def NoFuel_run_iff io_bind_NoFuel_iff
        finally_do_NoFuel_iff no_create no_fin bpf_map_path_to_enum_def rsplit_next_def
        split: if_splits)
  obtain k where n: "n = Suc k" using assms(2) by (cases n) simp_all
  have "io_steps grows (on_err (BpfRingBuffer_new bpf mp)
      (report_and_mark hdl mp task (ErrorTypeBpfRingBufferCreateFailed, 0)))"
    by (auto simp: report_and_mark_def intro!: grows_intros grows_bpf)
  from growsD [OF this create] have "prefix (t @ [InstantNow]) t2" .
  then have "instant_now clk t \<le> instant_now clk t2"
    by (intro ticking_mono [OF assms(1)]) (auto dest: append_prefixD)
  with assms(2) n have "expiry \<lparr>timer_now = instant_now clk t, timer_duration = dur\<rparr> \<le> instant_now clk t2 + k"
    by (simp add: expiry_def)
  from poll_while_enough_fuel [OF assms(1) this] loop n show False by (metis fst_conv)
qed

end

subsection \<open>What the ring buffer delivered\<close>

text \<open>The items that the polls in \<open>u\<close> delivered, when \<open>u\<close> happened after \<open>t\<close>.\<close>

fun delivered :: "'t ring \<Rightarrow> trace \<Rightarrow> trace \<Rightarrow> 't list" where
  "delivered ring t [] = []"
| "delivered ring t (e # u) =
     (case e of RingPoll _ ms _ \<Rightarrow> snd (ring t ms) | _ \<Rightarrow> []) @ delivered ring (t @ [e]) u"

text \<open>A run of the handler over a list of items, by a relation that every handled item satisfies.\<close>

fun chain :: "('t \<Rightarrow> 'h \<Rightarrow> 'h \<Rightarrow> bool) \<Rightarrow> 't list \<Rightarrow> 'h \<Rightarrow> 'h \<Rightarrow> bool" where
  "chain S [] h h' \<longleftrightarrow> h' = h"
| "chain S (x # xs) h h' \<longleftrightarrow> (\<exists>h1. S x h h1 \<and> chain S xs h1 h')"

lemma delivered_append: "delivered ring t (u @ v) = delivered ring t u @ delivered ring (t @ u) v"
  by (induction u arbitrary: t) simp_all

lemma delivered_quiet: "filter loop_effect u = [] \<Longrightarrow> delivered ring t u = []"
  by (induction u arbitrary: t) (auto split: effect.split if_splits)

lemma chain_append: "chain S (xs @ ys) h h' \<longleftrightarrow> (\<exists>h1. chain S xs h h1 \<and> chain S ys h1 h')"
  by (induction xs arbitrary: h) auto

lemma chain_fold: "chain (\<lambda>x h h'. h' = f x h) xs h h' \<longleftrightarrow> h' = fold f xs h"
  by (induction xs arbitrary: h) auto

text \<open>A \<open>Vec\<close> has fewer than \<open>2 ^ 63\<close> elements.\<close>

definition vec_ring :: "'t ring \<Rightarrow> bool" where
  "vec_ring ring \<longleftrightarrow> (\<forall>t ms. length (snd (ring t ms)) < 2 ^ 63)"

fun is_polled_write :: "effect \<Rightarrow> bool" where
  "is_polled_write (BpfMapPolledWrite _ _ _ _) = True"
| "is_polled_write _ = False"

lemma never_polled_write: "filter loop_effect u = [] \<Longrightarrow> filter is_polled_write u = []"
proof (induction u)
  case (Cons e u)
  then show ?case by (cases e) simp_all
qed simp

lemma quiet_extension:
  assumes "io_steps grows m" and "io_steps (never_emits loop_effect) m" and "m (h, t) = (r, (h', t'))"
  shows "\<exists>u. t' = t @ u \<and> filter loop_effect u = []"
proof -
  from growsD [OF assms(1,3)] obtain u where u: "t' = t @ u" by (auto simp: prefix_def)
  moreover have "filter loop_effect t' = filter loop_effect t"
    using assms(2,3) unfolding io_steps_def never_emits_def by (metis snd_conv)
  ultimately show ?thesis by auto
qed

lemma with_local_Ok_iff:
  "with_local l m (g, t) = (Ok x, (g', t')) \<longleftrightarrow> g' = g \<and> (\<exists>l'. m (l, t) = (Ok x, (l', t')))"
  by (auto simp: with_local_def split: prod.splits)

lemma on_err_report_Ok_iff:
  "on_err m (report_and_mark hdl mp task tp) s = (Ok x, s') \<longleftrightarrow> m s = (Ok x, s')"
  "on_item_reported hdl mp task i s = (Ok u, s') \<longleftrightarrow> on_item hdl task i s = (Ok u, s')"
  by (auto simp: on_item_reported_def on_err_def report_and_mark_def io_bind_def emit_def
      split: prod.splits res.splits)

context polled_handler
begin

lemma items_Ok:
  assumes S: "\<And>d h t h' t'. on_item hdl task d (h, t) = (Ok (), (h', t')) \<Longrightarrow> S d h h'"
    and "for_each (on_item_reported hdl mp task) xs (h, t) = (Ok (), (h', t'))"
  shows "chain S xs h h' \<and> (\<exists>u. t' = t @ u \<and> filter loop_effect u = [])"
  using assms(2)
proof (induction xs arbitrary: h t)
  case (Cons x xs)
  from Cons.prems obtain h1 t1 where
    one: "on_item hdl task x (h, t) = (Ok (), (h1, t1))"
    and rest: "for_each (on_item_reported hdl mp task) xs (h1, t1) = (Ok (), (h', t'))"
    by (auto simp: io_bind_Ok_iff on_err_report_Ok_iff)
  obtain u where "t1 = t @ u" "filter loop_effect u = []"
    using quiet_extension [OF on_item_grows on_item_never one] by blast
  moreover from Cons.IH [OF rest] obtain v where "chain S xs h1 h'" "t' = t1 @ v" "filter loop_effect v = []"
    by blast
  ultimately show ?case using S [OF one] by auto
qed simp

lemma poll_while_Ok:
  assumes S: "\<And>d h t h' t'. on_item hdl task d (h, t) = (Ok (), (h', t')) \<Longrightarrow> S d h h'"
    and "poll_while n clk hdl ring mp task tm cnt (h, t) = (Ok cnt', (h', t'))"
  shows "\<exists>u. t' = t @ u \<and> chain S (delivered ring t u) h h' \<and> filter is_polled_write u = []
    \<and> (vec_ring ring \<longrightarrow> sint cnt' = sint cnt + int (length (delivered ring t u)))"
  using assms(2)
proof (induction n arbitrary: cnt h t)
  case (Suc n)
  obtain rem where rem: "remaining_millis clk tm (h, t) = (Ok rem, (h, t @ [InstantNow]))"
    by (simp add: remaining_millis_def Let_def)
  show ?case
  proof (cases rem)
    case None
    then show ?thesis using Suc.prems rem by (auto simp: io_bind_run)
  next
    case (Some ms)
    let ?t1 = "t @ [InstantNow]"
    from Suc.prems rem Some obtain w h1 t1 xs cnt1 h2 t2 where
      poll: "on_err (BpfRingBuffer_poll ring mp w)
         (report_and_mark hdl mp task (ErrorTypeBpfRingBufferPollFailed, 0)) (h, ?t1) = (Ok xs, (h1, t1))"
      and cnt1: "checked_i64 ''attempt to add with overflow''
         (sint cnt + sint (word_of_nat (length xs) :: i64)) = Ok cnt1"
      and items: "for_each (on_item_reported hdl mp task) xs (h1, t1) = (Ok (), (h2, t2))"
      and rest: "poll_while n clk hdl ring mp task tm cnt1 (h2, t2) = (Ok cnt', (h', t'))"
      by (auto simp: io_bind_run io_bind_Ok_iff)
    from poll have poll': "h1 = h" "\<exists>r. ring ?t1 w = (r, xs) \<and> t1 = ?t1 @ [RingPoll mp w r]"
      by (auto simp: on_err_report_Ok_iff bpf_defs ensure_def split: prod.splits if_splits)
    then obtain r where r: "ring ?t1 w = (r, xs)" "t1 = ?t1 @ [RingPoll mp w r]" by blast
    have "chain S xs h1 h2 \<and> (\<exists>v. t2 = t1 @ v \<and> filter loop_effect v = [])"
      by (rule items_Ok [OF _ items]) (rule S)
    then obtain v where v: "chain S xs h1 h2" "t2 = t1 @ v" "filter loop_effect v = []" by blast
    from Suc.IH [OF rest] obtain u where u: "t' = t2 @ u" "chain S (delivered ring t2 u) h2 h'"
      "filter is_polled_write u = []"
      "vec_ring ring \<longrightarrow> sint cnt' = sint cnt1 + int (length (delivered ring t2 u))" by blast
    let ?u = "[InstantNow, RingPoll mp w r] @ v @ u"
    have t': "t' = t @ ?u" and d: "delivered ring t ?u = xs @ delivered ring t2 u"
      using r v u by (simp_all add: delivered_append delivered_quiet)
    have "sint (word_of_nat (length xs) :: i64) = int (length xs)" if "vec_ring ring"
      using that [unfolded vec_ring_def, rule_format, of ?t1 w] r(1)
        sint_of_int_in_range [where v = "int (length xs)" and ?'n = 64] by simp
    with cnt1 have "vec_ring ring \<longrightarrow> sint cnt1 = sint cnt + int (length xs)" by simp
    with u(3,4) d v(1) poll'(1) u(2) t' never_polled_write [OF v(3)] show ?thesis
      by (intro exI [of _ ?u]) (auto simp: chain_append)
  qed
qed simp

text \<open>A successful poll: every item was handled, then \<open>on_finished\<close> ran once, then the poll was
  recorded with the number of items, and the ring buffer was destroyed.\<close>

lemma poll_loop_Ok:
  assumes S: "\<And>d h t h' t'. on_item hdl task d (h, t) = (Ok (), (h', t')) \<Longrightarrow> S d h h'"
    and run: "poll_loop_generic n bpf clk hdl ring mp task dur (g, t) = (Ok (), (g', t'))"
  shows "\<exists>u v h1 h2 pe ms cnt. g' = g \<and> mp = MAP_PATH hdl
    \<and> chain S (delivered ring t u) (h_default hdl) h1
    \<and> on_finished hdl (h1, t @ u) = (Ok (), (h2, t @ u @ v)) \<and> filter loop_effect v = []
    \<and> bpf_map_path_to_enum mp = Ok pe \<and> sint ms = int (as_millis dur)
    \<and> (vec_ring ring \<longrightarrow> sint cnt = int (length (delivered ring t u)))
    \<and> filter is_polled_write (u @ v) = []
    \<and> t' = t @ u @ v @ [BpfMapPolledWrite pe ms cnt (rt_id task), RingDestroy]"
proof -
  from run have mp: "mp = MAP_PATH hdl" by (auto simp: poll_loop_generic_def split: if_splits)
  let ?h0 = "h_default hdl" and ?tm = "\<lparr>timer_now = instant_now clk t, timer_duration = dur\<rparr>"
  from run mp obtain h0 t0 cnt h1 t1 h2 t2 pe ms where
    create: "BpfRingBuffer_new bpf mp (?h0, t @ [InstantNow]) = (Ok (), (h0, t0))"
    and loop: "poll_while n clk hdl ring mp task ?tm 0 (h0, t0) = (Ok cnt, (h1, t1))"
    and fin: "on_finished hdl (h1, t1) = (Ok (), (h2, t2))"
    and pe: "bpf_map_path_to_enum mp = Ok pe" and ms: "try_into_signed (int (as_millis dur)) = Ok ms"
    and t': "t' = t2 @ [BpfMapPolledWrite pe ms cnt (rt_id task), RingDestroy]" and g: "g' = g"
    by (auto simp: poll_loop_generic_def Timer_new_def io_bind_Ok_iff on_err_report_Ok_iff
        with_local_Ok_iff finally_do_Ok_iff BpfRingBuffer_drop_def simp del: world_simps(5)
        split: if_splits)
  from create have t0: "h0 = ?h0" "t0 = t @ [InstantNow, RingCreate mp True]"
    by (auto simp: BpfRingBuffer_new_def c_string_def ensure_def split: if_splits)
  have "\<exists>u. t1 = t0 @ u \<and> chain S (delivered ring t0 u) h0 h1 \<and> filter is_polled_write u = []
      \<and> (vec_ring ring \<longrightarrow> sint cnt = sint (0 :: i64) + int (length (delivered ring t0 u)))"
    by (rule poll_while_Ok [OF _ loop]) (rule S)
  then obtain u where
    u: "t1 = t0 @ u" "chain S (delivered ring t0 u) h0 h1" "filter is_polled_write u = []"
      "vec_ring ring \<longrightarrow> sint cnt = int (length (delivered ring t0 u))"
    by auto
  from quiet_extension [OF on_finished_grows on_finished_never fin] obtain v where
    v: "t2 = t1 @ v" "filter loop_effect v = []" by blast
  have "delivered ring t ([InstantNow, RingCreate mp True] @ u) = delivered ring t0 u"
    using t0 by simp
  with g mp u v fin pe ms t' t0 never_polled_write [OF v(2)] show ?thesis
    by (intro exI [of _ "[InstantNow, RingCreate mp True] @ u"] exI [of _ v])
      (auto simp: try_into_signed_Ok_iff)
qed

end

subsection \<open>The life of a ring buffer\<close>

definition poll_recorded :: "string \<Rightarrow> ResolvedTask \<Rightarrow> duration \<Rightarrow> ('g st, unit) io \<Rightarrow> bool" where
  "poll_recorded mp task dur m \<longleftrightarrow> (\<forall>g t g' t'. m (g, t) = (Ok (), (g', t')) \<longrightarrow>
     (\<exists>w pe ms cnt. bpf_map_path_to_enum mp = Ok pe \<and> sint ms = int (as_millis dur)
        \<and> filter is_polled_write w = []
        \<and> t' = t @ w @ [BpfMapPolledWrite pe ms cnt (rt_id task), RingDestroy]))"

fun ring_life :: "effect \<Rightarrow> bool" where
  "ring_life (RingCreate _ _) = True"
| "ring_life RingDestroy = True"
| "ring_life _ = False"

definition ring_closed :: "string \<Rightarrow> ('g st, 'a) io \<Rightarrow> bool" where
  "ring_closed mp m \<longleftrightarrow> (\<forall>g t. \<exists>c \<in> {[], [RingCreate mp False], [RingCreate mp True, RingDestroy]}.
     filter ring_life (snd (snd (m (g, t)))) = filter ring_life t @ c)"

lemma ring_life_loop: "io_steps (never_emits loop_effect) m \<Longrightarrow> io_steps (never_emits ring_life) m"
proof -
  have "(\<lambda>e. loop_effect e \<and> ring_life e) = ring_life"
  proof
    fix e show "(loop_effect e \<and> ring_life e) = ring_life e" by (cases e) simp_all
  qed
  then have "filter ring_life t = filter ring_life (filter loop_effect t)" for t
    by (simp add: conj_commute)
  then show "io_steps (never_emits loop_effect) m \<Longrightarrow> ?thesis"
    unfolding io_steps_def never_emits_def by metis
qed

lemma emit_trace: "snd (snd (emit e s)) = snd s @ [e]"
  by (cases s) simp

context polled_handler
begin

lemma poll_while_ring_life: "io_steps (never_emits ring_life) (poll_while n clk hdl ring mp task tm cnt)"
  by (induction n arbitrary: cnt)
    (auto simp: remaining_millis_def bpf_defs on_item_reported_def report_and_mark_def Let_def
      intro!: never_intros ring_life_loop [OF on_item_never] split: prod.split)

lemma poll_loop_ring_life:
  "\<exists>c \<in> {[], [RingCreate mp False], [RingCreate mp True, RingDestroy]}.
     filter ring_life (snd (snd (poll_loop_generic n bpf clk hdl ring mp task dur (g, t)))) =
       filter ring_life t @ c"
proof -
  let ?rest = "io_bind (poll_while n clk hdl ring mp task
      \<lparr>timer_now = instant_now clk t, timer_duration = dur\<rparr> 0) (\<lambda>total_events.
    io_then (on_finished hdl) (io_bind (lift_res (bpf_map_path_to_enum mp)) (\<lambda>path_enum.
      io_bind (lift_res (try_into_signed (int (as_millis dur)))) (\<lambda>ms.
        emit (BpfMapPolledWrite path_enum ms total_events (rt_id task))))))"
  have rest: "filter ring_life (snd (snd (?rest s))) = filter ring_life (snd s)" for s
  proof -
    have "io_steps (never_emits ring_life) ?rest"
      by (auto intro!: never_intros poll_while_ring_life ring_life_loop [OF on_finished_never])
    then show ?thesis unfolding io_steps_def never_emits_def by blast
  qed
  show ?thesis
  proof (cases "mp \<noteq> MAP_PATH hdl \<or> NUL \<in> set mp")
    case True
    then show ?thesis
      by (auto simp: poll_loop_generic_def Timer_new_def BpfRingBuffer_new_def c_string_def on_err_def
          report_and_mark_def io_bind_def)
  next
    case False
    then show ?thesis
      using rest [of "(h_default hdl, t @ [InstantNow, RingCreate mp True])"]
      by (cases "ring_create bpf (t @ [InstantNow]) mp")
        (auto simp: poll_loop_generic_def Timer_new_def BpfRingBuffer_new_def BpfRingBuffer_drop_def
          c_string_def on_err_def report_and_mark_def io_bind_run finally_do_def split_def emit_trace)
  qed
qed

lemma poll_loop_ring_closed: "ring_closed mp (poll_loop_generic n bpf clk hdl ring mp task dur)"
  using poll_loop_ring_life unfolding ring_closed_def by (intro allI)

lemma poll_loop_recorded: "poll_recorded mp task dur (poll_loop_generic n bpf clk hdl ring mp task dur)"
  unfolding poll_recorded_def
proof (intro allI impI)
  fix g g' t t' assume "poll_loop_generic n bpf clk hdl ring mp task dur (g, t) = (Ok (), (g', t'))"
  from poll_loop_Ok [where S = "\<lambda>_ _ _. True", OF TrueI this] show "\<exists>w pe ms cnt.
      bpf_map_path_to_enum mp = Ok pe \<and> sint ms = int (as_millis dur) \<and> filter is_polled_write w = []
      \<and> t' = t @ w @ [BpfMapPolledWrite pe ms cnt (rt_id task), RingDestroy]"
    by (metis append.assoc)
qed

end

subsection \<open>The registry\<close>

text \<open>What every function of the registry guarantees, whatever its handler is.\<close>

definition poll_fn_ok :: "clock \<Rightarrow> nat \<Rightarrow> string \<times> 'g poll_fn \<Rightarrow> bool" where
  "poll_fn_ok clk fuel entry \<longleftrightarrow> (case entry of (mp, f) \<Rightarrow>
     (\<forall>task dur. reports_once (loop_report task mp) (f mp task dur)
        \<and> io_steps grows (f mp task dur)
        \<and> ring_closed mp (f mp task dur) \<and> poll_recorded mp task dur (f mp task dur)
        \<and> (ticking clk \<and> (as_millis dur + 1) * 1000000 < fuel \<longrightarrow> fuel_free (f mp task dur))))"

lemma set_update_subset: "set (AList.update k v m) \<subseteq> insert (k, v) (set m)"
  by (induction m) auto

lemma register_handler_ok:
  assumes "polled_handler hdl P" and "list_all (poll_fn_ok (e_clock env) fuel) m"
  shows "list_all (poll_fn_ok (e_clock env) fuel) (register_handler fuel env hdl ring m)"
proof -
  let ?f = "poll_loop_generic fuel (e_bpf env) (e_clock env) hdl ring"
  have "poll_fn_ok (e_clock env) fuel (MAP_PATH hdl, ?f)"
    unfolding poll_fn_ok_def
    using polled_handler.poll_loop_ring_closed [OF assms(1)] polled_handler.poll_loop_recorded [OF assms(1)]
      polled_handler.poll_loop_reports [OF assms(1)] polled_handler.poll_loop_grows [OF assms(1)]
      polled_handler.poll_loop_enough_fuel [OF assms(1)] by auto
  with assms(2) show ?thesis
    using set_update_subset [of "MAP_PATH hdl" ?f m]
    by (auto simp: register_handler_def hm_insert_def list_all_iff)
qed

lemmas register_handlers_ok =
  register_handler_ok [OF polled_bitmap_v0.polled_handler_axioms]
  register_handler_ok [OF polled_bitmap_v1.polled_handler_axioms]
  register_handler_ok [OF polled_call_timestamp.polled_handler_axioms]
  register_handler_ok [OF polled_call_result.polled_handler_axioms]
  register_handler_ok [OF polled_set_uid.polled_handler_axioms]
  register_handler_ok [OF polled_update_idle.polled_handler_axioms]
  register_handler_ok [OF polled_binder.polled_handler_axioms]
  register_handler_ok [OF polled_a11y.polled_handler_axioms]
  register_handler_ok [OF polled_component.polled_handler_axioms]
  register_handler_ok [OF polled_bind.polled_handler_axioms]
  register_handler_ok [OF polled_jit.polled_handler_axioms]
  register_handler_ok [OF polled_aot.polled_handler_axioms]

lemma registry_ok: "list_all (poll_fn_ok (e_clock env) fuel) (HANDLER_REGISTRY fuel env)"
  unfolding HANDLER_REGISTRY_def Let_def
  by (simp split del: if_split add: register_handlers_ok split: if_split)

lemma registered_ok:
  "map_of (HANDLER_REGISTRY fuel env) mp = Some f \<Longrightarrow> poll_fn_ok (e_clock env) fuel (mp, f)"
  using registry_ok [of env fuel] by (auto simp: list_all_iff dest: map_of_SomeD)

lemma unregistered_ok: "ring_closed mp (lift_res r)" "poll_recorded mp task dur (fail e)"
  by (auto simp: ring_closed_def poll_recorded_def)

lemma poll_registry_ok:
  "reports_once (loop_report task mp) (poll_registry fuel env mp task dur)"
  "io_steps grows (poll_registry fuel env mp task dur)"
  "ring_closed mp (poll_registry fuel env mp task dur)"
  "poll_recorded mp task dur (poll_registry fuel env mp task dur)"
  "ticking (e_clock env) \<Longrightarrow> (as_millis dur + 1) * 1000000 < fuel \<Longrightarrow>
     fuel_free (poll_registry fuel env mp task dur)"
  by (auto simp: poll_registry_def poll_fn_ok_def dest!: registered_ok
      intro!: unregistered_ok reports_pure grows_intros fuel_free_pure split: option.split)

text \<open>
  C10. Errors of a polling thread and what statsd hears of them. Whatever map is polled and whatever
  happens, the thread reports exactly one internal error when it returns an error with the marker
  \<open>ReportedToStatsd\<close>, and none otherwise: the report has the task's id and the map's path, and its type
  and failure point are those of the handler's error, or tell that the ring buffer could not be created
  or polled.
\<close>

theorem poll_registry_reports:
  "case poll_registry fuel env mp task dur (g, t) of (r, (g', t')) \<Rightarrow>
     (case marked r of
        None \<Rightarrow> internal_errors t' = internal_errors t
      | Some e \<Rightarrow> \<exists>ty prog point.
          internal_errors t' =
            internal_errors t @ [InternalErrorWrite ty (rt_id task) prog (ie_map (Some mp)) point]
          \<and> (ty, point) \<in> {classify_error e, (ErrorTypeBpfRingBufferCreateFailed, 0),
                (ErrorTypeBpfRingBufferPollFailed, 0)})"
proof -
  obtain r g' t' where run: "poll_registry fuel env mp task dur (g, t) = (r, (g', t'))"
    by (cases "poll_registry fuel env mp task dur (g, t)") auto
  from reportsD [OF poll_registry_ok(1) this] run show ?thesis
    by (auto simp: report_ok_def loop_report_def split: option.splits)
qed

text \<open>
  A polling thread ends. If the monotonic clock never goes back and every poll takes at least a
  nanosecond, then one iteration for every nanosecond of the task's duration, rounded up to the
  next millisecond, is enough: whatever the ring buffers deliver and however the handlers fail, the
  loop is left.
\<close>

theorem poll_registry_returns:
  assumes "ticking (e_clock env)" and "(as_millis dur + 1) * 1000000 < fuel"
  shows "fst (poll_registry fuel env mp task dur s) \<noteq> NoFuel"
  using poll_registry_ok(5) [OF assms] unfolding fuel_free_def by blast

text \<open>
  C39. A task with a long duration never polls. The remaining time is converted to an \<open>i32\<close> of
  milliseconds before the first poll: when at least \<open>2 ^ 31\<close> of them remain (a duration of about 25 days,
  which the configuration allows), the thread fails at once, without a report and without having
  polled, whichever handler it runs.
\<close>

theorem poll_loop_too_long:
  assumes "NUL \<notin> set (MAP_PATH hdl)" and "ring_create bpf (t @ [InstantNow]) (MAP_PATH hdl)"
    and "2 ^ 31 + as_millis (instant_now clk (t @ [InstantNow, RingCreate (MAP_PATH hdl) True])
           - instant_now clk t) \<le> as_millis dur"
  shows "poll_loop_generic (Suc n) bpf clk hdl ring (MAP_PATH hdl) task dur (g, t) =
    (Err (Anyhow ''out of range integral type conversion attempted''),
     (g, t @ [InstantNow, RingCreate (MAP_PATH hdl) True, InstantNow, RingDestroy]))"
proof -
  let ?rem = "as_millis dur - as_millis
      (instant_now clk (t @ [InstantNow, RingCreate (MAP_PATH hdl) True]) - instant_now clk t)"
  have "(try_into_signed (int k) :: i32 res) =
      Err (Anyhow ''out of range integral type conversion attempted'')" if "2 ^ 31 \<le> k" for k
    using that by (simp add: try_into_signed_def)
  from this [of ?rem] have conv: "(try_into_signed (int ?rem) :: i32 res) =
      Err (Anyhow ''out of range integral type conversion attempted'')"
    using assms(3) by linarith
  have "as_millis (instant_now clk (t @ [InstantNow, RingCreate (MAP_PATH hdl) True])
      - instant_now clk t) \<le> as_millis dur" using assms(3) by linarith
  with assms(1,2) conv show ?thesis
    by (simp add: poll_loop_generic_def Timer_new_def BpfRingBuffer_new_def BpfRingBuffer_drop_def
        remaining_millis_def c_string_def on_err_def finally_do_def io_bind_def Let_def)
qed

text \<open>
  The ring buffer of a polling thread: a thread creates at most one, only for its own map, and
  whatever happens afterwards (an error, a panic of the handler) destroys it exactly once.
\<close>

theorem poll_registry_ring:
  "\<exists>c \<in> {[], [RingCreate mp False], [RingCreate mp True, RingDestroy]}.
     filter ring_life (snd (snd (poll_registry fuel env mp task dur (g, t)))) = filter ring_life t @ c"
  by (rule poll_registry_ok(3) [unfolded ring_closed_def, rule_format])

text \<open>
  A polling thread that succeeds logs the end of the poll exactly once, as its last act before
  the ring buffer is destroyed: with the map's enum value, the configured duration and the task's id.
\<close>

theorem poll_registry_records:
  assumes "poll_registry fuel env mp task dur (g, t) = (Ok (), (g', t'))"
  shows "\<exists>w pe ms cnt. bpf_map_path_to_enum mp = Ok pe \<and> sint ms = int (as_millis dur)
    \<and> filter is_polled_write w = []
    \<and> t' = t @ w @ [BpfMapPolledWrite pe ms cnt (rt_id task), RingDestroy]"
  by (rule poll_registry_ok(4) [unfolded poll_recorded_def, rule_format, OF assms])

subsection \<open>A bitmap task, end to end\<close>

text \<open>
  A bitmap poll that succeeds, end to end. Let \<open>es\<close> be everything the ring buffer delivered during
  the poll, in order. The handler's ledger at the end is the ledger of exactly these events; statsd
  received, after the atoms of the single events, one snapshot record for every bitmap that was live at
  the peak and then one for every bitmap still live; and the poll is recorded with the number of
  events.
\<close>

theorem bitmap_poll_snapshots:
  assumes "poll_loop_generic n bpf clk (BitmapAllocationHandlerV1_dict clk (CodegenAtomWriter_write env))
             ring mp task dur (g, t) = (Ok (), (g', t'))"
    and "vec_ring ring" and "es = delivered ring t (drop (length t) t')"
    and "h = fold (ledger_step (rp_uid (resolved_process task))) es BitmapV1_default"
  shows "\<exists>u id1 id2 pe ms cnt. es = delivered ring t u \<and> prefix (t @ u) t'
    \<and> accepted_calls t' = accepted_calls (t @ u)
        @ map (\<lambda>m. codegen_call (snapshot_atom id1 1 m)) (bitmap_snapshot_at_max_size h)
        @ map (\<lambda>m. codegen_call (snapshot_atom id2 2 m)) (map snd (bitmaps h))
    \<and> suffix [BpfMapPolledWrite pe ms cnt (rt_id task), RingDestroy] t' \<and> sint cnt = int (length es)"
proof -
  let ?hdl = "BitmapAllocationHandlerV1_dict clk (CodegenAtomWriter_write env)"
  let ?step = "ledger_step (rp_uid (resolved_process task))"
  have S: "h' = ?step d h" if "on_item ?hdl task d (h, t) = (Ok (), (h', t'))" for d h t h' t'
    using that on_item_Ok(1) by (simp add: BitmapAllocationHandlerV1_dict_def)
  have "\<exists>u v h1 h2 pe ms cnt. g' = g \<and> mp = MAP_PATH ?hdl
    \<and> chain (\<lambda>d h h'. h' = ?step d h) (delivered ring t u) (h_default ?hdl) h1
    \<and> on_finished ?hdl (h1, t @ u) = (Ok (), (h2, t @ u @ v)) \<and> filter loop_effect v = []
    \<and> bpf_map_path_to_enum mp = Ok pe \<and> sint ms = int (as_millis dur)
    \<and> (vec_ring ring \<longrightarrow> sint cnt = int (length (delivered ring t u)))
    \<and> filter is_polled_write (u @ v) = []
    \<and> t' = t @ u @ v @ [BpfMapPolledWrite pe ms cnt (rt_id task), RingDestroy]"
    by (rule polled_bitmap_v1.poll_loop_Ok [OF _ assms(1)]) (rule S)
  then obtain u v h1 h2 pe ms cnt where
    h1: "chain (\<lambda>d h h'. h' = ?step d h) (delivered ring t u) BitmapV1_default h1"
    and fin: "BitmapV1_on_finished clk (CodegenAtomWriter_write env) (h1, t @ u) = (Ok (), (h2, t @ u @ v))"
    and v: "filter loop_effect v = []"
    and cnt: "sint cnt = int (length (delivered ring t u))"
    and t': "t' = t @ u @ v @ [BpfMapPolledWrite pe ms cnt (rt_id task), RingDestroy]"
    using assms(2) by (auto simp: BitmapAllocationHandlerV1_dict_def)
  have es: "es = delivered ring t u"
    using assms(3) t' v by (simp add: delivered_append delivered_quiet)
  with h1 assms(4) have h: "h1 = h" by (simp add: chain_fold)
  have "accepted_calls [BpfMapPolledWrite pe ms cnt (rt_id task), RingDestroy] = []"
    by (simp add: accepted_call_def List.map_filter_simps)
  with t' have r: "accepted_calls t' = accepted_calls (t @ u @ v)" by simp
  have "accepted_calls (t @ u @ v) = accepted_calls (t @ u)
        @ map (\<lambda>m. codegen_call (snapshot_atom id1 1 m)) (bitmap_snapshot_at_max_size h)
        @ map (\<lambda>m. codegen_call (snapshot_atom id2 2 m)) (map snd (bitmaps h))"
    if "accepted_calls (t @ u @ v) = accepted_calls (t @ u) @ take k
        (map (\<lambda>m. codegen_call (snapshot_atom id1 1 m)) (bitmap_snapshot_at_max_size h)
         @ map (\<lambda>m. codegen_call (snapshot_atom id2 2 m)) (map snd (bitmaps h)))"
      "k = length (bitmap_snapshot_at_max_size h) + length (bitmaps h)" for id1 id2 k
    using that by simp
  with on_finished_snapshots [OF fin] h r es cnt t' show ?thesis
    by (fastforce simp: suffix_def)
qed

subsection \<open>A concrete run\<close>

definition example_poll_clock :: clock where
  "example_poll_clock =
     \<lparr>instant_now = \<lambda>t. 1000000000 * length (filter is_poll t),
      system_time_now = \<lambda>_. 0, rng_gen = \<lambda>_. 42\<rparr>"

text \<open>One bitmap in the first poll, nothing later.\<close>

definition example_ring :: "BitmapEvent ring" where
  "example_ring t ms =
     (if list_ex is_poll t then (0, []) else (1, [example_bitmap]))"

definition example_daemon :: daemon_env where
  "example_daemon =
     \<lparr>e_bpf = example_kernel [], e_clock = example_poll_clock, e_stats = example_env,
      e_bridge = example_bridge, e_device = example_device ''user'', e_flags = example_flags,
      e_rings = \<lparr>bitmap_ring = example_ring, call_timestamp_ring = \<lambda>_ _. (0, []),
        call_result_ring = \<lambda>_ _. (0, []), set_uid_ring = \<lambda>_ _. (0, []), update_idle_ring = \<lambda>_ _. (0, []),
        binder_ring = \<lambda>_ _. (0, []), accessibility_ring = \<lambda>_ _. (0, []), bind_service_ring = \<lambda>_ _. (0, []),
        component_ring = \<lambda>_ _. (0, []), jit_ring = \<lambda>_ _. (0, []), aot_ring = \<lambda>_ _. (0, [])\<rparr>,
      e_hasher = \<lambda>_. 0, e_debug = False\<rparr>"

lemma example_ticking: "ticking (e_clock example_daemon)"
  by (simp add: ticking_def example_daemon_def example_poll_clock_def)

theorem poll_registry_returns_witness:
  "fst (poll_registry 1000001 example_daemon ''/sys/fs/bpf/uprobestats/map_BitmapAllocation_output''
     example_resolved 0 ((), [])) \<noteq> NoFuel"
  by (rule poll_registry_returns [OF example_ticking]) (simp add: as_millis_def)

theorem poll_loop_too_long_witness:
  "fst (poll_loop_generic 5 (example_kernel []) example_poll_clock
      (BitmapAllocationHandlerV1_dict example_poll_clock (CodegenAtomWriter_write example_env)) example_ring
      ''/sys/fs/bpf/uprobestats/map_BitmapAllocation_output'' example_resolved (from_secs 2147484) ((), []))
   = Err (Anyhow ''out of range integral type conversion attempted'')"
proof -
  let ?hdl = "BitmapAllocationHandlerV1_dict example_poll_clock (CodegenAtomWriter_write example_env)"
  have p: "''/sys/fs/bpf/uprobestats/map_BitmapAllocation_output'' = MAP_PATH ?hdl"
    by (simp add: BitmapAllocationHandlerV1_dict_def)
  have "poll_loop_generic (Suc 4) (example_kernel []) example_poll_clock ?hdl example_ring (MAP_PATH ?hdl)
      example_resolved (from_secs 2147484) ((), []) =
    (Err (Anyhow ''out of range integral type conversion attempted''),
     ((), [] @ [InstantNow, RingCreate (MAP_PATH ?hdl) True, InstantNow, RingDestroy]))"
    by (rule poll_loop_too_long)
      (simp_all add: BitmapAllocationHandlerV1_dict_def example_kernel_def example_poll_clock_def as_millis_def
        from_secs_def)
  then show ?thesis unfolding p by (simp only: eval_nat_numeral fst_conv)
qed

abbreviation example_handler :: "(BitmapAllocationHandlerV1, BitmapEvent) handler" where
  "example_handler \<equiv> BitmapAllocationHandlerV1_dict example_poll_clock (CodegenAtomWriter_write example_env)"

lemma example_on_item:
  "\<exists>h' e. BitmapV1_on_item (CodegenAtomWriter_write example_env) example_resolved example_bitmap
     (BitmapV1_default, t) = (Ok (), (h', t @ [CodegenStatsWrite e True]))"
proof -
  have "be_type example_bitmap = K_BITMAP_EVENT_TYPE_ALLOCATION"
    by (simp add: example_bitmap_def event_types)
  then show ?thesis
    by (simp add: BitmapV1_on_item_def on_allocation_def example_conversions Let_def
        codegen_write_run example_env_def BitmapV1_default_def checked_i64_def)
qed

lemma example_on_finished:
  "\<exists>s'. BitmapV1_on_finished clk (CodegenAtomWriter_write example_env) s = (Ok (), s')"
proof -
  have w: "\<exists>s'. for_each (\<lambda>m. CodegenAtomWriter_write example_env (f m)) ms s = (Ok (), s')"
    for f and ms :: "BitmapMetadata list" and s :: "BitmapAllocationHandlerV1 st"
  proof -
    have "fst (for_each (\<lambda>m. CodegenAtomWriter_write example_env (f m)) ms s) = Ok ()"
      by (rule for_each_Ok) (simp add: CodegenAtomWriter_write_eq example_env_def split_paired_all)
    then show ?thesis by (metis prod.collapse)
  qed
  obtain h t where s: "s = (h, t)" by (cases s)
  obtain s1 where 1: "for_each (\<lambda>m. CodegenAtomWriter_write example_env (snapshot_atom (rng_gen clk t) 1 m))
      (bitmap_snapshot_at_max_size h) (h, t @ [RandomI64]) = (Ok (), s1)" using w by blast
  then obtain h1 t1 where 2: "for_each (\<lambda>m. CodegenAtomWriter_write example_env (snapshot_atom (rng_gen clk t) 1 m))
      (bitmap_snapshot_at_max_size h) (h, t @ [RandomI64]) = (Ok (), (h1, t1))" by (cases s1) auto
  show ?thesis using w by (simp add: BitmapV1_on_finished_def s io_bind_def [of "for_each f xs" for f xs] 2)
qed

lemma example_poll_while:
  "\<exists>h t'. poll_while 2 example_poll_clock example_handler example_ring p example_resolved
     \<lparr>timer_now = 0, timer_duration = 0\<rparr> 0 (BitmapV1_default, [InstantNow, RingCreate p True])
     = (Ok 1, (h, t'))"
proof -
  let ?t = "[InstantNow, RingCreate p True, InstantNow, RingPoll p 0 1]"
  obtain h e where "on_item_reported example_handler p example_resolved example_bitmap
      (BitmapV1_default, ?t) = (Ok (), (h, ?t @ [CodegenStatsWrite e True]))"
    using example_on_item [of ?t] by (auto simp: on_err_report_Ok_iff BitmapAllocationHandlerV1_dict_def)
  note item = this
  have poll: "on_err (BpfRingBuffer_poll example_ring p 0) k
      (BitmapV1_default, [InstantNow, RingCreate p True, InstantNow]) = (Ok [example_bitmap], (BitmapV1_default, ?t))" for k
    by (simp add: BpfRingBuffer_poll_def example_ring_def on_err_def)
  have rem: "remaining_millis example_poll_clock \<lparr>timer_now = 0, timer_duration = 0\<rparr> (h', t) =
      (Ok (if list_ex is_poll t then None else Some 0), (h', t @ [InstantNow]))" for h' t
  proof -
    have "filter is_poll t = [] \<longleftrightarrow> \<not> list_ex is_poll t" by (auto simp: filter_empty_conv list_ex_iff)
    then show ?thesis
      by (cases "filter is_poll t") (simp_all add: remaining_millis_def example_poll_clock_def as_millis_def)
  qed
  have conv: "try_into_signed 0 = Ok (0 :: i32)" "checked_i64 m 1 = Ok 1" for m
    by (simp_all add: try_into_signed_def checked_i64_def)
  show ?thesis
    by (simp add: numeral_2_eq_2 rem conv io_bind_def poll item)
qed

lemma example_poll_run:
  "\<exists>g t'. poll_loop_generic 2 (example_kernel []) example_poll_clock example_handler example_ring
     (MAP_PATH example_handler) example_resolved 0 ((), []) = (Ok (), (g, t'))"
proof -
  let ?p = "MAP_PATH example_handler"
  have p: "c_string ?p = Ok ?p" by (simp add: BitmapAllocationHandlerV1_dict_def c_string_def)
  obtain h t1 where loop: "poll_while 2 example_poll_clock example_handler example_ring ?p example_resolved
     \<lparr>timer_now = 0, timer_duration = 0\<rparr> 0 (BitmapV1_default, [InstantNow, RingCreate ?p True])
     = (Ok 1, (h, t1))" using example_poll_while by blast
  obtain h2 t2 where fin: "on_finished example_handler (h, t1) = (Ok (), (h2, t2))"
    using example_on_finished [of example_poll_clock "(h, t1)"] by (auto simp: BitmapAllocationHandlerV1_dict_def)
  have h0: "h_default example_handler = BitmapV1_default"
    by (simp add: BitmapAllocationHandlerV1_dict_def)
  have create: "on_err (BpfRingBuffer_new (example_kernel []) ?p) k (BitmapV1_default, [InstantNow])
      = (Ok (), (BitmapV1_default, [InstantNow, RingCreate ?p True]))" for k
    by (simp add: BpfRingBuffer_new_def p on_err_def example_kernel_def)
  have now: "instant_now example_poll_clock [] = 0" by (simp add: example_poll_clock_def)
  have ms: "try_into_signed (int (as_millis 0)) = Ok (0 :: i64)"
    by (simp add: as_millis_def try_into_signed_def)
  show ?thesis
    by (simp add: poll_loop_generic_def Timer_new_def h0 now create finally_do_def io_bind_def
        loop fin ms BpfRingBuffer_drop_def)
qed

theorem bitmap_poll_snapshots_witness:
  "\<exists>g' t' es. poll_loop_generic 2 (example_kernel []) example_poll_clock example_handler example_ring
       (MAP_PATH example_handler) example_resolved 0 ((), []) = (Ok (), (g', t'))
     \<and> es = delivered example_ring [] t'
     \<and> (\<exists>pe ms cnt. suffix [BpfMapPolledWrite pe ms cnt (rt_id example_resolved), RingDestroy] t'
          \<and> sint cnt = int (length es))"
proof -
  obtain g' t' where run: "poll_loop_generic 2 (example_kernel []) example_poll_clock example_handler
      example_ring (MAP_PATH example_handler) example_resolved 0 ((), []) = (Ok (), (g', t'))"
    using example_poll_run by blast
  have "vec_ring example_ring" by (simp add: vec_ring_def example_ring_def)
  from bitmap_poll_snapshots [OF run this refl refl] run show ?thesis by auto
qed

lemma example_registered:
  "map_of (HANDLER_REGISTRY 2 example_daemon) (MAP_PATH example_handler) =
     Some (poll_loop_generic 2 (example_kernel []) example_poll_clock example_handler example_ring)"
  by (simp add: HANDLER_REGISTRY_def register_handler_def hm_insert_def example_daemon_def example_flags_def
      Let_def update_conv' BitmapAllocationHandlerV1_dict_def CallTimestampHandler_def CallResultHandler_def
      SetUidTempAllowlistStateRecordHandler_def UpdateDeviceIdleTempAllowlistRecordHandler_def
      BinderTransactionHandler_def AccessibilityHandler_dict_def ComponentEnabledSettingHandler_def
      BindServiceLockedHandler_def)

theorem poll_registry_records_witness:
  "\<exists>g' t'. poll_registry 2 example_daemon (MAP_PATH example_handler) example_resolved 0 ((), [])
       = (Ok (), (g', t'))
     \<and> (\<exists>w pe ms cnt. filter is_polled_write w = []
          \<and> t' = w @ [BpfMapPolledWrite pe ms cnt (rt_id example_resolved), RingDestroy])"
proof -
  obtain g' t' where run: "poll_registry 2 example_daemon (MAP_PATH example_handler) example_resolved 0
      ((), []) = (Ok (), (g', t'))"
    using example_poll_run by (auto simp: poll_registry_def example_registered)
  from poll_registry_records [OF this] run show ?thesis by auto
qed

end
