(* ===== verification/Task_Runner.thy ===== *)
theory Task_Runner
  imports Poll_Loop
begin

section \<open>Running a task\<close>

text \<open>
  \<open>android/task.rs\<close>: the set of maps that running tasks poll (steps 2 and 4 of a task), and the
  execution of a task (step 3) with its binder filters, its perf events and its polling threads.
  A polling thread runs on a copy of the trace and reports what it did as one effect
  \<^const>\<open>ThreadScope\<close> of the main thread; a thread starts with \<^const>\<open>ThreadSpawned\<close> and its number, so that
  the replies of the outside may differ from thread to thread. A panic unwinds to the end of its thread.
\<close>

subsection \<open>The global state\<close>

text \<open>The set of polled maps while a task runs, and \<^const>\<open>None\<close> when the service may be stopped.\<close>

record ActiveState =
  polled_bpf_maps :: "string set"

type_synonym GlobalState = "ActiveState option"

definition ActiveState_new :: "string set \<Rightarrow> ActiveState" where
  "ActiveState_new maps = \<lparr>polled_bpf_maps = maps\<rparr>"

definition update_polled_bpf_maps :: "ResolvedTask \<Rightarrow> (GlobalState st, unit) io" where
  "update_polled_bpf_maps task =
     (let new_maps = set (bpf_map_paths task) in
      io_bind get_self (\<lambda>state.
        case state of
          None \<Rightarrow> modify_self (\<lambda>_. Some (ActiveState_new new_maps))
        | Some active_state \<Rightarrow>
            if new_maps \<inter> polled_bpf_maps active_state \<noteq> {}
            then fail (Anyhow ''BPF maps already in use: {:?}'')
            else modify_self (\<lambda>_. Some (active_state\<lparr>polled_bpf_maps :=
                   polled_bpf_maps active_state \<union> new_maps\<rparr>))))"

definition cleanup_polled_bpf_maps :: "ResolvedTask \<Rightarrow> (GlobalState st, unit) io" where
  "cleanup_polled_bpf_maps task =
     io_bind get_self (\<lambda>state.
       case state of
         None \<Rightarrow> panic ''cleanup_active_maps called with no active state. This should never happen.''
       | Some active_state \<Rightarrow>
           (let remaining = fold (\<lambda>p s. s - {p}) (bpf_map_paths task) (polled_bpf_maps active_state) in
            modify_self (\<lambda>_. if remaining = {} then None
                             else Some (active_state\<lparr>polled_bpf_maps := remaining\<rparr>))))"

subsection \<open>Binder filters\<close>

definition write_binder_transaction_filter_to_binder_bpf_map ::
  "bpf_env \<Rightarrow> (string, InterfaceConfig) hashmap \<Rightarrow> ('h st, unit) io" where
  "write_binder_transaction_filter_to_binder_bpf_map env filters =
     for_each (\<lambda>(interface_name, interface_config).
       BpfMapAccessor_put BinderInterfaceBpfMap env interface_name (method_ids interface_config) Insert)
       filters"

text \<open>The drain after a failed write, whose own error is merged into the error returned.\<close>

definition drain_after_failure :: "nat \<Rightarrow> bpf_env \<Rightarrow> ('h st, 'a) io" where
  "drain_after_failure fuel env =
     finally_do
       (io_bind (on_err (io_then (drain fuel env) (ret True)) (\<lambda>_. ret False)) (\<lambda>drained.
        fail (Anyhow (if drained
          then ''Failed to write binder transaction filter to bpf map: {}''
          else ''Failed to write *and* drain binder interface bpf map. write error: {}, drain error: {}''))))
       BpfMapAccessor_drop"

fun setup_binder_filters :: "nat \<Rightarrow> bpf_env \<Rightarrow> bool \<Rightarrow> ResolvedProbe list \<Rightarrow> ('h st, bool) io" where
  "setup_binder_filters fuel env opened [] = ret opened"
| "setup_binder_filters fuel env opened (probe # probes) =
     (if probe_filters probe = [] then setup_binder_filters fuel env opened probes
      else
        io_then (if opened then ret () else BpfMapAccessor_new BinderInterfaceBpfMap env)
        (io_then (on_err (write_binder_transaction_filter_to_binder_bpf_map env (probe_filters probe))
                    (\<lambda>_. drain_after_failure fuel env))
           (setup_binder_filters fuel env True probes)))"

text \<open>The result tells whether the map was opened, that is whether the accessor is \<^const>\<open>Some\<close>.\<close>

definition setup_binder_transaction_filters ::
  "nat \<Rightarrow> bpf_env \<Rightarrow> ResolvedProbe list \<Rightarrow> ('h st, bool) io" where
  "setup_binder_transaction_filters fuel env probes = setup_binder_filters fuel env False probes"

definition cleanup_binder_transaction_filters :: "nat \<Rightarrow> bpf_env \<Rightarrow> bool \<Rightarrow> i64 \<Rightarrow> ('h st, unit) io" where
  "cleanup_binder_transaction_filters fuel env opened tid =
     (if \<not> opened then ret ()
      else finally_do
        (on_err (drain fuel env)
          (\<lambda>_. write_internal_error ErrorTypeBinderFilterCleanupFailed tid None None 0))
        BpfMapAccessor_drop)"

subsection \<open>Probes and threads\<close>

definition attach_probe :: "bpf_env \<Rightarrow> ResolvedTask \<Rightarrow> ResolvedProbe \<Rightarrow> ('h st, int) io" where
  "attach_probe env task probe =
     io_bind (lift_res (try_into_signed (uint (method_offset (probe_offsets probe))))) (\<lambda>offs.
     io_bind (on_err
        (bpf_perf_event_open env (container_path (probe_offsets probe)) offs
          (rp_pid (resolved_process task)) (bpf_program_path probe))
        (\<lambda>e. io_then (write_internal_error ErrorTypeBpfProgramAttachFailed (rt_id task)
                        (Some (bpf_program_path probe)) None 0)
               (fail (ReportedToStatsd e)))) (\<lambda>fd.
     io_bind (on_err (lift_res (bpf_program_path_to_enum (bpf_program_path probe)))
                (\<lambda>e. io_then (OwnedFd_drop fd) (fail e))) (\<lambda>prog.
     io_then (emit (BpfAttachedWrite prog
         (md_fully_qualified_class_name (method_descriptor probe))
         (md_method_name (method_descriptor probe)) (rp_name (resolved_process task)) (rt_id task)))
       (ret fd))))"

text \<open>\<open>collect::<Result<Vec<OwnedFd>>>\<close>: at the first error the descriptors opened so far are closed.\<close>

fun attach_probes :: "bpf_env \<Rightarrow> ResolvedTask \<Rightarrow> int list \<Rightarrow> ResolvedProbe list \<Rightarrow> ('h st, int list) io" where
  "attach_probes env task fds [] = ret fds"
| "attach_probes env task fds (probe # probes) =
     io_bind (on_err (attach_probe env task probe)
                (\<lambda>e. io_then (for_each OwnedFd_drop fds) (fail e)))
       (\<lambda>fd. attach_probes env task (fds @ [fd]) probes)"

text \<open>What \<open>join\<close> returns for a thread: a panic becomes an error, and every error loses its type.\<close>

fun thread_error :: "unit res \<Rightarrow> err option" where
  "thread_error (Ok _) = None"
| "thread_error (Err _) = Some (Anyhow ''poll_registry error: {}'')"
| "thread_error (Panic _) = Some (Anyhow ''Thread panic: {p:?}'')"
| "thread_error NoFuel = None"

definition run_thread ::
  "nat \<Rightarrow> daemon_env \<Rightarrow> ResolvedTask \<Rightarrow> trace \<Rightarrow> nat \<times> string \<Rightarrow> unit res \<times> trace" where
  "run_thread fuel env task t thread =
     (case poll_registry fuel env (snd thread) task (rt_duration task)
             ((), t @ [ThreadSpawned (fst thread)]) of
        (r, (_, t')) \<Rightarrow> (r, drop (length t) t'))"

definition poll_threads :: "nat \<Rightarrow> daemon_env \<Rightarrow> ResolvedTask \<Rightarrow> ('h st, err list) io" where
  "poll_threads fuel env task = (\<lambda>(h, t).
     let runs = map (run_thread fuel env task t) (enumerate 0 (bpf_map_paths task)) in
     (if NoFuel \<in> set (map fst runs) then NoFuel
      else Ok (List.map_filter (\<lambda>run. thread_error (fst run)) runs),
      (h, t @ [ThreadScope (map snd runs)])))"

definition attach_probes_and_poll_maps :: "nat \<Rightarrow> daemon_env \<Rightarrow> ResolvedTask \<Rightarrow> ('h st, unit) io" where
  "attach_probes_and_poll_maps fuel env task =
     io_then (for_each (\<lambda>map_path. io_bind (bpf_ring_buffer_discard (e_bpf env) map_path) (\<lambda>_. ret ()))
                (bpf_map_paths task))
     (io_bind (attach_probes (e_bpf env) task [] (resolved_probes task)) (\<lambda>fds.
      finally_do
        (io_bind (poll_threads fuel env task) (\<lambda>errors.
          lift_res (ensure (errors = []) (Anyhow ''At least one thread returned error: {}''))))
        (for_each OwnedFd_drop fds)))"

text \<open>\<open>e.is::<ReportedToStatsd>() || e.is::<UprobeStatsError>()\<close>\<close>

fun already_reported :: "err \<Rightarrow> bool" where
  "already_reported (ReportedToStatsd e) = True"
| "already_reported (BpfProgramError p) = True"
| "already_reported (BpfDataInvalid p) = True"
| "already_reported (Anyhow m) = False"

definition execute :: "nat \<Rightarrow> daemon_env \<Rightarrow> ResolvedTask \<Rightarrow> ('h st, unit) io" where
  "execute fuel env task =
     io_bind
       (on_err (io_bind (setup_binder_transaction_filters fuel (e_bpf env) (resolved_probes task))
                  (\<lambda>opened. ret (Some opened)))
          (\<lambda>_. io_then (write_internal_error ErrorTypeBinderFilterSetupFailed (rt_id task) None None 0)
                 (ret None)))
     (\<lambda>setup. case setup of
        None \<Rightarrow> ret ()
      | Some opened \<Rightarrow>
          io_then (on_err (attach_probes_and_poll_maps fuel env task)
             (\<lambda>e. if already_reported e then ret ()
                  else write_internal_error ErrorTypeTaskExecutionFailed (rt_id task) None None 0))
            (cleanup_binder_transaction_filters fuel (e_bpf env) opened (rt_id task)))"

subsection \<open>Computations that always return\<close>

text \<open>A kernel map has a maximal number of entries; one iteration more is enough to drain it.\<close>

lemma io_returns_drain:
  assumes "kernel_hash_map env view" and "\<And>t. card (dom (view t)) < n"
  shows "io_returns (drain n env)"
  unfolding io_returns_def
proof
  fix s :: "'h st"
  obtain h t where "s = (h, t)" by (cases s)
  with drain_enough_fuel [OF assms(1) assms(2) [of t], of h] show "returns (fst (drain n env s))" by auto
qed

lemma setup_returns:
  "io_returns (drain n env :: ('h st, unit) io) \<Longrightarrow>
     io_returns (setup_binder_filters n env opened probes :: ('h st, bool) io)"
  by (induction probes arbitrary: opened)
    (auto simp: write_binder_transaction_filter_to_binder_bpf_map_def drain_after_failure_def split_def
      intro!: io_returns_intros io_returns_bpf)

lemma attach_probe_returns: "io_returns (attach_probe env task probe)"
  by (auto simp: attach_probe_def intro!: io_returns_intros io_returns_bpf)

lemma attach_probes_returns: "io_returns (attach_probes env task fds probes)"
  by (induction probes arbitrary: fds) (auto intro!: io_returns_intros io_returns_bpf attach_probe_returns)

lemma poll_threads_returns:
  assumes "ticking (e_clock env)" and "(as_millis (rt_duration task) + 1) * 1000000 < fuel"
  shows "io_returns (poll_threads fuel env task)"
  unfolding io_returns_def
proof
  fix s :: "'h st"
  obtain h t where s: "s = (h, t)" by (cases s)
  have "fuel_free (poll_registry fuel env mp task (rt_duration task) :: (unit st, unit) io)" for mp
    by (rule poll_registry_ok(5) [OF assms])
  then have "fst (run_thread fuel env task t th) \<noteq> NoFuel" for th
    by (auto simp: run_thread_def fuel_free_def split: prod.split) (metis fst_conv)
  then show "returns (fst (poll_threads fuel env task s))"
    by (auto simp: poll_threads_def s Let_def image_def) (metis fst_conv)
qed

text \<open>\<open>io_total\<close>: neither an error, nor a panic, nor out of fuel.\<close>

definition io_total :: "('s, 'a) io \<Rightarrow> bool" where
  "io_total m \<longleftrightarrow> (\<forall>s. \<exists>x s'. m s = (Ok x, s'))"

lemma io_total_bind: "io_total m \<Longrightarrow> (\<And>x. io_total (f x)) \<Longrightarrow> io_total (io_bind m f)"
  unfolding io_total_def io_bind_Ok_iff by metis

lemma io_total_on_err:
  assumes "io_returns m" and "\<And>e. io_total (h e)"
  shows "io_total (on_err m h)"
  unfolding io_total_def
proof
  fix s
  obtain r s' where m: "m s = (r, s')" by (cases "m s")
  with assms(1) have "returns r" by (metis io_returns_def fst_conv)
  with m assms(2) show "\<exists>x s'. on_err m h s = (Ok x, s')"
    by (cases r) (simp_all add: on_err_def io_total_def)
qed

lemma io_total_prim: "io_total (ret x)" "io_total (emit e)"
  by (auto simp: io_total_def emit_def)

lemma io_total_finally_do: "io_total m \<Longrightarrow> io_total (finally_do m k)"
  unfolding io_total_def finally_do_Ok_iff by blast

lemma io_total_if: "(b \<Longrightarrow> io_total m) \<Longrightarrow> (\<not> b \<Longrightarrow> io_total k) \<Longrightarrow> io_total (if b then m else k)"
  by simp

lemmas io_total_intros = io_total_bind io_total_on_err io_total_prim io_total_finally_do io_total_if

lemma execute_total:
  assumes "io_returns (drain fuel (e_bpf env) :: ('h st, unit) io)"
    and "io_returns (poll_threads fuel env task :: ('h st, err list) io)"
  shows "io_total (execute fuel env task :: ('h st, unit) io)"
proof -
  have "io_returns (attach_probes_and_poll_maps fuel env task :: ('h st, unit) io)"
    unfolding attach_probes_and_poll_maps_def using assms(2)
    by (auto intro!: io_returns_intros io_returns_bpf attach_probes_returns)
  moreover have "io_total (cleanup_binder_transaction_filters fuel (e_bpf env) opened tid :: ('h st, unit) io)"
    for opened tid
    unfolding cleanup_binder_transaction_filters_def using assms(1) by (auto intro!: io_total_intros)
  moreover have "io_returns (io_bind (setup_binder_filters fuel (e_bpf env) False (resolved_probes task))
      (\<lambda>opened. ret (Some opened)) :: ('h st, bool option) io)"
    by (intro io_returns_bind setup_returns assms(1) io_returns_pure) simp
  ultimately show ?thesis
    unfolding execute_def setup_binder_transaction_filters_def
    by (auto intro!: io_total_intros split: option.split)
qed

text \<open>A kernel whose map has fewer than \<open>n\<close> entries at any time.\<close>

definition filter_kernel :: "nat \<Rightarrow> bpf_env \<Rightarrow> (trace \<Rightarrow> CKey \<rightharpoonup> CValue) \<Rightarrow> bool" where
  "filter_kernel n env view \<longleftrightarrow> kernel_hash_map env view \<and> (\<forall>t. card (dom (view t)) < n)"

lemma filter_kernelD:
  assumes "filter_kernel n env view"
  shows "kernel_hash_map env view" and "card (dom (view t)) < n" and "io_returns (drain n env)"
  using assms io_returns_drain [of env view n] unfolding filter_kernel_def by auto

lemma example_filter_kernel:
  "5000 < n \<Longrightarrow> filter_kernel n (e_bpf example_daemon) (\<lambda>t. map_of (kernel_contents [] t))"
  by (simp add: filter_kernel_def example_daemon_def example_kernel_hash_map example_kernel_capacity)

lemma execute_Ok:
  assumes "ticking (e_clock env)" and "(as_millis (rt_duration task) + 1) * 1000000 < fuel"
    and "filter_kernel fuel (e_bpf env) view"
  shows "\<exists>s'. execute fuel env task s = (Ok (), s')"
proof -
  have "io_total (execute fuel env task :: ('h st, unit) io)"
    by (intro execute_total poll_threads_returns [OF assms(1,2)] filter_kernelD(3) [OF assms(3)])
  then show ?thesis unfolding io_total_def by (metis (full_types) old.unit.exhaust)
qed

lemma example_execution:
  "\<exists>h t. execute 200000000000 example_daemon example_resolved ((), []) = (Ok (), (h, t))"
  using execute_Ok [OF example_ticking _ example_filter_kernel, of example_resolved 200000000000 "((), [])"]
  by (auto simp: example_resolved_def as_millis_def)

text \<open>
  C16. Executing a task always comes to an end, without an error and without a panic, so that the
  cleanup steps after it always run: for any replies of the kernel, of statsd and of the bridge service
  and however the handlers fail, if the filter map behaves as a bounded hash map, the clock advances and the fuel exceeds the number of
  nanoseconds of the task (rounded up to the next millisecond) and the capacity of the filter map.
\<close>

theorem execute_returns:
  assumes "ticking (e_clock env)" and "(as_millis (rt_duration task) + 1) * 1000000 < fuel"
    and "filter_kernel fuel (e_bpf env) view"
  shows "\<exists>s'. execute fuel env task s = (Ok (), s')"
  by (rule execute_Ok [OF assms])

theorem execute_returns_witness:
  "\<exists>s'. execute 200000000000 example_daemon example_resolved ((), []) = (Ok (), s')"
  by (rule execute_returns [OF example_ticking _ example_filter_kernel])
    (simp_all add: example_resolved_def as_millis_def)

subsection \<open>Descriptors\<close>

lemma attach_probe_fds:
  assumes "attach_probe env task probe (h, t) = (r, (h', t'))"
  shows "case r of Ok fd \<Rightarrow> fd_balance t t' [fd] [] | _ \<Rightarrow> fd_balance t t' [] []"
  using assms
  by (auto simp: attach_probe_def bpf_perf_event_open_def c_string_def ensure_def on_err_def
      fd_balance_def opened_fd_def closed_fd_def List.map_filter_simps io_bind_def try_into_signed_def
      split: if_splits)

lemma attach_probes_fds:
  "attach_probes env task fds probes (h, t) = (r, (h', t')) \<Longrightarrow>
     \<exists>new. (case r of Ok fds' \<Rightarrow> fds' = fds @ new \<and> fd_balance t t' new []
            | _ \<Rightarrow> fd_balance t t' new (fds @ new))"
proof (induction probes arbitrary: fds h t)
  case (Cons probe probes)
  obtain r1 h1 t1 where one: "attach_probe env task probe (h, t) = (r1, (h1, t1))"
    by (cases "attach_probe env task probe (h, t)") auto
  note b = attach_probe_fds [OF one]
  show ?case
  proof (cases r1)
    case (Ok fd)
    with Cons.prems one have "attach_probes env task (fds @ [fd]) probes (h1, t1) = (r, (h', t'))"
      by (simp add: io_bind_def on_err_def)
    from Cons.IH [OF this] b Ok obtain new where
      "case r of Ok fds' \<Rightarrow> fds' = fds @ [fd] @ new \<and> fd_balance t t' ([fd] @ new) []
       | _ \<Rightarrow> fd_balance t t' ([fd] @ new) (fds @ [fd] @ new)"
      using fd_balance_trans [of t t1 "[fd]" "[]"] by (cases r) auto
    then show ?thesis by (intro exI [of _ "[fd] @ new"])
  next
    case (Err e)
    with Cons.prems one have "r = Err e" "t' = t1 @ map FdClose fds"
      by (simp_all add: io_bind_def on_err_def close_all)
    then show ?thesis using b Err fd_balance_trans [OF _ close_all_balance, of t t1 "[]" "[]" fds]
      by (intro exI [of _ "[]"]) simp
  qed (use attach_probe_returns [unfolded io_returns_def, rule_format, of env task probe "(h, t)"] one
      in simp_all)
qed (auto intro!: exI [of _ "[]"])

lemma poll_threads_steps:
  "(\<And>us. \<not> P (ThreadScope us)) \<Longrightarrow> io_steps (never_emits P) (poll_threads fuel env task)"
  "io_steps grows (poll_threads fuel env task)"
  by (auto simp: io_steps_def never_emits_def grows_def poll_threads_def Let_def)

lemma attach_and_poll_fds:
  assumes "attach_probes_and_poll_maps fuel env task (h, t) = (r, (h', t'))"
  shows "\<exists>fds. fd_balance t t' fds fds"
proof -
  let ?discard = "for_each (\<lambda>map_path. io_bind (bpf_ring_buffer_discard (e_bpf env) map_path) (\<lambda>_. ret ()))
                (bpf_map_paths task) :: ('a st, unit) io"
  let ?poll = "io_bind (poll_threads fuel env task) (\<lambda>errors.
          lift_res (ensure (errors = []) (Anyhow ''At least one thread returned error: {}''))) :: ('a st, unit) io"
  have quiet: "io_steps (never_emits fd_effect) ?discard" "io_steps (never_emits fd_effect) ?poll"
    by (auto simp: bpf_defs intro!: never_intros poll_threads_steps)
  obtain r0 h0 t0 where d: "?discard (h, t) = (r0, (h0, t0))" by (cases "?discard (h, t)") auto
  note b0 = fd_quiet [OF quiet(1) d]
  show ?thesis
  proof (cases "r0 = Ok ()")
    case False
    then have "t' = t0" using assms d
      by (cases r0) (auto simp: attach_probes_and_poll_maps_def io_bind_def)
    with b0 show ?thesis by blast
  next
    case True
    obtain r1 h1 t1 where a: "attach_probes (e_bpf env) task [] (resolved_probes task) (h0, t0) = (r1, (h1, t1))"
      by (cases "attach_probes (e_bpf env) task [] (resolved_probes task) (h0, t0)") auto
    from attach_probes_fds [OF this] obtain new where
      new: "case r1 of Ok fds' \<Rightarrow> fds' = new \<and> fd_balance t0 t1 new [] | _ \<Rightarrow> fd_balance t0 t1 new new"
      unfolding append_Nil by blast
    show ?thesis
    proof (cases "\<exists>fds. r1 = Ok fds")
      case False
      then have "t' = t1" using assms d True a
        by (cases r1) (auto simp: attach_probes_and_poll_maps_def io_bind_def)
      moreover have "fd_balance t0 t1 new new" using new False by (cases r1) auto
      ultimately show ?thesis using fd_balance_trans [OF b0] by auto
    next
      case fds: True
      then have b1: "r1 = Ok new" "fd_balance t0 t1 new []" using new by auto
      obtain r2 h2 t2 where p: "?poll (h1, t1) = (r2, (h2, t2))" by (cases "?poll (h1, t1)") auto
      have "t' = t2 @ map FdClose new"
        using assms d True a b1(1) p
        by (auto simp: attach_probes_and_poll_maps_def io_bind_run finally_do_def close_all)
      then show ?thesis
        using fd_balance_trans [OF fd_balance_trans [OF fd_balance_trans [OF b0 b1(2)]
              fd_quiet [OF quiet(2) p]] close_all_balance [of t2 new]] by auto
    qed
  qed
qed

definition fd_balanced :: "'h st \<Rightarrow> 'h st \<Rightarrow> bool" where
  "fd_balanced s s' \<longleftrightarrow> (\<exists>fds. fd_balance (snd s) (snd s') fds fds)"

interpretation fdb: io_preorder fd_balanced
  by unfold_locales (auto simp: fd_balanced_def intro: fd_balance_refl fd_balance_trans)

lemma fd_balanced_quiet:
  fixes m :: "('h st, 'a) io"
  assumes "io_steps (never_emits fd_effect) m"
  shows "io_steps fd_balanced m"
  unfolding io_steps_def
proof
  fix s :: "'h st"
  obtain h t where s: "s = (h, t)" by (cases s)
  obtain r h' t' where m: "m s = (r, (h', t'))" by (cases "m s") auto
  with s have "fd_balance t t' [] []" by (intro fd_quiet [OF assms]) simp
  then show "fd_balanced s (snd (m s))" using m s by (auto simp: fd_balanced_def)
qed

lemma attach_and_poll_balanced:
  "io_steps fd_balanced (attach_probes_and_poll_maps fuel env task :: ('h st, unit) io)"
  unfolding io_steps_def
proof
  fix s :: "'h st"
  obtain h t where s: "s = (h, t)" by (cases s)
  obtain r h' t' where m: "attach_probes_and_poll_maps fuel env task (h, t) = (r, (h', t'))"
    by (cases "attach_probes_and_poll_maps fuel env task (h, t)") auto
  from attach_and_poll_fds [OF m] m s
  show "fd_balanced s (snd (attach_probes_and_poll_maps fuel env task s))" by (simp add: fd_balanced_def)
qed

lemma drain_never: "(\<And>r. \<not> P (MapGetFirstKey r)) \<Longrightarrow> (\<And>k r. \<not> P (MapDelete k r)) \<Longrightarrow>
    io_steps (never_emits P) (drain n env)"
  by (induction n) (auto simp: bpf_defs intro!: never_intros split: prod.split)

text \<open>The binder filters touch nothing but their map.\<close>

fun filter_effect :: "effect \<Rightarrow> bool" where
  "filter_effect (MapOpen _ _) = True"
| "filter_effect (MapUpdate _ _ _ _) = True"
| "filter_effect (MapGetFirstKey _) = True"
| "filter_effect (MapDelete _ _) = True"
| "filter_effect MapClose = True"
| "filter_effect _ = False"

lemma setup_never:
  "(\<And>e. filter_effect e \<Longrightarrow> \<not> P e) \<Longrightarrow> io_steps (never_emits P) (setup_binder_filters n env opened probes)"
  by (induction probes arbitrary: opened)
    (auto simp: write_binder_transaction_filter_to_binder_bpf_map_def drain_after_failure_def bpf_defs
      intro!: never_intros drain_never split: prod.split)

lemma cleanup_never:
  "(\<And>e. filter_effect e \<Longrightarrow> \<not> P e) \<Longrightarrow> (\<And>a b c d e. \<not> P (InternalErrorWrite a b c d e)) \<Longrightarrow>
     io_steps (never_emits P) (cleanup_binder_transaction_filters n env opened tid)"
  by (auto simp: cleanup_binder_transaction_filters_def bpf_defs intro!: never_intros drain_never)

text \<open>The three steps of an execution, for any preorder that they respect.\<close>

lemma execute_steps:
  assumes "io_preorder R"
    and "io_steps R (setup_binder_filters fuel (e_bpf env) False (resolved_probes task))"
    and "io_steps R (attach_probes_and_poll_maps fuel env task)"
    and "\<And>opened. io_steps R (cleanup_binder_transaction_filters fuel (e_bpf env) opened (rt_id task))"
    and "\<And>ty. io_steps R (emit (InternalErrorWrite ty (rt_id task) (ie_program None) (ie_map None) 0))"
  shows "io_steps R (execute fuel env task)"
  unfolding execute_def setup_binder_transaction_filters_def write_internal_error_eq
  by (intro io_preorder.steps_bind [OF assms(1)] io_preorder.steps_on_err [OF assms(1)]
      io_preorder.steps_case_option [OF assms(1)] io_preorder.steps_if [OF assms(1)]
      io_preorder.steps_pure [OF assms(1)] assms(2-5))

text \<open>
  C21. Descriptors. However an execution ends, the perf-event descriptors that were opened are exactly
  those that were closed, each once and in the order in which they were opened: also when a later
  probe cannot be attached, and when polling fails.
\<close>

theorem execute_closes_fds:
  "\<exists>fds. opened_fds (snd (snd (execute fuel env task (h, t)))) = opened_fds t @ fds
     \<and> closed_fds (snd (snd (execute fuel env task (h, t)))) = closed_fds t @ fds"
proof -
  have "io_steps fd_balanced (execute fuel env task :: ('a st, unit) io)"
  proof (rule execute_steps)
    show "io_preorder (fd_balanced :: 'a st \<Rightarrow> 'a st \<Rightarrow> bool)" by (rule fdb.io_preorder_axioms)
    have fd: "filter_effect e \<Longrightarrow> \<not> fd_effect e" for e by (cases e) simp_all
    show "io_steps fd_balanced (setup_binder_filters fuel (e_bpf env) False (resolved_probes task) :: ('a st, bool) io)"
      by (intro fd_balanced_quiet setup_never fd)
    show "io_steps fd_balanced (cleanup_binder_transaction_filters fuel (e_bpf env) opened (rt_id task) :: ('a st, unit) io)"
      for opened
      by (intro fd_balanced_quiet cleanup_never) (auto dest: fd)
    show "io_steps fd_balanced (emit (InternalErrorWrite ty (rt_id task) (ie_program None) (ie_map None) 0) :: ('a st, unit) io)"
      for ty by (intro fd_balanced_quiet never_prim) simp
    show "io_steps fd_balanced (attach_probes_and_poll_maps fuel env task :: ('a st, unit) io)"
      by (rule attach_and_poll_balanced)
  qed
  then show ?thesis unfolding io_steps_def fd_balanced_def fd_balance_def by (metis snd_conv)
qed

subsection \<open>The filter map\<close>

text \<open>Only this daemon changes the map, and only through the accessor.\<close>

lemma view_quiet:
  assumes "kernel_hash_map env view" and "filter touches_map u = []"
  shows "view (t @ u) = view t"
  using assms(2)
proof (induction u arbitrary: t)
  case (Cons e u)
  then have "\<not> touches_map e" "filter touches_map u = []" by (auto split: if_splits)
  with Cons.IH [of "t @ [e]"] kernel_other [OF assms(1), of e t] show ?case by simp
qed simp

lemma view_steps:
  assumes "kernel_hash_map env view" and "io_steps grows m" and "io_steps (never_emits touches_map) m"
    and "m (h, t) = (r, (h', t'))"
  shows "view t' = view t"
proof -
  from growsD [OF assms(2,4)] obtain u where u: "t' = t @ u" by (auto simp: prefix_def)
  moreover have "filter touches_map t' = filter touches_map t"
    using assms(3,4) unfolding io_steps_def never_emits_def by (metis snd_conv)
  ultimately show ?thesis using view_quiet [OF assms(1)] by simp
qed

text \<open>The life of the accessor: a successful open, and a close.\<close>

fun map_life :: "effect \<Rightarrow> bool" where
  "map_life (MapOpen _ r) = (r = 0)"
| "map_life MapClose = True"
| "map_life _ = False"

abbreviation filter_map_path :: string where
  "filter_map_path \<equiv> ''/sys/fs/bpf/uprobestats/map_Binder_interfaces''"

lemma filter_map_open:
  "BpfMapAccessor_new BinderInterfaceBpfMap env (h, t) =
     (if map_open env t filter_map_path = 0 then Ok ()
      else Err (Anyhow ''Failed to open BPF map at {}: error {}''),
      (h, t @ [MapOpen filter_map_path (map_open env t filter_map_path)]))"
  by (simp add: bpf_defs BinderInterfaceBpfMap_def c_string_def)

lemma never_life:
  "io_steps (never_emits map_life) (drain n env)"
  "io_steps (never_emits map_life) (write_binder_transaction_filter_to_binder_bpf_map env filters)"
  by (auto simp: write_binder_transaction_filter_to_binder_bpf_map_def bpf_defs
      intro!: never_intros drain_never split: prod.split)

lemma drain_after_failure_run:
  assumes "drain_after_failure n env (h, t) = (r, (h', t'))"
  shows "(\<forall>x. r \<noteq> Ok x) \<and> (\<exists>r1 h1 t1. drain n env (h, t) = (r1, (h1, t1)) \<and> t' = t1 @ [MapClose])"
proof -
  obtain r1 h1 t1 where "drain n env (h, t) = (r1, (h1, t1))" by (cases "drain n env (h, t)") auto
  with assms show ?thesis
    by (cases r1) (auto simp: drain_after_failure_def finally_do_def on_err_def io_bind_def bpf_defs)
qed

text \<open>One probe of the setup: the filters are written, or the map is drained and closed.\<close>

lemma write_or_drain_life:
  assumes "on_err (write_binder_transaction_filter_to_binder_bpf_map env filters)
             (\<lambda>_. drain_after_failure n env) (h, t) = (r, (h', t'))"
  shows "if r = Ok () then filter map_life t' = filter map_life t
         else (\<forall>x. r \<noteq> Ok x) \<and> filter map_life t' = filter map_life t @ [MapClose]"
proof -
  let ?w = "write_binder_transaction_filter_to_binder_bpf_map env filters"
  obtain r0 h0 t0 where w: "?w (h, t) = (r0, (h0, t0))" by (cases "?w (h, t)") auto
  have w0: "filter map_life t0 = filter map_life t"
    using neverD [OF never_life(2) w] by simp
  have "io_returns ?w"
    by (auto simp: write_binder_transaction_filter_to_binder_bpf_map_def split_def
        intro!: io_returns_intros io_returns_bpf)
  then have "returns r0" using w by (metis io_returns_def fst_conv)
  then consider "r0 = Ok ()" | e where "r0 = Err e" by (cases r0) auto
  then show ?thesis
  proof cases
    case 2
    with assms w have "drain_after_failure n env (h0, t0) = (r, (h', t'))" by (simp add: on_err_def)
    from drain_after_failure_run [OF this] obtain r1 h1 t1 where
      r: "\<forall>x. r \<noteq> Ok x" and d: "drain n env (h0, t0) = (r1, (h1, t1))" "t' = t1 @ [MapClose]" by blast
    have "filter map_life t1 = filter map_life t0"
      using neverD [OF never_life(1) d(1)] by simp
    with r d(2) w0 show ?thesis by simp
  qed (use assms w w0 in \<open>auto simp: on_err_def\<close>)
qed

definition setup_life :: "bool \<Rightarrow> bool res \<Rightarrow> effect list \<Rightarrow> bool" where
  "setup_life opened r c \<longleftrightarrow>
     (case r of
        Ok opn \<Rightarrow> c = (if opn \<and> \<not> opened then [MapOpen filter_map_path 0] else []) \<and> (opened \<longrightarrow> opn)
      | _ \<Rightarrow> c = (if opened then [MapClose] else [MapOpen filter_map_path 0, MapClose]) \<or> \<not> opened \<and> c = [])"

lemma setup_step:
  assumes "probe_filters probe \<noteq> []"
  shows "setup_binder_filters n env opened (probe # probes) (h, t) =
    (if \<not> opened \<and> map_open env t filter_map_path \<noteq> 0
     then (Err (Anyhow ''Failed to open BPF map at {}: error {}''),
           (h, t @ [MapOpen filter_map_path (map_open env t filter_map_path)]))
     else io_then (on_err (write_binder_transaction_filter_to_binder_bpf_map env (probe_filters probe))
                     (\<lambda>_. drain_after_failure n env))
            (setup_binder_filters n env True probes)
            (h, if opened then t else t @ [MapOpen filter_map_path 0]))"
  using assms by (cases opened) (simp_all add: filter_map_open io_bind_def [of "BpfMapAccessor_new m e" for m e])

lemma io_then_cases:
  assumes "io_then m k s = (r, s')"
  obtains (Ok) s1 where "m s = (Ok (), s1)" and "k s1 = (r, s')"
    | (fails) r1 where "m s = (r1, s')" and "r1 \<noteq> Ok ()" and "\<forall>x. r \<noteq> Ok x" and "\<forall>e. r = Err e \<longleftrightarrow> r1 = Err e"
proof -
  obtain r1 s1 where m: "m s = (r1, s1)" by (cases "m s")
  with assms show thesis
    by (cases r1) (auto simp: io_bind_def intro: that)
qed

lemma setup_cases:
  assumes "setup_binder_filters n env opened (probe # probes) (h, t) = (r, (h', t'))"
  obtains (skip) "setup_binder_filters n env opened probes (h, t) = (r, (h', t'))"
    | (unopened) "\<not> opened" and "map_open env t filter_map_path \<noteq> 0"
        and "t' = t @ [MapOpen filter_map_path (map_open env t filter_map_path)]"
        and "r = Err (Anyhow ''Failed to open BPF map at {}: error {}'')"
    | (writes) "io_then (on_err
          (write_binder_transaction_filter_to_binder_bpf_map env (probe_filters probe))
          (\<lambda>_. drain_after_failure n env)) (setup_binder_filters n env True probes)
        (h, if opened then t else t @ [MapOpen filter_map_path 0]) = (r, (h', t'))"
proof (cases "probe_filters probe = []")
  case True
  with assms skip show thesis by simp
next
  case False
  with assms unopened writes show thesis
    unfolding setup_step [OF False]
    by (cases "\<not> opened \<and> map_open env t filter_map_path \<noteq> 0") auto
qed

lemma setup_map_life:
  "setup_binder_filters n env opened probes (h, t) = (r, (h', t')) \<Longrightarrow>
     \<exists>c. filter map_life t' = filter map_life t @ c \<and> setup_life opened r c"
proof (induction probes arbitrary: opened h t)
  case (Cons probe probes)
  define t0 where "t0 = (if opened then t else t @ [MapOpen filter_map_path 0])"
  have t0: "filter map_life t0 = filter map_life t @ (if opened then [] else [MapOpen filter_map_path 0])"
    by (simp add: t0_def)
  from Cons.prems show ?case
  proof (cases rule: setup_cases)
    case unopened
    then show ?thesis by (auto simp: setup_life_def)
  next
    case writes
    from writes [folded t0_def] show ?thesis
    proof (cases rule: io_then_cases)
      case (Ok s1)
      obtain h1 t1 where s1: "s1 = (h1, t1)" by (cases s1)
      from Cons.IH [OF Ok(2) [unfolded s1]] obtain c where
        c: "filter map_life t' = filter map_life t1 @ c" "setup_life True r c" by blast
      moreover have "filter map_life t1 = filter map_life t0"
        using write_or_drain_life [OF Ok(1) [unfolded s1]] by simp
      ultimately show ?thesis using t0
        by (intro exI [of _ "(if opened then [] else [MapOpen filter_map_path 0]) @ c"])
          (auto simp: setup_life_def split: res.splits if_splits)
    next
      case (fails r1)
      have "filter map_life t' = filter map_life t0 @ [MapClose]"
        using write_or_drain_life [OF fails(1)] fails(2) by simp
      with t0 fails(3) show ?thesis
        by (intro exI [of _ "(if opened then [] else [MapOpen filter_map_path 0]) @ [MapClose]"])
          (auto simp: setup_life_def split: res.splits)
    qed
  qed (rule Cons.IH)
qed (auto simp: setup_life_def)

text \<open>Keys that can be deleted by the name they are read back as.\<close>

definition stable_keys :: "(CKey \<rightharpoonup> CValue) \<Rightarrow> bool" where
  "stable_keys m \<longleftrightarrow> (\<forall>c \<in> dom m. binder_to_c_key (binder_from_c_key c) = c)"

definition good_filters :: "ResolvedProbe list \<Rightarrow> bool" where
  "good_filters probes \<longleftrightarrow> list_all (\<lambda>p. list_all (\<lambda>(name, _). good_name name) (probe_filters p)) probes"

lemma drain_stable:
  assumes "filter_kernel n env view" and "stable_keys (view t)"
  shows "\<exists>t'. drain n env (h, t) = (Ok (), (h, t')) \<and> view t' = Map.empty"
  by (rule drain_clean_map [OF filter_kernelD(1,2) [OF assms(1)]])
    (use assms(2) in \<open>simp add: stable_keys_def\<close>)

lemma write_filters_stable:
  assumes "kernel_hash_map env view"
    and "list_all (\<lambda>(name, _). good_name name) filters" and "stable_keys (view t)"
    and "write_binder_transaction_filter_to_binder_bpf_map env filters (h, t) = (r, (h', t'))"
  shows "stable_keys (view t')"
  using assms(2-4)
proof (induction filters arbitrary: h t)
  case (Cons f filters)
  obtain name cfg where f: "f = (name, cfg)" by (cases f)
  let ?c = "binder_to_c_key name" and ?v = "binder_to_c_value (method_ids cfg)"
  let ?t1 = "t @ [MapUpdate ?c ?v 1 (map_update env t ?c ?v 1)]"
  have "stable_keys (view ?t1)"
    using kernel_after_update [OF assms(1) binder_to_c_key_length] Cons.prems(1,2) f
    by (auto simp: stable_keys_def binder_from_to_key)
  with Cons f show ?case
    by (auto simp: write_binder_transaction_filter_to_binder_bpf_map_def bpf_defs BinderInterfaceBpfMap_def
        io_bind_def [of "lift_res x" for x] ensure_def split: if_splits)
qed (simp add: write_binder_transaction_filter_to_binder_bpf_map_def)

lemma write_or_drain_view:
  assumes k: "filter_kernel n env view"
    and "list_all (\<lambda>(name, _). good_name name) filters" and "stable_keys (view t)"
    and "on_err (write_binder_transaction_filter_to_binder_bpf_map env filters)
             (\<lambda>_. drain_after_failure n env) (h, t) = (r, (h', t'))"
  shows "if r = Ok () then stable_keys (view t') else view t' = Map.empty"
proof -
  let ?w = "write_binder_transaction_filter_to_binder_bpf_map env filters"
  obtain r0 h0 t0 where w: "?w (h, t) = (r0, (h0, t0))" by (cases "?w (h, t)") auto
  note stable = write_filters_stable [OF filter_kernelD(1) [OF k] assms(2,3) w]
  have "io_returns ?w"
    by (auto simp: write_binder_transaction_filter_to_binder_bpf_map_def split_def
        intro!: io_returns_intros io_returns_bpf)
  then have "returns r0" using w by (metis io_returns_def fst_conv)
  then consider "r0 = Ok ()" | e where "r0 = Err e" by (cases r0) auto
  then show ?thesis
  proof cases
    case 2
    with assms(4) w have "drain_after_failure n env (h0, t0) = (r, (h', t'))" by (simp add: on_err_def)
    from drain_after_failure_run [OF this] drain_stable [OF k stable, of h0]
    have "r \<noteq> Ok ()" "\<exists>t1. t' = t1 @ [MapClose] \<and> view t1 = Map.empty" by auto
    then show ?thesis
      using kernel_other [OF filter_kernelD(1) [OF k], of MapClose] by (auto simp: touches_map_def)
  qed (use assms(4) w stable in \<open>auto simp: on_err_def\<close>)
qed

definition setup_view :: "(CKey \<rightharpoonup> CValue) \<Rightarrow> bool res \<Rightarrow> effect list \<Rightarrow> (CKey \<rightharpoonup> CValue) \<Rightarrow> bool" where
  "setup_view m r c m' \<longleftrightarrow>
     (case r of
        Ok opn \<Rightarrow> stable_keys m' \<and> (\<not> opn \<longrightarrow> m' = m)
      | _ \<Rightarrow> if c = [] then m' = m else m' = Map.empty)"

lemma setup_keeps_stable:
  assumes k: "filter_kernel n env view"
  shows "setup_binder_filters n env opened probes (h, t) = (r, (h', t')) \<Longrightarrow> good_filters probes \<Longrightarrow>
    stable_keys (view t) \<Longrightarrow> \<exists>c. filter map_life t' = filter map_life t @ c \<and> setup_life opened r c
      \<and> setup_view (view t) r c (view t')"
proof (induction probes arbitrary: opened h t)
  case (Cons probe probes)
  define t0 where "t0 = (if opened then t else t @ [MapOpen filter_map_path 0])"
  have t0: "filter map_life t0 = filter map_life t @ (if opened then [] else [MapOpen filter_map_path 0])"
    by (simp add: t0_def)
  have v0: "view t0 = view t" and open_same: "view (t @ [MapOpen p x]) = view t" for p x
    using kernel_other [OF filter_kernelD(1) [OF k]] by (simp_all add: t0_def touches_map_def)
  from Cons.prems(1) show ?case
  proof (cases rule: setup_cases)
    case skip
    then show ?thesis using Cons by (simp add: good_filters_def)
  next
    case unopened
    then show ?thesis by (auto simp: setup_life_def setup_view_def open_same)
  next
    case writes
    from writes [folded t0_def] show ?thesis
    proof (cases rule: io_then_cases)
      case (Ok s1)
      obtain h1 t1 where s1: "s1 = (h1, t1)" by (cases s1)
      have "stable_keys (view t1)"
        using write_or_drain_view [OF k _ _ Ok(1) [unfolded s1]] Cons.prems v0 by (simp add: good_filters_def)
      then obtain c where c: "filter map_life t' = filter map_life t1 @ c" "setup_life True r c"
          "setup_view (view t1) r c (view t')"
        using Cons.IH [OF Ok(2) [unfolded s1]] Cons.prems(2) by (auto simp: good_filters_def)
      moreover have "filter map_life t1 = filter map_life t0"
        using write_or_drain_life [OF Ok(1) [unfolded s1]] by simp
      ultimately show ?thesis using t0
        by (intro exI [of _ "(if opened then [] else [MapOpen filter_map_path 0]) @ c"])
          (auto simp: setup_life_def setup_view_def split: res.splits if_splits)
    next
      case (fails r1)
      have "filter map_life t' = filter map_life t0 @ [MapClose]"
        using write_or_drain_life [OF fails(1)] fails(2) by simp
      moreover have "view t' = Map.empty"
        using write_or_drain_view [OF k _ _ fails(1)] fails(2) Cons.prems v0 by (simp add: good_filters_def)
      ultimately show ?thesis using t0 fails(3)
        by (intro exI [of _ "(if opened then [] else [MapOpen filter_map_path 0]) @ [MapClose]"])
          (auto simp: setup_life_def setup_view_def split: res.splits)
    qed
  qed
qed (auto simp: setup_life_def setup_view_def)

subsection \<open>An execution, step by step\<close>

definition execution_failed :: "ResolvedTask \<Rightarrow> ErrorType \<Rightarrow> effect" where
  "execution_failed task ty = InternalErrorWrite ty (rt_id task) (ie_program None) (ie_map None) 0"

definition second_report :: "ResolvedTask \<Rightarrow> unit res \<Rightarrow> effect list" where
  "second_report task r =
     (case r of
        Err e \<Rightarrow> if already_reported e then [] else [execution_failed task ErrorTypeTaskExecutionFailed]
      | _ \<Rightarrow> [])"

lemma execute_cases:
  assumes "execute fuel env task (h, t) = (Ok (), (h', t'))"
  obtains (setup_fails) e h1 t1 where
      "setup_binder_filters fuel (e_bpf env) False (resolved_probes task) (h, t) = (Err e, (h1, t1))"
      and "t' = t1 @ [execution_failed task ErrorTypeBinderFilterSetupFailed]"
    | (runs) opened h1 t1 r2 h2 t2 where
      "setup_binder_filters fuel (e_bpf env) False (resolved_probes task) (h, t) = (Ok opened, (h1, t1))"
      and "attach_probes_and_poll_maps fuel env task (h1, t1) = (r2, (h2, t2))" and "returns r2"
      and "cleanup_binder_transaction_filters fuel (e_bpf env) opened (rt_id task)
             (h2, t2 @ second_report task r2) = (Ok (), (h', t'))"
proof -
  let ?prep = "setup_binder_filters fuel (e_bpf env) False (resolved_probes task)"
  obtain r1 h1 t1 where s: "?prep (h, t) = (r1, (h1, t1))" by (cases "?prep (h, t)") auto
  show thesis
  proof (cases r1)
    case (Ok opened)
    obtain r2 h2 t2 where a: "attach_probes_and_poll_maps fuel env task (h1, t1) = (r2, (h2, t2))"
      by (cases "attach_probes_and_poll_maps fuel env task (h1, t1)") auto
    from assms s Ok a show thesis
      by (cases r2) (auto simp: execute_def setup_binder_transaction_filters_def io_bind_def on_err_def
          second_report_def execution_failed_def intro!: runs [of opened h1 t1 r2 h2 t2] split: if_splits)
  next
    case (Err e)
    with assms s show thesis
      by (auto simp: execute_def setup_binder_transaction_filters_def io_bind_def on_err_def
          execution_failed_def intro!: setup_fails [of e h1 t1])
  qed (use assms s in \<open>simp_all add: execute_def setup_binder_transaction_filters_def io_bind_def on_err_def\<close>)
qed

text \<open>Attaching and polling leave the filter map alone.\<close>

lemma attach_never:
  assumes "\<And>p r. \<not> P (RingDiscard p r)" and "\<And>a b c d e. \<not> P (PerfEventOpen a b c d e)"
    and "\<And>fd. \<not> P (FdClose fd)" and "\<And>a b c d e. \<not> P (BpfAttachedWrite a b c d e)"
    and "\<And>a b c d e. \<not> P (InternalErrorWrite a b c d e)" and "\<And>us. \<not> P (ThreadScope us)"
  shows "io_steps (never_emits P) (attach_probes_and_poll_maps fuel env task)"
proof -
  have "io_steps (never_emits P) (attach_probes (e_bpf env) task fds probes)" for fds probes
    by (induction probes arbitrary: fds)
      (auto simp: attach_probe_def bpf_defs assms intro!: never_intros)
  then show ?thesis
    by (auto simp: attach_probes_and_poll_maps_def bpf_defs assms intro!: never_intros poll_threads_steps)
qed

lemma attach_grows: "io_steps grows (attach_probes_and_poll_maps fuel env task)"
proof -
  have "io_steps grows (attach_probes (e_bpf env) task fds probes)" for fds probes
    by (induction probes arbitrary: fds)
      (auto simp: attach_probe_def intro!: grows_intros grows_bpf)
  then show ?thesis
    by (auto simp: attach_probes_and_poll_maps_def intro!: grows_intros grows_bpf poll_threads_steps)
qed

lemma attach_filters_untouched:
  assumes "attach_probes_and_poll_maps fuel env task (h, t) = (r, (h', t'))"
  shows "filter map_life (t' @ second_report task r0) = filter map_life t"
    and "kernel_hash_map bpf view \<Longrightarrow> view (t' @ second_report task r0) = view t"
proof -
  have quiet: "filter map_life (second_report task r0) = []" "filter touches_map (second_report task r0) = []"
    by (auto simp: second_report_def execution_failed_def touches_map_def split: res.split)
  have "io_steps (never_emits map_life) (attach_probes_and_poll_maps fuel env task)" by (rule attach_never) simp_all
  then show "filter map_life (t' @ second_report task r0) = filter map_life t"
    using assms quiet unfolding io_steps_def never_emits_def by (metis append_Nil2 filter_append snd_conv)
  show "view (t' @ second_report task r0) = view t" if k: "kernel_hash_map bpf view"
  proof -
    have "io_steps (never_emits touches_map) (attach_probes_and_poll_maps fuel env task)"
      by (rule attach_never) (simp_all add: touches_map_def)
    then show ?thesis using view_steps [OF k attach_grows _ assms] view_quiet [OF k quiet(2)] by simp
  qed
qed

lemma cleanup_run:
  assumes "cleanup_binder_transaction_filters n env opened tid (h, t) = (Ok (), (h', t'))"
  shows "if opened then \<exists>r1 h1 t1 t2. drain n env (h, t) = (r1, (h1, t1)) \<and> t' = t2 @ [MapClose]
           \<and> (r1 = Ok () \<and> t2 = t1
              \<or> (\<exists>e. r1 = Err e \<and> t2 = t1 @ [InternalErrorWrite ErrorTypeBinderFilterCleanupFailed tid
                    (ie_program None) (ie_map None) 0]))
         else t' = t"
proof (cases opened)
  case True
  obtain r1 h1 t1 where "drain n env (h, t) = (r1, (h1, t1))" by (cases "drain n env (h, t)") auto
  with assms True show ?thesis
    by (cases r1) (auto simp: cleanup_binder_transaction_filters_def finally_do_def on_err_def bpf_defs)
qed (use assms in \<open>simp add: cleanup_binder_transaction_filters_def\<close>)

lemma cleanup_life:
  assumes "cleanup_binder_transaction_filters n env opened tid (h, t) = (Ok (), (h', t'))"
  shows "filter map_life t' = filter map_life t @ (if opened then [MapClose] else [])"
proof (cases opened)
  case True
  from cleanup_run [OF assms] True obtain r1 h1 t1 t2 where
    d: "drain n env (h, t) = (r1, (h1, t1))" and t': "t' = t2 @ [MapClose]"
    and t2: "t2 = t1 \<or> (\<exists>ie. t2 = t1 @ [ie] \<and> \<not> map_life ie)" by auto
  have "filter map_life t1 = filter map_life t"
    using neverD [OF never_life(1) d] by simp
  with t' t2 True show ?thesis by auto
qed (use cleanup_run [OF assms] in simp)

text \<open>
  The accessor of the filter map. A finished execution has opened the map at most once and closed it
  exactly as often as it was opened successfully, whatever the setup, the polling and the drain did.
\<close>

theorem execute_closes_map:
  assumes "execute fuel env task (h, t) = (Ok (), (h', t'))"
  shows "\<exists>c \<in> {[], [MapOpen filter_map_path 0, MapClose]}. filter map_life t' = filter map_life t @ c"
  using assms
proof (cases rule: execute_cases)
  case setup_fails
  with setup_map_life [OF setup_fails(1)] show ?thesis by (auto simp: setup_life_def execution_failed_def)
next
  case (runs opened h1 t1 r2 h2 t2)
  from setup_map_life [OF runs(1)] attach_filters_untouched(1) [OF runs(2)] cleanup_life [OF runs(4)]
  show ?thesis by (auto simp: setup_life_def)
qed

text \<open>A task with a binder filter, whose execution ends.\<close>

lemma example_filtered_execution:
  "\<exists>h t. execute 200000000000 example_daemon (example_binder_task ps) ((), []) = (Ok (), (h, t))"
  using execute_Ok [OF example_ticking _ example_filter_kernel, of "example_binder_task ps" 200000000000 "((), [])"]
  by (auto simp: example_resolved_def example_binder_task_def as_millis_def)

theorem execute_closes_map_witness:
  "\<exists>h t. execute 200000000000 example_daemon (example_binder_task []) ((), []) = (Ok (), (h, t))
     \<and> (\<exists>c \<in> {[], [MapOpen filter_map_path 0, MapClose]}. filter map_life t = c)"
proof -
  obtain h t where run: "execute 200000000000 example_daemon (example_binder_task []) ((), []) = (Ok (), (h, t))"
    using example_filtered_execution by blast
  from execute_closes_map [OF this] run show ?thesis by auto
qed

text \<open>
  C9. The filter map after an execution. If the interface names make the round trip and so do the
  keys found in the map, then an execution that could open the map leaves it empty, whether or not
  setting it up or polling succeeded; an execution that did not open it leaves it as it was.
\<close>

theorem execute_empties_filters:
  assumes "execute fuel env task (h, t) = (Ok (), (h', t'))"
    and "filter_kernel fuel (e_bpf env) view" and "stable_keys (view t)"
    and "good_filters (resolved_probes task)"
  shows "filter map_life t' = filter map_life t \<and> view t' = view t
    \<or> filter map_life t' = filter map_life t @ [MapOpen filter_map_path 0, MapClose] \<and> view t' = Map.empty"
  using assms(1)
proof (cases rule: execute_cases)
  case (setup_fails e h1 t1)
  have "view t' = view t1"
    using setup_fails(2) kernel_other [OF filter_kernelD(1) [OF assms(2)]]
    by (simp add: execution_failed_def touches_map_def)
  with setup_keeps_stable [OF assms(2) setup_fails(1) assms(4,3)] setup_fails(2) show ?thesis
    by (auto simp: setup_life_def setup_view_def execution_failed_def)
next
  case (runs opened h1 t1 r2 h2 t2)
  note k = filter_kernelD(1) [OF assms(2)]
  from setup_keeps_stable [OF assms(2) runs(1) assms(4,3)]
  have s: "filter map_life t1 = filter map_life t @ (if opened then [MapOpen filter_map_path 0] else [])"
    "stable_keys (view t1)" "\<not> opened \<longrightarrow> view t1 = view t"
    by (auto simp: setup_life_def setup_view_def)
  note a = attach_filters_untouched [where ?r0.0 = r2, OF runs(2)] and life = cleanup_life [OF runs(4)]
  show ?thesis
  proof (cases opened)
    case True
    from drain_stable [OF assms(2), of "t2 @ second_report task r2" h2] a(2) [OF k] s(2) obtain t3 where
      "drain fuel (e_bpf env) (h2, t2 @ second_report task r2) = (Ok (), (h2, t3))" "view t3 = Map.empty"
      by auto
    with cleanup_run [OF runs(4)] True have "view t' = Map.empty"
      using kernel_other [OF k, of MapClose] by (auto simp: touches_map_def)
    with True s(1) a(1) life show ?thesis by simp
  qed (use s a(1) a(2) [OF k] life cleanup_run [OF runs(4)] in auto)
qed

theorem execute_empties_filters_witness:
  "\<exists>h t. execute 200000000000 example_daemon (example_binder_task []) ((), []) = (Ok (), (h, t))
     \<and> map_of (kernel_contents [] t) = Map.empty"
proof -
  obtain h t where run: "execute 200000000000 example_daemon (example_binder_task []) ((), []) = (Ok (), (h, t))"
    using example_filtered_execution by blast
  have "good_filters (resolved_probes (example_binder_task []))"
    by (simp add: good_filters_def example_binder_task_def good_name_def ascii_valid_utf8 ascii_def)
  from execute_empties_filters [OF run example_filter_kernel _ this] run show ?thesis
    by (auto simp: stable_keys_def kernel_contents_step)
qed

subsection \<open>What statsd hears of a failed thread\<close>

fun is_scope :: "effect \<Rightarrow> bool" where
  "is_scope (ThreadScope _) = True"
| "is_scope _ = False"

lemma run_thread_reports:
  assumes "run_thread fuel env task t th = (r, u)" and "e \<in> set u" and "is_internal_error e"
  shows "thread_error r \<noteq> None"
proof -
  obtain g t' where run: "poll_registry fuel env (snd th) task (rt_duration task)
      ((), t @ [ThreadSpawned (fst th)]) = (r, (g, t'))" and u: "u = drop (length t) t'"
    using assms(1) by (auto simp: run_thread_def split: prod.splits)
  from growsD [OF poll_registry_ok(2) run] obtain v where v: "t' = (t @ [ThreadSpawned (fst th)]) @ v"
    by (auto simp: prefix_def)
  with u assms(2,3) have "internal_errors v \<noteq> []" by (auto simp: filter_empty_conv)
  with v reportsD [OF poll_registry_ok(1) run] have "marked r \<noteq> None"
    by (auto simp: report_ok_def split: option.splits)
  then show ?thesis by (cases r) auto
qed

lemma poll_threads_run:
  assumes "poll_threads fuel env task (h, t) = (r, (h', t'))"
  shows "\<exists>us. t' = t @ [ThreadScope us]
    \<and> (r = Ok [] \<longrightarrow> (\<forall>u \<in> set us. internal_errors u = []))"
proof -
  let ?runs = "map (run_thread fuel env task t) (enumerate 0 (bpf_map_paths task))"
  have "internal_errors u = []" if "r = Ok []" "u \<in> snd ` set ?runs" for u
  proof -
    from that(2) obtain th where th: "th \<in> set (enumerate 0 (bpf_map_paths task))"
      "u = snd (run_thread fuel env task t th)" by auto
    obtain r1 where r1: "run_thread fuel env task t th = (r1, u)" by (metis th(2) prod.collapse)
    have "\<forall>th \<in> set (enumerate 0 (bpf_map_paths task)). thread_error (fst (run_thread fuel env task t th)) = None"
      using assms that(1)
      by (auto simp: poll_threads_def Let_def List.map_filter_def filter_empty_conv split: if_splits)
    with th r1 have "thread_error r1 = None" by (metis fst_conv)
    with run_thread_reports [OF r1] show ?thesis by (auto simp: filter_empty_conv)
  qed
  then show ?thesis using assms by (auto simp: poll_threads_def Let_def)
qed

lemma attach_probes_scope:
  "io_steps (never_emits is_scope) (attach_probes env task fds probes)"
  by (induction probes arbitrary: fds) (auto simp: attach_probe_def bpf_defs intro!: never_intros)

lemma attach_scope:
  assumes "attach_probes_and_poll_maps fuel env task (h, t) = (r, (h', t'))" and "returns r"
  shows "\<exists>c. filter is_scope t' = filter is_scope t @ c
    \<and> (\<forall>us u. ThreadScope us \<in> set c \<longrightarrow> u \<in> set us \<longrightarrow> internal_errors u \<noteq> [] \<longrightarrow>
         r = Err (Anyhow ''At least one thread returned error: {}''))"
proof -
  let ?discard = "for_each (\<lambda>map_path. io_bind (bpf_ring_buffer_discard (e_bpf env) map_path) (\<lambda>_. ret ()))
                (bpf_map_paths task) :: ('a st, unit) io"
  have quiet: "io_steps (never_emits is_scope) ?discard"
    by (auto simp: bpf_defs intro!: never_intros)
  obtain r0 h0 t0 where d: "?discard (h, t) = (r0, (h0, t0))" by (cases "?discard (h, t)") auto
  have f0: "filter is_scope t0 = filter is_scope t"
    using neverD [OF quiet d] by simp
  obtain r1 h1 t1 where a: "attach_probes (e_bpf env) task [] (resolved_probes task) (h0, t0) = (r1, (h1, t1))"
    by (cases "attach_probes (e_bpf env) task [] (resolved_probes task) (h0, t0)") auto
  have f1: "filter is_scope t1 = filter is_scope t0"
    using neverD [OF attach_probes_scope a] by simp
  show ?thesis
  proof (cases "(\<exists>fds. r1 = Ok fds) \<and> r0 = Ok ()")
    case False
    then have "t' = t0 \<or> t' = t1" using assms d a
      by (cases r0; cases r1) (auto simp: attach_probes_and_poll_maps_def io_bind_def)
    with f0 f1 show ?thesis by auto
  next
    case True
    then obtain fds where ok: "r0 = Ok ()" "r1 = Ok fds" by blast
    obtain r2 h2 t2 where p: "poll_threads fuel env task (h1, t1) = (r2, (h2, t2))"
      by (cases "poll_threads fuel env task (h1, t1)") auto
    from poll_threads_run [OF p] obtain us where us: "t2 = t1 @ [ThreadScope us]"
      "r2 = Ok [] \<longrightarrow> (\<forall>u \<in> set us. internal_errors u = [])" by blast
    have "t' = t2 @ map FdClose fds"
      and "r = (case r2 of Ok es \<Rightarrow> ensure (es = []) (Anyhow ''At least one thread returned error: {}'')
                | Err e \<Rightarrow> Err e | Panic m \<Rightarrow> Panic m | NoFuel \<Rightarrow> NoFuel)"
      using assms(1) d a ok p
      by (cases r2; simp add: attach_probes_and_poll_maps_def io_bind_def finally_do_def close_all)+
    moreover have "(\<exists>es. r2 = Ok es) \<or> r2 = NoFuel"
      using p by (auto simp: poll_threads_def Let_def split: if_splits)
    ultimately show ?thesis using f0 f1 us assms(2)
      by (intro exI [of _ "[ThreadScope us]"]) (auto simp: ensure_def filter_empty_conv split: if_splits)
  qed
qed

lemma filter_not_scope: "filter_effect e \<Longrightarrow> \<not> is_scope e"
  by (cases e) simp_all

lemma cleanup_grows: "io_steps grows (cleanup_binder_transaction_filters n env opened tid)"
  by (auto simp: cleanup_binder_transaction_filters_def intro!: grows_intros grows_bpf grows_drain)

text \<open>
  C34. Errors that are reported twice. A polling thread reports its error itself and marks it with
  \<open>ReportedToStatsd\<close>, but the join of the threads makes a new error without the marker: whenever a thread
  of a finished execution has reported an internal error, the execution reports a second one, of the
  type \<open>ErrorTypeTaskExecutionFailed\<close>, for the same task.
\<close>

theorem execute_reports_twice:
  assumes "execute fuel env task (h, t) = (Ok (), (h', t'))" and "filter is_scope t = []"
    and "ThreadScope us \<in> set t'" and "u \<in> set us" and "internal_errors u \<noteq> []"
  shows "execution_failed task ErrorTypeTaskExecutionFailed \<in> set t'"
  using assms(1)
proof (cases rule: execute_cases)
  case (setup_fails e h1 t1)
  have "filter is_scope t1 = []"
    using neverD [OF setup_never setup_fails(1), of is_scope] filter_not_scope assms(2) by simp
  with setup_fails(2) assms(3) show ?thesis by (auto simp: execution_failed_def filter_empty_conv)
next
  case (runs opened h1 t1 r2 h2 t2)
  have "filter is_scope t1 = []"
    using neverD [OF setup_never runs(1), of is_scope] filter_not_scope assms(2) by simp
  moreover have "filter is_scope t' = filter is_scope (t2 @ second_report task r2)"
    using neverD [OF cleanup_never runs(4), of is_scope] filter_not_scope by simp
  moreover have "filter is_scope (second_report task r2) = []"
    by (simp add: second_report_def execution_failed_def split: res.split)
  ultimately obtain c where c: "filter is_scope t' = c" and
    fails: "ThreadScope us \<in> set c \<Longrightarrow> r2 = Err (Anyhow ''At least one thread returned error: {}'')"
    using attach_scope [OF runs(2,3)] assms(4,5) by auto
  have "ThreadScope us \<in> set (filter is_scope t')" using assms(3) by simp
  then have "execution_failed task ErrorTypeTaskExecutionFailed \<in> set (second_report task r2)"
    using c fails by (simp add: second_report_def)
  moreover have "set (t2 @ second_report task r2) \<subseteq> set t'"
    using growsD [OF cleanup_grows runs(4)] by (auto simp: prefix_def)
  ultimately show ?thesis by auto
qed

definition failing_daemon :: daemon_env where
  "failing_daemon = example_daemon\<lparr>e_bpf := (example_kernel [])\<lparr>ring_create := \<lambda>_ _. False\<rparr>\<rparr>"

text \<open>A task without probes, whose only thread cannot create its ring buffer.\<close>

abbreviation failing_task :: ResolvedTask where
  "failing_task \<equiv> example_resolved\<lparr>resolved_probes := [], bpf_map_paths := [MAP_PATH example_handler]\<rparr>"

abbreviation ring_failure :: effect where
  "ring_failure \<equiv> InternalErrorWrite ErrorTypeBpfRingBufferCreateFailed 7 (ie_program None)
     (ie_map (Some (MAP_PATH example_handler))) 0"

lemma failing_registered:
  "map_of (HANDLER_REGISTRY n failing_daemon) (MAP_PATH example_handler) =
     Some (poll_loop_generic n (e_bpf failing_daemon) example_poll_clock example_handler example_ring)"
  by (simp add: HANDLER_REGISTRY_def register_handler_def hm_insert_def failing_daemon_def example_daemon_def
      example_flags_def Let_def update_conv' BitmapAllocationHandlerV1_dict_def CallTimestampHandler_def
      CallResultHandler_def SetUidTempAllowlistStateRecordHandler_def
      UpdateDeviceIdleTempAllowlistRecordHandler_def BinderTransactionHandler_def AccessibilityHandler_dict_def
      ComponentEnabledSettingHandler_def BindServiceLockedHandler_def)

lemma example_path: "c_string (MAP_PATH example_handler) = Ok (MAP_PATH example_handler)"
  by (simp add: BitmapAllocationHandlerV1_dict_def c_string_def)

lemma failing_thread:
  "\<exists>e. run_thread n failing_daemon failing_task t (0, MAP_PATH example_handler) =
     (Err e, [ThreadSpawned 0, InstantNow, RingCreate (MAP_PATH example_handler) False, ring_failure])"
proof -
  have "PROG_PATH example_handler = None" by (simp add: BitmapAllocationHandlerV1_dict_def)
  moreover have "ring_create (e_bpf failing_daemon) = (\<lambda>_ _. False)" by (simp add: failing_daemon_def)
  ultimately show ?thesis
    by (simp add: run_thread_def poll_registry_def failing_registered poll_loop_generic_def Timer_new_def
        BpfRingBuffer_new_def on_err_def report_and_mark_def io_bind_def example_path
        example_resolved_def)
qed

lemma failing_execution:
  "\<exists>h t. execute n failing_daemon failing_task ((), []) = (Ok (), (h, t)) \<and> ThreadScope [[ThreadSpawned 0,
     InstantNow, RingCreate (MAP_PATH example_handler) False, ring_failure]] \<in> set t"
proof -
  let ?us = "[[ThreadSpawned 0, InstantNow, RingCreate (MAP_PATH example_handler) False, ring_failure]]"
  have poll: "poll_threads n failing_daemon failing_task ((), t) =
      (Ok [Anyhow ''poll_registry error: {}''], ((), t @ [ThreadScope ?us]))" for t
    using failing_thread [of n t] by (auto simp: poll_threads_def Let_def List.map_filter_simps)
  have discard: "bpf_ring_buffer_discard (e_bpf failing_daemon) (MAP_PATH example_handler) ((), t) =
      (Ok False, ((), t @ [RingDiscard (MAP_PATH example_handler) 0]))" for t
    by (simp add: bpf_ring_buffer_discard_def failing_daemon_def example_kernel_def example_path ensure_def)
  have "attach_probes_and_poll_maps n failing_daemon failing_task ((), []) =
      (Err (Anyhow ''At least one thread returned error: {}''),
       ((), [RingDiscard (MAP_PATH example_handler) 0, ThreadScope ?us]))"
    by (simp add: attach_probes_and_poll_maps_def io_bind_def discard poll finally_do_def ensure_def)
  then show ?thesis
    by (simp add: execute_def setup_binder_transaction_filters_def cleanup_binder_transaction_filters_def
        on_err_def io_bind_def)
qed

theorem execute_reports_twice_witness:
  "\<exists>h t us u. execute 5 failing_daemon failing_task ((), []) = (Ok (), (h, t))
     \<and> ThreadScope us \<in> set t \<and> u \<in> set us \<and> ring_failure \<in> set u
     \<and> execution_failed failing_task ErrorTypeTaskExecutionFailed \<in> set t"
proof -
  let ?u = "[ThreadSpawned 0, InstantNow, RingCreate (MAP_PATH example_handler) False, ring_failure]"
  obtain h t where run: "execute 5 failing_daemon failing_task ((), []) = (Ok (), (h, t))"
    and u: "ThreadScope [?u] \<in> set t" using failing_execution [of 5] by blast
  have "execution_failed failing_task ErrorTypeTaskExecutionFailed \<in> set t"
    by (rule execute_reports_twice [OF run _ u, of ?u]) simp_all
  with run u show ?thesis by (intro exI [of _ h] exI [of _ t] exI [of _ "[?u]"] exI [of _ ?u]) simp
qed

end
