(* ===== verification/Managers.thy ===== *)
theory Managers
  imports Config
begin

section \<open>The platform's managers\<close>

text \<open>
  \<open>ffi/dynamic_instrumentation_manager\<close> (method descriptors, target processes and the file offsets of
  a method) and \<open>ffi/activity_manager\<close> (running processes and process observers). The C side is a
  parameter: a status code, and a pointer that may be null. An object that the C side hands out is an
  effect \<^const>\<open>ForeignCreate\<close>, its \<open>drop\<close> an effect \<^const>\<open>ForeignDestroy\<close>.
\<close>

subsection \<open>Target processes and method descriptors\<close>

record TargetProcess =
  tp_uid :: u32
  tp_pid :: i32
  tp_process_name :: string

definition TargetProcess_new :: "u32 \<Rightarrow> i32 \<Rightarrow> string \<Rightarrow> ('h st, TargetProcess) io" where
  "TargetProcess_new uid pid process_name =
     io_bind (lift_res (c_string process_name)) (\<lambda>process_name.
     io_then (emit (ForeignCreate TargetProcessObj))
       (ret \<lparr>tp_uid = uid, tp_pid = pid, tp_process_name = process_name\<rparr>))"

definition TargetProcess_system_server :: "('h st, TargetProcess) io" where
  "TargetProcess_system_server = TargetProcess_new 0 0 ''system_server''"

definition TargetProcess_drop :: "('h st, unit) io" where
  "TargetProcess_drop = emit (ForeignDestroy TargetProcessObj)"

definition MethodDescriptor_new :: "string \<Rightarrow> string \<Rightarrow> string list \<Rightarrow> ('h st, MethodDescriptor) io" where
  "MethodDescriptor_new cls name params =
     io_bind (lift_res (c_string cls)) (\<lambda>cls.
     io_bind (lift_res (c_string name)) (\<lambda>name.
     io_bind (lift_res (collect_res c_string params)) (\<lambda>params.
     io_then (emit (ForeignCreate MethodDescriptorObj))
       (ret \<lparr>md_fully_qualified_class_name = cls, md_method_name = name,
             md_fully_qualified_parameters = params\<rparr>))))"

definition MethodDescriptor_drop :: "('h st, unit) io" where
  "MethodDescriptor_drop = emit (ForeignDestroy MethodDescriptorObj)"

subsection \<open>File offsets\<close>

text \<open>The fields behind the C getters; the path is the bytes of a C string.\<close>

record MethodFileOffsets =
  mo_container_path :: "char list"
  mo_container_offset :: u64
  mo_method_offset :: u64

datatype ExceptionCode = SERVICE_SPECIFIC | OtherException int

record Status =
  exception_code :: ExceptionCode
  service_specific_error :: int

definition ILLEGAL_STATE :: int where "ILLEGAL_STATE = - 5"

definition new_service_specific_error :: "int \<Rightarrow> Status" where
  "new_service_specific_error e = \<lparr>exception_code = SERVICE_SPECIFIC, service_specific_error = e\<rparr>"

text \<open>The reply of the C function: its status, and the out parameter (\<^const>\<open>None\<close> for null).\<close>

type_synonym offsets_api = "trace \<Rightarrow> TargetProcess \<Rightarrow> MethodDescriptor \<Rightarrow> int \<times> MethodFileOffsets option"

definition created :: "foreign \<Rightarrow> 'a option \<Rightarrow> ('h st, unit) io" where
  "created k ptr = (if ptr = None then ret () else emit (ForeignCreate k))"

definition ExecutableMethodFileOffsets_get ::
  "offsets_api \<Rightarrow> TargetProcess \<Rightarrow> MethodDescriptor \<Rightarrow> ('h st, Status + MethodFileOffsets option) io" where
  "ExecutableMethodFileOffsets_get api target descriptor =
     io_bind (ext_call (\<lambda>t. api t target descriptor) (\<lambda>(status, _). GetMethodOffsets status))
     (\<lambda>(status, instance). io_then (created MethodFileOffsetsObj instance)
       (if status \<noteq> 0 then ret (Inl (new_service_specific_error status)) else ret (Inr instance)))"

definition get_container_path :: "MethodFileOffsets \<Rightarrow> string" where
  "get_container_path offs = from_utf8_lossy (takeWhile (\<lambda>c. c \<noteq> NUL) (mo_container_path offs))"

definition ExecutableMethodFileOffsets_drop :: "('h st, unit) io" where
  "ExecutableMethodFileOffsets_drop = emit (ForeignDestroy MethodFileOffsetsObj)"

subsection \<open>Running processes\<close>

text \<open>An entry of the list of running processes: its name may be a null pointer.\<close>

record RunningAppProcessInfo =
  ri_process_name :: "char list option"
  ri_pid :: i32
  ri_uid :: u32

type_synonym running_api = "trace \<Rightarrow> int \<times> RunningAppProcessInfo option list option"

fun find_running :: "string \<Rightarrow> RunningAppProcessInfo option list \<Rightarrow> (i32 \<times> u32) res" where
  "find_running target [] = Err (Anyhow ''Process {} not found in running apps'')"
| "find_running target (info_ptr # infos) =
     (case info_ptr of
        None \<Rightarrow> find_running target infos
      | Some info \<Rightarrow>
          (case ri_process_name info of
             None \<Rightarrow> find_running target infos
           | Some name \<Rightarrow>
               if from_utf8_lossy (takeWhile (\<lambda>c. c \<noteq> NUL) name) = target
               then Ok (ri_pid info, ri_uid info)
               else find_running target infos))"

definition get_running_process_pid_uid :: "running_api \<Rightarrow> string \<Rightarrow> ('h st, i32 \<times> u32) io" where
  "get_running_process_pid_uid api target =
     io_bind (ext_call api (\<lambda>(status, _). GetRunningProcesses status)) (\<lambda>(status, out_list).
     io_then (created RunningProcessListObj out_list)
     (if status \<noteq> 0 then fail (Anyhow ''Failed to get running app processes, status: {}'')
      else case out_list of
        None \<Rightarrow> fail (Anyhow ''Running app processes list is unexpectedly null'')
      | Some infos \<Rightarrow>
          finally_do (lift_res (find_running target infos))
            (emit (ForeignDestroy RunningProcessListObj))))"

subsection \<open>Process observers\<close>

datatype ForegroundActivitiesState = NoForegroundActivities | HasForegroundActivities

text \<open>The trait \<open>ProcessObserverCallbacks\<close>, over the state \<open>'c\<close> of an implementation.\<close>

record 'c ProcessObserverCallbacks =
  on_process_started :: "i32 \<Rightarrow> u32 \<Rightarrow> u32 \<Rightarrow> string \<Rightarrow> string \<Rightarrow> 'c \<Rightarrow> 'c"
  on_foreground_activities_changed :: "i32 \<Rightarrow> u32 \<Rightarrow> ForegroundActivitiesState \<Rightarrow> 'c \<Rightarrow> 'c"
  on_foreground_services_changed :: "i32 \<Rightarrow> u32 \<Rightarrow> i32 \<Rightarrow> 'c \<Rightarrow> 'c"
  on_process_died :: "i32 \<Rightarrow> u32 \<Rightarrow> 'c \<Rightarrow> 'c"

definition default_callbacks :: "'c ProcessObserverCallbacks" where
  "default_callbacks =
     \<lparr>on_process_started = \<lambda>_ _ _ _ _ c. c, on_foreground_activities_changed = \<lambda>_ _ _ c. c,
      on_foreground_services_changed = \<lambda>_ _ _ c. c, on_process_died = \<lambda>_ _ c. c\<rparr>"

definition unwrap_or_default_str :: "char list \<Rightarrow> string" where
  "unwrap_or_default_str bs = (case to_str (takeWhile (\<lambda>c. c \<noteq> NUL) bs) of Ok s \<Rightarrow> s | _ \<Rightarrow> [])"

definition on_process_started_trampoline ::
  "'c ProcessObserverCallbacks \<Rightarrow> i32 \<Rightarrow> u32 \<Rightarrow> u32 \<Rightarrow> char list \<Rightarrow> char list \<Rightarrow> 'c \<Rightarrow> 'c" where
  "on_process_started_trampoline callbacks pid process_uid package_uid package_name process_name =
     on_process_started callbacks pid process_uid package_uid
       (unwrap_or_default_str package_name) (unwrap_or_default_str process_name)"

definition on_foreground_activities_changed_trampoline ::
  "'c ProcessObserverCallbacks \<Rightarrow> i32 \<Rightarrow> u32 \<Rightarrow> int \<Rightarrow> 'c \<Rightarrow> 'c" where
  "on_foreground_activities_changed_trampoline callbacks pid uid state =
     on_foreground_activities_changed callbacks pid uid
       (if state = 1 then HasForegroundActivities else NoForegroundActivities)"

definition on_foreground_services_changed_trampoline ::
  "'c ProcessObserverCallbacks \<Rightarrow> i32 \<Rightarrow> u32 \<Rightarrow> i32 \<Rightarrow> 'c \<Rightarrow> 'c" where
  "on_foreground_services_changed_trampoline callbacks pid uid service_types =
     on_foreground_services_changed callbacks pid uid service_types"

definition on_process_died_trampoline :: "'c ProcessObserverCallbacks \<Rightarrow> i32 \<Rightarrow> u32 \<Rightarrow> 'c \<Rightarrow> 'c" where
  "on_process_died_trampoline callbacks pid uid = on_process_died callbacks pid uid"

text \<open>What the activity manager calls, in the order of the calls.\<close>

datatype process_event =
    ProcessStarted i32 u32 u32 "char list" "char list"
  | ForegroundActivitiesChanged i32 u32 int
  | ForegroundServicesChanged i32 u32 i32
  | ProcessDied i32 u32

fun deliver :: "'c ProcessObserverCallbacks \<Rightarrow> process_event \<Rightarrow> 'c \<Rightarrow> 'c" where
  "deliver cb (ProcessStarted pid uid pkg_uid pkg name) =
     on_process_started_trampoline cb pid uid pkg_uid pkg name"
| "deliver cb (ForegroundActivitiesChanged pid uid state) =
     on_foreground_activities_changed_trampoline cb pid uid state"
| "deliver cb (ForegroundServicesChanged pid uid types) =
     on_foreground_services_changed_trampoline cb pid uid types"
| "deliver cb (ProcessDied pid uid) = on_process_died_trampoline cb pid uid"

record observer_api =
  create_process_observer :: "trace \<Rightarrow> bool"
  register_process_observer :: "trace \<Rightarrow> int"

definition ProcessObserver_drop :: "('h st, unit) io" where
  "ProcessObserver_drop = emit (ForeignDestroy ProcessObserverObj)"

definition ProcessObserver_register :: "observer_api \<Rightarrow> ('h st, unit) io" where
  "ProcessObserver_register api = (\<lambda>(h, t).
     if \<not> create_process_observer api t then (Err (Anyhow ''Failed to create process observer''), (h, t))
     else io_then (emit (ForeignCreate ProcessObserverObj))
       (io_bind (ext_call (register_process_observer api) ObserverRegister) (\<lambda>status.
        if status \<noteq> 0
        then io_then ProcessObserver_drop (fail (Anyhow ''Failed to register process observer, status: {}''))
        else ret ())) (h, t))"

subsection \<open>Ownership\<close>

text \<open>The number of objects of a kind that are alive.\<close>

fun net_effect :: "foreign \<Rightarrow> effect \<Rightarrow> int" where
  "net_effect k (ForeignCreate k') = (if k' = k then 1 else 0)"
| "net_effect k (ForeignDestroy k') = (if k' = k then - 1 else 0)"
| "net_effect k _ = 0"

definition alive :: "foreign \<Rightarrow> trace \<Rightarrow> int" where
  "alive k t = sum_list (map (net_effect k) t)"

lemma alive_append [simp]: "alive k (t @ u) = alive k t + alive k u"
  by (simp add: alive_def)

lemma alive_Nil [simp]: "alive k [] = 0" and alive_Cons [simp]: "alive k (e # t) = net_effect k e + alive k t"
  by (simp_all add: alive_def)

definition same_alive :: "foreign \<Rightarrow> 'h st \<Rightarrow> 'h st \<Rightarrow> bool" where
  "same_alive k s s' \<longleftrightarrow> alive k (snd s') = alive k (snd s)"

interpretation held: io_preorder "same_alive k"
  by unfold_locales (auto simp: same_alive_def)

lemma held_prim:
  "(\<And>r. net_effect k (e r) = 0) \<Longrightarrow> io_steps (same_alive k) (ext_call q e)"
  "net_effect k e' = 0 \<Longrightarrow> io_steps (same_alive k) (emit e')"
  by (auto simp: io_steps_def same_alive_def ext_call_def emit_def)

lemmas held_intros = held.steps_intros held_prim

text \<open>A computation that hands its caller an object, \<open>owned\<close> telling how many the result stands for.\<close>

definition acquires :: "foreign \<Rightarrow> ('a \<Rightarrow> int) \<Rightarrow> ('h st, 'a) io \<Rightarrow> bool" where
  "acquires k owned m \<longleftrightarrow> (\<forall>h t r h' t'. m (h, t) = (r, (h', t')) \<longrightarrow>
     alive k t' = alive k t + (case r of Ok x \<Rightarrow> owned x | _ \<Rightarrow> 0))"

definition releases :: "foreign \<Rightarrow> int \<Rightarrow> ('h st, 'a) io \<Rightarrow> bool" where
  "releases k n m \<longleftrightarrow> (\<forall>h t. alive k (snd (snd (m (h, t)))) = alive k t - n)"

lemma acquiresD:
  "acquires k owned m \<Longrightarrow> m (h, t) = (r, (h', t')) \<Longrightarrow>
     alive k t' = alive k t + (case r of Ok x \<Rightarrow> owned x | _ \<Rightarrow> 0)"
  unfolding acquires_def by blast

lemma heldD: "io_steps (same_alive k) m \<Longrightarrow> m (h, t) = (r, (h', t')) \<Longrightarrow> alive k t' = alive k t"
  unfolding io_steps_def same_alive_def by (metis snd_conv)

lemma heldI:
  assumes "\<And>h t r h' t'. m (h, t) = (r, (h', t')) \<Longrightarrow> alive k t' = alive k t"
  shows "io_steps (same_alive k) m"
  unfolding io_steps_def same_alive_def by (metis assms prod.collapse)

lemma held_acquires: "io_steps (same_alive k) m \<longleftrightarrow> acquires k (\<lambda>_. 0) m"
proof
  assume "acquires k (\<lambda>_. 0) m"
  then show "io_steps (same_alive k) m" by (intro heldI) (auto dest!: acquiresD split: res.splits)
qed (auto simp: acquires_def dest: heldD split: res.split)

text \<open>An object that is dropped when its scope is left, in whatever way that happens.\<close>

lemma acquires_scope:
  assumes c: "acquires k owned c" and b: "\<And>x. acquires k kept (b x)" and d: "\<And>x. releases k (owned x) (d x)"
  shows "acquires k kept (io_bind c (\<lambda>x. finally_do (b x) (d x)))"
  unfolding acquires_def
proof (intro allI impI)
  fix h t r h' t' assume run: "io_bind c (\<lambda>x. finally_do (b x) (d x)) (h, t) = (r, (h', t'))"
  obtain r0 h0 t0 where c0: "c (h, t) = (r0, (h0, t0))" by (cases "c (h, t)") auto
  note a0 = acquiresD [OF c c0]
  show "alive k t' = alive k t + (case r of Ok x \<Rightarrow> kept x | _ \<Rightarrow> 0)"
  proof (cases r0)
    case (Ok x)
    obtain r1 h1 t1 where b1: "b x (h0, t0) = (r1, (h1, t1))" by (cases "b x (h0, t0)") auto
    with run c0 Ok have d1: "snd (d x (h1, t1)) = (h', t')" "r1 = r"
      by (simp_all add: io_bind_def finally_do_def)
    then have "alive k t' = alive k t1 - owned x" using d [of x] unfolding releases_def by (metis snd_conv)
    with a0 Ok acquiresD [OF b b1] d1(2) show ?thesis by simp
  qed (use run c0 a0 in \<open>auto simp: io_bind_def\<close>)
qed

lemma acquires_bind:
  assumes "io_steps (same_alive k) m" and "\<And>x. acquires k kept (f x)"
  shows "acquires k kept (io_bind m f)"
  unfolding acquires_def
proof (intro allI impI)
  fix h t r h' t' assume run: "io_bind m f (h, t) = (r, (h', t'))"
  obtain r0 h0 t0 where m0: "m (h, t) = (r0, (h0, t0))" by (cases "m (h, t)") auto
  from run m0 heldD [OF assms(1) m0] show "alive k t' = alive k t + (case r of Ok x \<Rightarrow> kept x | _ \<Rightarrow> 0)"
    by (cases r0) (auto simp: io_bind_def dest: acquiresD [OF assms(2)])
qed

text \<open>Passing an object on, or losing none with an error.\<close>

lemma acquires_map:
  assumes "acquires k owned m" and "\<And>x. owned x = (case g x of Ok y \<Rightarrow> kept y | _ \<Rightarrow> 0)"
  shows "acquires k kept (io_bind m (\<lambda>x. lift_res (g x)))"
  unfolding acquires_def
proof (intro allI impI)
  fix h t r h' t' assume run: "io_bind m (\<lambda>x. lift_res (g x)) (h, t) = (r, (h', t'))"
  obtain r0 h0 t0 where m0: "m (h, t) = (r0, (h0, t0))" by (cases "m (h, t)") auto
  from run m0 acquiresD [OF assms(1) m0] assms(2)
  show "alive k t' = alive k t + (case r of Ok x \<Rightarrow> kept x | _ \<Rightarrow> 0)"
    by (cases r0) (auto simp: io_bind_def)
qed

lemma acquires_on_err:
  assumes "acquires k kept m" and "\<And>e. acquires k kept (f e)"
  shows "acquires k kept (on_err m f)"
  unfolding acquires_def
proof (intro allI impI)
  fix h t r h' t' assume run: "on_err m f (h, t) = (r, (h', t'))"
  obtain r0 h0 t0 where m0: "m (h, t) = (r0, (h0, t0))" by (cases "m (h, t)") auto
  from run m0 acquiresD [OF assms(1) m0]
  show "alive k t' = alive k t + (case r of Ok x \<Rightarrow> kept x | _ \<Rightarrow> 0)"
    by (cases r0) (auto simp: on_err_def dest: acquiresD [OF assms(2)])
qed

lemma releases_emit: "net_effect k e = - n \<Longrightarrow> releases k n (emit e)"
  by (simp add: releases_def)

lemma releases_if: "(b \<Longrightarrow> releases k n m) \<Longrightarrow> (\<not> b \<Longrightarrow> releases k n m') \<Longrightarrow> releases k n (if b then m else m')"
  by simp

lemma releases_ret: "releases k 0 (ret x)"
  by (simp add: releases_def)

abbreviation one_if :: "bool \<Rightarrow> int" where "one_if b \<equiv> (if b then 1 else 0)"

lemma acquires_managers:
  "acquires k (\<lambda>_. one_if (k = TargetProcessObj)) (TargetProcess_new uid pid name)"
  "acquires k (\<lambda>_. one_if (k = MethodDescriptorObj)) (MethodDescriptor_new cls name params)"
  "acquires k (\<lambda>_. one_if (k = ProcessObserverObj)) (ProcessObserver_register api)"
  by (auto simp: acquires_def TargetProcess_new_def MethodDescriptor_new_def ProcessObserver_register_def
      ProcessObserver_drop_def io_bind_def split: res.splits if_splits)

lemma releases_managers:
  "releases k (one_if (k = TargetProcessObj)) TargetProcess_drop"
  "releases k (one_if (k = MethodDescriptorObj)) MethodDescriptor_drop"
  "releases k (one_if (k = MethodFileOffsetsObj)) ExecutableMethodFileOffsets_drop"
  "releases k (one_if (k = ProcessObserverObj)) ProcessObserver_drop"
  by (auto simp: TargetProcess_drop_def MethodDescriptor_drop_def ExecutableMethodFileOffsets_drop_def
      ProcessObserver_drop_def intro!: releases_emit)

text \<open>The C interfaces fill in a pointer only when they succeed.\<close>

definition null_on_failure :: "('q \<Rightarrow> int \<times> 'a option) \<Rightarrow> bool" where
  "null_on_failure api \<longleftrightarrow> (\<forall>q. fst (api q) \<noteq> 0 \<longrightarrow> snd (api q) = None)"

fun offsets_owned :: "Status + MethodFileOffsets option \<Rightarrow> bool" where
  "offsets_owned (Inr (Some _)) = True"
| "offsets_owned _ = False"

lemma acquires_offsets:
  assumes "null_on_failure (\<lambda>(t, tp, md). api t tp md)"
  shows "acquires k (\<lambda>x. one_if (k = MethodFileOffsetsObj \<and> offsets_owned x))
    (ExecutableMethodFileOffsets_get api tp md)"
proof -
  have "api t tp md = (status, Some m) \<Longrightarrow> status = 0" for t status m
    using assms unfolding null_on_failure_def by (metis case_prod_conv fst_conv option.distinct(1) snd_conv)
  then show ?thesis
    by (auto simp: acquires_def ExecutableMethodFileOffsets_get_def created_def split: if_splits prod.splits)
qed

lemma held_running:
  assumes "null_on_failure api"
  shows "io_steps (same_alive k) (get_running_process_pid_uid api name)"
proof (rule heldI)
  fix h :: 'h and t r h' t' assume run: "get_running_process_pid_uid api name (h, t) = (r, (h', t'))"
  obtain status lst where a: "api t = (status, lst)" by (cases "api t")
  then have "status \<noteq> 0 \<Longrightarrow> lst = None" using assms unfolding null_on_failure_def by (metis fst_conv snd_conv)
  with run a show "alive k t' = alive k t"
    by (cases lst) (auto simp: get_running_process_pid_uid_def created_def finally_do_def split: if_splits)
qed

subsection \<open>The first running process with a name\<close>

definition running_name :: "RunningAppProcessInfo option \<Rightarrow> string option" where
  "running_name p = Option.bind p (\<lambda>info. map_option (\<lambda>n. from_utf8_lossy (takeWhile (\<lambda>c. c \<noteq> NUL) n))
     (ri_process_name info))"

lemma find_running_find:
  "find_running target infos =
     (case List.find (\<lambda>p. running_name p = Some target) infos of
        Some (Some info) \<Rightarrow> Ok (ri_pid info, ri_uid info)
      | _ \<Rightarrow> Err (Anyhow ''Process {} not found in running apps''))"
  by (induction infos) (auto simp: running_name_def split: option.split)

end
