(* ===== verification/Processes.thy ===== *)
theory Processes
  imports Managers Bpf_Map
begin

section \<open>Processes and offsets\<close>

text \<open>
  \<open>android/process.rs\<close> and \<open>android/offsets.rs\<close>: the two resolvers that the configuration resolver is
  given on a device. The process is looked up in \<open>/proc\<close> or in the list of running processes, or waited
  for, with a process observer or with a probe of the system server. The file system, the managers
  and the kernel are parameters. The loop that waits with a probe has fuel, one unit for each poll.
\<close>

subsection \<open>/proc\<close>

fun parse_digits :: "nat \<Rightarrow> string \<Rightarrow> nat option" where
  "parse_digits n [] = Some n"
| "parse_digits n (c # cs) =
     (if 48 \<le> byte_of c \<and> byte_of c \<le> (57 :: nat) then parse_digits (10 * n + (byte_of c - 48)) cs else None)"

text \<open>\<open>str::parse::<i32>\<close>: an optional sign and at least one digit, in the range of the type.\<close>

definition parse_i32 :: "string \<Rightarrow> i32 option" where
  "parse_i32 s =
     (let neg = (s \<noteq> [] \<and> hd s = CHR ''-'');
          digits = (if s \<noteq> [] \<and> hd s \<in> {CHR ''-'', CHR ''+''} then tl s else s) in
      if digits = [] then None
      else Option.bind (parse_digits 0 digits) (\<lambda>n.
        case try_into_signed (if neg then - int n else int n) of Ok w \<Rightarrow> Some w | _ \<Rightarrow> None))"

text \<open>An entry of \<open>/proc\<close> with the contents of its \<open>cmdline\<close>, if that can be read.\<close>

record proc_entry =
  entry_is_dir :: bool
  entry_cmdline :: "char list option"
  entry_file_name :: "char list"

text \<open>\<^const>\<open>None\<close> is a failed \<open>read_dir\<close>, and inside the list an entry that cannot be read.\<close>

type_synonym proc_api = "trace \<Rightarrow> proc_entry option list option"

fun find_pid :: "string \<Rightarrow> proc_entry option list \<Rightarrow> i32 option" where
  "find_pid process_name [] = None"
| "find_pid process_name (entry # entries) =
     (case entry of
        None \<Rightarrow> None
      | Some e \<Rightarrow>
          (let found = (case entry_cmdline e of
               Some bytes \<Rightarrow>
                 (let cmdline = from_utf8_lossy bytes in
                  if entry_is_dir e \<and> (cmdline = process_name \<or> prefix process_name cmdline)
                     \<and> valid_utf8 (entry_file_name e)
                  then parse_i32 (entry_file_name e) else None)
             | None \<Rightarrow> None) in
           case found of Some pid \<Rightarrow> Some pid | None \<Rightarrow> find_pid process_name entries))"

definition get_pid :: "proc_api \<Rightarrow> string \<Rightarrow> ('h st, i32 option) io" where
  "get_pid api process_name =
     io_bind (ext_call api (\<lambda>_. ReadProc)) (\<lambda>dir. ret (Option.bind dir (find_pid process_name)))"

subsection \<open>Waiting with an observer\<close>

record ProcessChange =
  pc_pid :: i32
  pc_uid :: i32
  pc_process_name :: "char list"

text \<open>What the resolvers use of the outside; \<open>p_events\<close> are the calls of the observer until a timeout.\<close>

record process_env =
  p_bpf :: bpf_env
  p_clock :: clock
  p_flags :: flags
  p_proc :: proc_api
  p_running :: running_api
  p_offsets :: offsets_api
  p_observer :: observer_api
  p_events :: "trace \<Rightarrow> duration \<Rightarrow> process_event list"
  p_ring :: "ProcessChange ring"

text \<open>The observer with its end of the channel.\<close>

record AppStartObserver =
  channel :: "ResolvedProcess list"
  observed_name :: "string option"

definition AppStartObserver_on_process_started ::
  "i32 \<Rightarrow> u32 \<Rightarrow> u32 \<Rightarrow> string \<Rightarrow> string \<Rightarrow> AppStartObserver \<Rightarrow> AppStartObserver" where
  "AppStartObserver_on_process_started pid process_uid package_uid package_name process_name self =
     (if (case observed_name self of Some target_name \<Rightarrow> target_name \<noteq> process_name | None \<Rightarrow> False)
      then self
      else self\<lparr>channel := channel self @ [\<lparr>rp_pid = pid, rp_uid = process_uid, rp_name = process_name\<rparr>]\<rparr>)"

definition AppStartObserver_callbacks :: "AppStartObserver ProcessObserverCallbacks" where
  "AppStartObserver_callbacks =
     default_callbacks\<lparr>on_process_started := AppStartObserver_on_process_started\<rparr>"

definition recv_timeout :: "ResolvedProcess list \<Rightarrow> ResolvedProcess res" where
  "recv_timeout queue =
     (case queue of [] \<Rightarrow> Err (Anyhow ''Timeout waiting for process start: {}'') | p # _ \<Rightarrow> Ok p)"

definition wait_for_app_start_observer ::
  "process_env \<Rightarrow> string option \<Rightarrow> duration \<Rightarrow> ('h st, ResolvedProcess) io" where
  "wait_for_app_start_observer env process_name dur =
     io_bind (ProcessObserver_register (p_observer env)) (\<lambda>_.
     finally_do
       (io_bind (ext_call (\<lambda>t. p_events env t dur) (\<lambda>_. ChannelRecv)) (\<lambda>events.
        lift_res (recv_timeout (channel (fold (deliver AppStartObserver_callbacks) events
          \<lparr>channel = [], observed_name = process_name\<rparr>)))))
       ProcessObserver_drop)"

subsection \<open>Waiting with a probe\<close>

definition CLASS_PROCESS_RECORD :: string where
  "CLASS_PROCESS_RECORD = ''com.android.server.am.ProcessRecord''"
definition METHOD_MAKE_ACTIVE_PARAMS :: "string list" where
  "METHOD_MAKE_ACTIVE_PARAMS =
     [''com.android.server.am.ApplicationThreadDeferred'', ''com.android.server.am.ProcessStatsService'']"
definition CLASS_PROCESS_PROFILE_RECORD :: string where
  "CLASS_PROCESS_PROFILE_RECORD = ''com.android.server.am.ProcessProfileRecord''"
definition METHOD_ON_PROCESS_ACTIVE_PARAMS :: "string list" where
  "METHOD_ON_PROCESS_ACTIVE_PARAMS =
     [''android.app.IApplicationThread'', ''com.android.server.am.ProcessStatsService'']"
definition BPF_MAP_PROCESS_MANAGEMENT :: string where
  "BPF_MAP_PROCESS_MANAGEMENT = ''map_ProcessManagement_process_change_output_buf''"
definition BPF_PROG_PROCESS_MANAGEMENT_MAKE_ACTIVE :: string where
  "BPF_PROG_PROCESS_MANAGEMENT_MAKE_ACTIVE = ''prog_ProcessManagement_uprobe_make_active''"
definition BPF_PROG_PROCESS_MANAGEMENT_ON_PROCESS_ACTIVE :: string where
  "BPF_PROG_PROCESS_MANAGEMENT_ON_PROCESS_ACTIVE = ''prog_ProcessManagement_uprobe_on_process_active''"

text \<open>Both temporaries are dropped at the end of the statement.\<close>

definition system_server_offsets ::
  "offsets_api \<Rightarrow> string \<Rightarrow> string \<Rightarrow> string list \<Rightarrow> ('h st, Status + MethodFileOffsets option) io" where
  "system_server_offsets api cls name params =
     io_bind TargetProcess_system_server (\<lambda>target.
     finally_do
       (io_bind (MethodDescriptor_new cls name params) (\<lambda>descriptor.
        finally_do (ExecutableMethodFileOffsets_get api target descriptor) MethodDescriptor_drop))
       TargetProcess_drop)"

definition get_ProcessRecord_makeActive_offsets :: "offsets_api \<Rightarrow> ('h st, MethodFileOffsets) io" where
  "get_ProcessRecord_makeActive_offsets api =
     io_bind (system_server_offsets api CLASS_PROCESS_RECORD ''makeActive'' METHOD_MAKE_ACTIVE_PARAMS)
     (\<lambda>offsets. case offsets of
        Inl status \<Rightarrow> fail (Anyhow ''Failed to get offsets for ProcessRecord#makeActive'')
      | Inr found \<Rightarrow> lift_res (ok_or found (Anyhow ''Could not find offsets for ProcessRecord#makeActive'')))"

definition get_onProcessActive_offsets :: "offsets_api \<Rightarrow> ('h st, MethodFileOffsets) io" where
  "get_onProcessActive_offsets api =
     io_bind (system_server_offsets api CLASS_PROCESS_PROFILE_RECORD ''onProcessActive''
                METHOD_ON_PROCESS_ACTIVE_PARAMS)
     (\<lambda>offsets. case offsets of
        Inl status \<Rightarrow> fail (Anyhow ''Failed to get offsets for ProcessProfileRecord#onProcessActive'')
      | Inr found \<Rightarrow>
          lift_res (ok_or found (Anyhow ''Could not find offsets for ProcessProfileRecord#onProcessActive'')))"

text \<open>The loop over the items of one poll: an error, the process to return, or no match.\<close>

fun find_change :: "string option \<Rightarrow> ProcessChange list \<Rightarrow> ResolvedProcess option res" where
  "find_change process_name [] = Ok None"
| "find_change process_name (process_change # changes) =
     res_bind (bytes_as_str (pc_process_name process_change)) (\<lambda>result_process_name.
       if process_name = None \<or> process_name = Some result_process_name then
         if sint (pc_pid process_change) \<le> 0 then find_change process_name changes
         else Ok (Some \<lparr>rp_pid = pc_pid process_change, rp_uid = pc_uid process_change,
                        rp_name = result_process_name\<rparr>)
       else find_change process_name changes)"

fun poll_app_start ::
  "nat \<Rightarrow> process_env \<Rightarrow> string option \<Rightarrow> Timer \<Rightarrow> ('h st, ResolvedProcess) io" where
  "poll_app_start 0 env process_name timer = lift_res NoFuel"
| "poll_app_start (Suc n) env process_name timer =
     io_bind (remaining_millis (p_clock env) timer) (\<lambda>remaining.
       case remaining of
         None \<Rightarrow> fail (Anyhow ''Timeout waiting duration {:?} for process_name {:?}'')
       | Some ms \<Rightarrow>
           io_bind (lift_res (try_into_signed (int ms))) (\<lambda>ms.
           io_bind (BpfRingBuffer_poll (p_ring env) (prefix_bpf BPF_MAP_PROCESS_MANAGEMENT) ms) (\<lambda>result.
           io_bind (lift_res (find_change process_name result)) (\<lambda>found.
             case found of Some p \<Rightarrow> ret p | None \<Rightarrow> poll_app_start n env process_name timer))))"

text \<open>The descriptor that \<open>bpf_perf_event_open\<close> returns is not bound, so it is dropped at once.\<close>

definition poll_with_probe ::
  "nat \<Rightarrow> process_env \<Rightarrow> string option \<Rightarrow> duration \<Rightarrow> i32 \<Rightarrow> MethodFileOffsets \<Rightarrow> string
     \<Rightarrow> ('h st, ResolvedProcess) io" where
  "poll_with_probe fuel env process_name dur system_server_pid offsets bpf_prog_name =
     io_bind (lift_res (try_into_signed (uint (mo_method_offset offsets)))) (\<lambda>offs.
     io_bind (bpf_perf_event_open (p_bpf env) (get_container_path offsets) offs system_server_pid
                (prefix_bpf bpf_prog_name)) (\<lambda>fd.
     io_then (OwnedFd_drop fd)
     (io_bind (Timer_new (p_clock env) dur) (\<lambda>timer.
      io_then (BpfRingBuffer_new (p_bpf env) (prefix_bpf BPF_MAP_PROCESS_MANAGEMENT))
      (finally_do (poll_app_start fuel env process_name timer) BpfRingBuffer_drop)))))"

definition app_start_offsets :: "offsets_api \<Rightarrow> ('h st, MethodFileOffsets \<times> string) io" where
  "app_start_offsets api =
     on_err (io_bind (get_ProcessRecord_makeActive_offsets api)
               (\<lambda>offsets. ret (offsets, BPF_PROG_PROCESS_MANAGEMENT_MAKE_ACTIVE)))
       (\<lambda>_. io_bind (get_onProcessActive_offsets api)
               (\<lambda>offsets. ret (offsets, BPF_PROG_PROCESS_MANAGEMENT_ON_PROCESS_ACTIVE)))"

definition wait_for_app_start_uprobe ::
  "nat \<Rightarrow> process_env \<Rightarrow> string option \<Rightarrow> duration \<Rightarrow> ('h st, ResolvedProcess) io" where
  "wait_for_app_start_uprobe fuel env process_name dur =
     io_bind (get_pid (p_proc env) ''system_server'') (\<lambda>pid.
     io_bind (lift_res (ok_or pid (Anyhow ''failed to get system server pid''))) (\<lambda>system_server_pid.
     io_bind (app_start_offsets (p_offsets env)) (\<lambda>(offsets, bpf_prog_name).
     finally_do (poll_with_probe fuel env process_name dur system_server_pid offsets bpf_prog_name)
       ExecutableMethodFileOffsets_drop)))"

definition wait_for_app_start ::
  "nat \<Rightarrow> process_env \<Rightarrow> string option \<Rightarrow> duration \<Rightarrow> ('h st, ResolvedProcess) io" where
  "wait_for_app_start fuel env process_name dur =
     (if use_process_observer_api (p_flags env) then wait_for_app_start_observer env process_name dur
      else wait_for_app_start_uprobe fuel env process_name dur)"

subsection \<open>The process resolver\<close>

definition AID_SYSTEM :: int where "AID_SYSTEM = 1000"

definition resolve_named :: "process_env \<Rightarrow> string option \<Rightarrow> ('h st, ResolvedProcess) io" where
  "resolve_named env target =
     io_bind (lift_res (ok_or target (Anyhow ''Process name is required for selection type {:?}'')))
     (\<lambda>process_name.
        if process_name = ''system_server'' then
          io_bind (get_pid (p_proc env) process_name) (\<lambda>pid.
          io_bind (lift_res (ok_or pid (Anyhow ''Can't find pid for {}''))) (\<lambda>pid.
          io_bind (lift_res (try_into_signed AID_SYSTEM)) (\<lambda>uid.
          ret \<lparr>rp_pid = pid, rp_uid = uid, rp_name = process_name\<rparr>)))
        else
          io_bind (get_running_process_pid_uid (p_running env) process_name) (\<lambda>(pid, uid).
          io_bind (lift_res (try_into_signed (uint uid))) (\<lambda>uid.
          ret \<lparr>rp_pid = pid, rp_uid = uid, rp_name = process_name\<rparr>)))"

definition resolve_process :: "nat \<Rightarrow> process_env \<Rightarrow> 'h process_resolver" where
  "resolve_process fuel env target selection dur =
     (case selection of
        SPECIFIC_APP_PROCESS_ON_START \<Rightarrow> wait_for_app_start fuel env target dur
      | ANY_APP_PROCESS_ON_START \<Rightarrow> wait_for_app_start fuel env None dur
      | SPECIFIC_PROCESS_NAME \<Rightarrow> resolve_named env target
      | TPS_UNKNOWN \<Rightarrow> resolve_named env target)"

subsection \<open>The offset resolver\<close>

definition MAX_RETRIES :: nat where "MAX_RETRIES = 5"

function retry_offsets ::
  "offsets_api \<Rightarrow> TargetProcess \<Rightarrow> MethodDescriptor \<Rightarrow> nat \<Rightarrow> duration \<Rightarrow> ('h st, MethodFileOffsets option) io"
where
  "retry_offsets api target descriptor retries backoff =
     io_bind (ExecutableMethodFileOffsets_get api target descriptor) (\<lambda>reply.
       case reply of
         Inr offsets \<Rightarrow> ret offsets
       | Inl status \<Rightarrow>
           if retries \<ge> MAX_RETRIES then fail (Anyhow ''Failed after {} retries, last error: {}'')
           else if exception_code status \<noteq> SERVICE_SPECIFIC then fail (Anyhow ''Unexpected status: {status}'')
           else if service_specific_error status \<noteq> ILLEGAL_STATE
             then fail (Anyhow ''Unexpected service specific error: {status}'')
           else io_then (emit (ThreadSleep backoff))
                  (retry_offsets api target descriptor (retries + 1) (backoff * 2)))"
  by pat_completeness auto
termination
  by (relation "measure (\<lambda>(_, _, _, retries, _). MAX_RETRIES - retries)") auto

declare retry_offsets.simps [simp del]

definition get_executable_method_file_offsets_with_retry ::
  "process_env \<Rightarrow> TargetProcess \<Rightarrow> MethodDescriptor \<Rightarrow> ('h st, MethodFileOffsets option) io" where
  "get_executable_method_file_offsets_with_retry env target descriptor =
     (if \<not> use_process_observer_api (p_flags env) then
        io_bind (ExecutableMethodFileOffsets_get (p_offsets env) target descriptor) (\<lambda>reply.
          case reply of
            Inl status \<Rightarrow> fail (Anyhow ''Failed to get executable method file offsets: {}'')
          | Inr offsets \<Rightarrow> ret offsets)
      else retry_offsets (p_offsets env) target descriptor 0 (10 * 1000000))"

definition to_method_descriptor :: "MethodDescriptor \<Rightarrow> ('h st, MethodDescriptor) io" where
  "to_method_descriptor d =
     MethodDescriptor_new (md_fully_qualified_class_name d) (md_method_name d)
       (md_fully_qualified_parameters d)"

definition to_target_process :: "ResolvedProcess \<Rightarrow> ('h st, TargetProcess) io" where
  "to_target_process p =
     io_bind (lift_res (try_into_unsigned (sint (rp_uid p)))) (\<lambda>uid. TargetProcess_new uid (rp_pid p) (rp_name p))"

definition to_config_resolver_offsets :: "MethodFileOffsets \<Rightarrow> ExecutableMethodFileOffsets" where
  "to_config_resolver_offsets offs =
     \<lparr>container_path = get_container_path offs, container_offset = mo_container_offset offs,
      method_offset = mo_method_offset offs\<rparr>"

definition drop_offsets :: "MethodFileOffsets option \<Rightarrow> ('h st, unit) io" where
  "drop_offsets found = (if found = None then ret () else ExecutableMethodFileOffsets_drop)"

definition resolve_offsets :: "process_env \<Rightarrow> 'h offset_resolver" where
  "resolve_offsets env process desc =
     io_bind (to_target_process process) (\<lambda>target.
     finally_do
       (io_bind (to_method_descriptor desc) (\<lambda>descriptor.
        finally_do
          (io_bind (get_executable_method_file_offsets_with_retry env target descriptor) (\<lambda>offsets.
           finally_do (ret (map_option to_config_resolver_offsets offsets)) (drop_offsets offsets)))
          MethodDescriptor_drop))
       TargetProcess_drop)"

subsection \<open>Waiting ends\<close>

lemma remaining_run:
  "remaining_millis clk tm (h, t) = (Ok r, (h', t')) \<Longrightarrow> h' = h \<and> t' = t @ [InstantNow]"
  by (auto simp: remaining_millis_def Let_def)

lemma returns_find_change [simp]: "returns (find_change process_name changes)"
proof (induction changes)
  case (Cons c changes)
  then show ?case using bytes_as_str_never_panics [of "pc_process_name c"] by auto
qed simp

lemma poll_app_start_returns:
  assumes "ticking (p_clock env)" and "expiry timer \<le> instant_now (p_clock env) t + n"
  shows "returns (fst (poll_app_start (Suc n) env process_name timer (h, t)))"
  using assms(2)
proof (induction n arbitrary: t)
  case 0
  then obtain s where "remaining_millis (p_clock env) timer (h, t) = (Ok None, s)"
    using remaining_millis_None_iff [of "p_clock env" timer h t] by auto
  then show ?case by (simp add: io_bind_run)
next
  case (Suc n)
  obtain r t1 where rem: "remaining_millis (p_clock env) timer (h, t) = (Ok r, (h, t1))" and
    t1: "t1 = t @ [InstantNow]"
    by (auto simp: remaining_millis_def Let_def)
  show ?case
  proof (cases r)
    case (Some ms)
    let ?poll = "BpfRingBuffer_poll (p_ring env) (prefix_bpf BPF_MAP_PROCESS_MANAGEMENT)"
    have "returns (fst (poll_app_start (Suc n) env process_name timer (h, t1 @ [RingPoll p w c])))" for p w c
    proof (rule Suc.IH)
      have "instant_now (p_clock env) t \<le> instant_now (p_clock env) t1"
        unfolding t1 using assms(1) by (simp add: ticking_def)
      also have "\<dots> < instant_now (p_clock env) (t1 @ [RingPoll p w c])"
        using assms(1) unfolding ticking_def by blast
      finally show "expiry timer \<le> instant_now (p_clock env) (t1 @ [RingPoll p w c]) + n"
        using Suc.prems by linarith
    qed
    then have more: "returns (fst (io_bind (lift_res (find_change process_name xs)) (\<lambda>found.
        case found of Some p \<Rightarrow> ret p | None \<Rightarrow> poll_app_start (Suc n) env process_name timer)
        (h, t1 @ [RingPoll p w c])))" for xs p w c
      by (intro returns_io_bind) (auto split: option.split simp del: poll_app_start.simps)
    then have "returns (fst (io_bind (BpfRingBuffer_poll (p_ring env) p w) (\<lambda>result.
        io_bind (lift_res (find_change process_name result)) (\<lambda>found.
          case found of Some p \<Rightarrow> ret p | None \<Rightarrow> poll_app_start (Suc n) env process_name timer)) (h, t1)))" for p w
      by (simp add: BpfRingBuffer_poll_def ensure_def io_bind_def [of "lift_res x" for x]
          del: poll_app_start.simps split: prod.split)
    then show ?thesis
      unfolding poll_app_start.simps(2) [of "Suc n"] using Some
      by (simp add: io_bind_def [of "remaining_millis c m" for c m] rem
          io_bind_def [of "lift_res (try_into_signed x)" for x] try_into_signed_def del: poll_app_start.simps)
  qed (simp add: io_bind_def rem)
qed

lemma io_returns_case_sum:
  "(\<And>x. io_returns (f x)) \<Longrightarrow> (\<And>y. io_returns (g y)) \<Longrightarrow> io_returns (case z of Inl x \<Rightarrow> f x | Inr y \<Rightarrow> g y)"
  by (simp split: sum.split)

lemma io_returns_case_option:
  "io_returns m \<Longrightarrow> (\<And>x. io_returns (f x)) \<Longrightarrow> io_returns (case z of None \<Rightarrow> m | Some x \<Rightarrow> f x)"
  by (simp split: option.split)

lemma io_returns_managers:
  "io_returns (TargetProcess_new uid pid name)" "io_returns (MethodDescriptor_new cls name params)"
  "io_returns (ExecutableMethodFileOffsets_get api tp md)" "io_returns (get_running_process_pid_uid ra name)"
  "io_returns (ProcessObserver_register oa)"
proof -
  have "returns (collect_res c_string params)" 
  proof (induction params)
    case (Cons p params)
    then show ?case by (cases "collect_res c_string params") (auto simp: c_string_def)
  qed simp
  then show "io_returns (MethodDescriptor_new cls name params)"
    by (auto simp: MethodDescriptor_new_def intro!: io_returns_intros)
  have "returns (find_running name infos)" for infos
    by (simp add: find_running_find split: option.split)
  then show "io_returns (get_running_process_pid_uid ra name)"
    by (auto simp: get_running_process_pid_uid_def created_def
        intro!: io_returns_intros io_returns_case_option split: prod.split)
qed (auto simp: TargetProcess_new_def ExecutableMethodFileOffsets_get_def created_def ProcessObserver_register_def
    ProcessObserver_drop_def io_returns_def io_bind_def c_string_def split: prod.split)

lemma io_returns_process:
  "io_returns (get_pid pa name)" "io_returns (app_start_offsets api)" "io_returns (resolve_named env target)"
  "io_returns (wait_for_app_start_observer env target dur)"
  by (auto simp: get_pid_def app_start_offsets_def get_ProcessRecord_makeActive_offsets_def
      get_onProcessActive_offsets_def system_server_offsets_def TargetProcess_system_server_def resolve_named_def
      wait_for_app_start_observer_def recv_timeout_def
      intro!: io_returns_intros io_returns_managers io_returns_case_sum split: prod.split list.split)

lemma io_returns_poll_with_probe:
  assumes "ticking (p_clock env)" and "(as_millis dur + 1) * 1000000 < fuel"
  shows "io_returns (poll_with_probe fuel env target dur pid offs prog)"
proof -
  let ?poll = "\<lambda>timer. io_then (BpfRingBuffer_new (p_bpf env) (prefix_bpf BPF_MAP_PROCESS_MANAGEMENT))
      (finally_do (poll_app_start fuel env target timer) BpfRingBuffer_drop)"
  from assms(2) obtain k where k: "fuel = Suc k" by (cases fuel) auto
  have "io_returns (io_bind (Timer_new (p_clock env) dur) ?poll)"
    unfolding io_returns_def
  proof
    fix s :: "'h st"
    obtain h t where s: "s = (h, t)" by (cases s)
    let ?tm = "\<lparr>timer_now = instant_now (p_clock env) t, timer_duration = dur\<rparr>"
    have "returns (fst (poll_app_start fuel env target ?tm (h, t @ InstantNow # u)))" for u
    proof -
      have "instant_now (p_clock env) t \<le> instant_now (p_clock env) (t @ InstantNow # u)"
        using assms(1) by (simp add: ticking_def)
      with assms(2) k have "expiry ?tm \<le> instant_now (p_clock env) (t @ InstantNow # u) + k"
        by (simp add: expiry_def)
      then show ?thesis unfolding k by (rule poll_app_start_returns [OF assms(1)])
    qed
    then have "returns (fst (finally_do (poll_app_start fuel env target ?tm) BpfRingBuffer_drop
        (h, t @ InstantNow # u)))" for u
      by (simp add: finally_do_def split_def)
    then show "returns (fst (io_bind (Timer_new (p_clock env) dur) ?poll s))"
      by (auto simp: s Timer_new_def BpfRingBuffer_new_def c_string_def ensure_def io_bind_def)
  qed
  note loop = this
  show ?thesis
    unfolding poll_with_probe_def
    by (intro io_returns_bind [OF io_returns_pure] io_returns_bind [OF io_returns_bpf(5)]
        io_returns_bind [OF io_returns_bpf(6)] loop) simp
qed

lemma io_returns_resolve_process:
  assumes "ticking (p_clock env)" and "(as_millis dur + 1) * 1000000 < fuel"
  shows "io_returns (resolve_process fuel env target sel dur)"
proof -
  have "io_returns (wait_for_app_start fuel env name dur)" for name
    by (auto simp: wait_for_app_start_def wait_for_app_start_uprobe_def
        intro!: io_returns_intros io_returns_process io_returns_poll_with_probe [OF assms] split: prod.split)
  then show ?thesis
    by (auto simp: resolve_process_def io_returns_process(3) split: TargetProcessSelection.split)
qed

text \<open>
  Resolving a process comes to an end and never panics, whatever the file system, the managers
  and the kernel reply: also while it waits for an application that never starts, if the clock advances
  and the fuel exceeds the nanoseconds of the task's duration, rounded up to the next millisecond.
\<close>

theorem resolve_process_returns:
  assumes "ticking (p_clock env)" and "(as_millis dur + 1) * 1000000 < fuel"
  shows "returns (fst (resolve_process fuel env target sel dur s))"
  using io_returns_resolve_process [OF assms] unfolding io_returns_def by blast

subsection \<open>Retries\<close>

fun offsets_status :: "effect \<Rightarrow> int option" where
  "offsets_status (GetMethodOffsets status) = Some status"
| "offsets_status _ = None"

fun slept :: "effect \<Rightarrow> duration option" where
  "slept (ThreadSleep d) = Some d"
| "slept _ = None"

lemma offsets_get_eq:
  assumes "api t target descriptor = (status, found)"
  shows "ExecutableMethodFileOffsets_get api target descriptor (h, t) =
    (Ok (if status = 0 then Inr found else Inl (new_service_specific_error status)),
     (h, t @ GetMethodOffsets status # (if found = None then [] else [ForeignCreate MethodFileOffsetsObj])))"
  using assms by (cases found) (simp_all add: ExecutableMethodFileOffsets_get_def created_def)

text \<open>One attempt: it succeeds, is repeated after a sleep, or is the last.\<close>

lemma retry_cases:
  assumes "retry_offsets api target descriptor retries backoff (h, t) = (r, (h', t'))"
  obtains (stop) status u where "t' = t @ GetMethodOffsets status # u" and "List.map_filter offsets_status u = []"
      and "List.map_filter slept u = []" and "if status = 0 then \<exists>found. r = Ok found else \<exists>e. r = Err e"
      and "status = ILLEGAL_STATE \<longrightarrow> MAX_RETRIES \<le> retries"
    | (again) u where "retries < MAX_RETRIES" and "List.map_filter offsets_status u = []"
      and "List.map_filter slept u = []"
      and "retry_offsets api target descriptor (retries + 1) (backoff * 2)
             (h, t @ GetMethodOffsets ILLEGAL_STATE # u @ [ThreadSleep backoff]) = (r, (h', t'))"
proof -
  obtain status found where a: "api t target descriptor = (status, found)"
    by (cases "api t target descriptor")
  define u where "u = (if found = None then [] else [ForeignCreate MethodFileOffsetsObj])"
  have u: "List.map_filter offsets_status u = []" "List.map_filter slept u = []"
    by (simp_all add: u_def List.map_filter_simps)
  note run = assms [unfolded retry_offsets.simps [of api target descriptor retries backoff] io_bind_def
      offsets_get_eq [of api t target descriptor, OF a] u_def [symmetric]]
  show thesis
  proof (cases "status = ILLEGAL_STATE \<and> retries < MAX_RETRIES")
    case True
    with run show thesis
      by (intro again [OF _ u]) (simp_all add: new_service_specific_error_def ILLEGAL_STATE_def)
  next
    case False
    with run show thesis
      by (intro stop [OF _ u]) (auto simp: new_service_specific_error_def split: if_splits)
  qed
qed

lemma retry_offsets_run:
  assumes "retry_offsets api target descriptor retries backoff (h, t) = (r, (h', t'))"
    and "retries \<le> MAX_RETRIES"
  shows "\<exists>n status u. t' = t @ u \<and> retries + n \<le> MAX_RETRIES
    \<and> List.map_filter offsets_status u = replicate n ILLEGAL_STATE @ [status]
    \<and> List.map_filter slept u = map (\<lambda>i. backoff * 2 ^ i) [0..<n]
    \<and> (if status = 0 then \<exists>found. r = Ok found else \<exists>e. r = Err e)
    \<and> (status = ILLEGAL_STATE \<longrightarrow> retries + n = MAX_RETRIES)"
  using assms
proof (induction "MAX_RETRIES - retries" arbitrary: retries backoff h t rule: less_induct)
  case less
  from less.prems(1) show ?case
  proof (cases rule: retry_cases)
    case (stop status u)
    with less.prems(2) show ?thesis
      by (intro exI [of _ 0] exI [of _ status] exI [of _ "GetMethodOffsets status # u"])
        (auto simp: List.map_filter_simps)
  next
    case (again u)
    then have "MAX_RETRIES - (retries + 1) < MAX_RETRIES - retries" "retries + 1 \<le> MAX_RETRIES" by arith+
    from less.hyps [OF this(1) again(4) this(2)] obtain n status v where
      v: "t' = (t @ GetMethodOffsets ILLEGAL_STATE # u @ [ThreadSleep backoff]) @ v" "retries + 1 + n \<le> MAX_RETRIES"
      "List.map_filter offsets_status v = replicate n ILLEGAL_STATE @ [status]"
      "List.map_filter slept v = map (\<lambda>i. backoff * 2 * 2 ^ i) [0..<n]"
      "if status = 0 then \<exists>found. r = Ok found else \<exists>e. r = Err e"
      "status = ILLEGAL_STATE \<longrightarrow> retries + 1 + n = MAX_RETRIES" by blast
    have "map (\<lambda>i. backoff * 2 ^ i) [0..<Suc n] = backoff # map (\<lambda>i. backoff * 2 * 2 ^ i) [0..<n]"
      by (simp add: map_upt_Suc mult.assoc del: upt_Suc)
    with v again(2,3) show ?thesis
      by (intro exI [of _ "Suc n"] exI [of _ status]
          exI [of _ "GetMethodOffsets ILLEGAL_STATE # u @ ThreadSleep backoff # v"])
        (simp add: List.map_filter_simps del: upt_Suc)
  qed
qed

text \<open>
  C36. Looking up the offsets of a method with the observer API. There are at most six attempts, the
  first five at most being answered by \<open>ILLEGAL_STATE\<close>; before the attempt after the \<open>i\<close>-th the thread
  sleeps \<open>10 * 2 ^ i\<close> milliseconds, 310 in all. The result is a success exactly when the last answer is,
  and the attempts are only given up after \<open>ILLEGAL_STATE\<close> when there were six.
\<close>

theorem offsets_retry_bounded:
  assumes "get_executable_method_file_offsets_with_retry env target descriptor (h, t) = (r, (h', t'))"
    and "use_process_observer_api (p_flags env)"
  shows "\<exists>n status u. t' = t @ u \<and> n \<le> 5
    \<and> List.map_filter offsets_status u = replicate n ILLEGAL_STATE @ [status]
    \<and> List.map_filter slept u = map (\<lambda>i. 10 * 1000000 * 2 ^ i) [0..<n]
    \<and> (if status = 0 then \<exists>found. r = Ok found else \<exists>e. r = Err e)
    \<and> (status = ILLEGAL_STATE \<longrightarrow> n = 5)"
  using retry_offsets_run [of "p_offsets env" target descriptor 0 "10 * 1000000" h t r h' t'] assms
  by (simp add: get_executable_method_file_offsets_with_retry_def MAX_RETRIES_def)

subsection \<open>Foreign objects\<close>

text \<open>A pointer is filled in only by a call that succeeds.\<close>

definition managers_ok :: "process_env \<Rightarrow> bool" where
  "managers_ok env \<longleftrightarrow> null_on_failure (\<lambda>(t, tp, md). p_offsets env t tp md) \<and> null_on_failure (p_running env)"

abbreviation owned_offsets :: "foreign \<Rightarrow> 'a \<Rightarrow> int" where
  "owned_offsets k \<equiv> \<lambda>_. one_if (k = MethodFileOffsetsObj)"

lemma acquires_system_server_offsets:
  assumes "null_on_failure (\<lambda>(t, tp, md). api t tp md)"
  shows "acquires k (\<lambda>x. one_if (k = MethodFileOffsetsObj \<and> offsets_owned x)) (system_server_offsets api cls name params)"
  unfolding system_server_offsets_def TargetProcess_system_server_def
  by (intro acquires_scope [OF acquires_managers(1)] acquires_scope [OF acquires_managers(2)]
      acquires_offsets [OF assms] releases_managers)

lemma acquires_app_start_offsets:
  assumes "null_on_failure (\<lambda>(t, tp, md). api t tp md)"
  shows "acquires k (owned_offsets k) (app_start_offsets api)"
proof -
  have pick: "acquires k (owned_offsets k) (io_bind (system_server_offsets api cls name params) (\<lambda>offsets.
      case offsets of Inl status \<Rightarrow> fail (e status) | Inr found \<Rightarrow> lift_res (ok_or found e')))" for cls name params e e'
  proof -
    have "acquires k (owned_offsets k) (io_bind (system_server_offsets api cls name params) (\<lambda>offsets.
        lift_res (case offsets of Inl status \<Rightarrow> Err (e status) | Inr found \<Rightarrow> ok_or found e')))"
      by (rule acquires_map [OF acquires_system_server_offsets [OF assms]])
        (auto split: sum.split option.split simp: ok_or_def elim!: offsets_owned.elims)
    then show ?thesis by (simp add: sum.case_distrib [of lift_res])
  qed
  have tag: "acquires k (owned_offsets k) m \<Longrightarrow> acquires k (owned_offsets k) (io_bind m (\<lambda>offsets. ret (offsets, prog)))"
    for m :: "('h st, MethodFileOffsets) io" and prog
    by (rule acquires_map) simp_all
  show ?thesis
    unfolding app_start_offsets_def get_ProcessRecord_makeActive_offsets_def get_onProcessActive_offsets_def
    by (intro acquires_on_err tag pick)
qed

lemma held_bpf:
  "io_steps (same_alive k) (bpf_perf_event_open benv p offs pid prog)" "io_steps (same_alive k) (OwnedFd_drop fd)"
  "io_steps (same_alive k) (Timer_new clk dur)" "io_steps (same_alive k) (BpfRingBuffer_new benv p)"
  "io_steps (same_alive k) BpfRingBuffer_drop" "io_steps (same_alive k) (BpfRingBuffer_poll ring p ms)"
  "io_steps (same_alive k) (remaining_millis clk tm)" "io_steps (same_alive k) (get_pid pa name)"
  by (auto simp: bpf_defs Timer_new_def remaining_millis_def get_pid_def Let_def intro!: held_intros split: prod.split)

lemma held_poll_app_start: "io_steps (same_alive k) (poll_app_start n env name tm)"
  by (induction n) (auto intro!: held_intros held_bpf)

lemma held_uprobe:
  assumes "null_on_failure (\<lambda>(t, tp, md). p_offsets env t tp md)"
  shows "io_steps (same_alive k) (wait_for_app_start_uprobe fuel env name dur :: ('h st, ResolvedProcess) io)"
proof -
  have "io_steps (same_alive k) (poll_with_probe fuel env name dur pid offs prog :: ('h st, ResolvedProcess) io)"
    for pid offs prog
    unfolding poll_with_probe_def by (intro held_intros held_bpf held_poll_app_start)
  then have scope: "io_steps (same_alive k) (io_bind (app_start_offsets (p_offsets env)) (\<lambda>x. finally_do
      (poll_with_probe fuel env name dur pid (fst x) (snd x)) ExecutableMethodFileOffsets_drop)
      :: ('h st, ResolvedProcess) io)" for pid
    unfolding held_acquires
    by (intro acquires_scope [OF acquires_app_start_offsets [OF assms]] releases_managers(3))
  show ?thesis
    unfolding wait_for_app_start_uprobe_def split_def
    by (intro held.steps_bind [OF held_bpf(8)] held.steps_bind [OF held.steps_pure] scope)
qed

lemma held_observer: "io_steps (same_alive k) (wait_for_app_start_observer env name dur)"
  unfolding wait_for_app_start_observer_def held_acquires
  by (intro acquires_scope [OF acquires_managers(3)] releases_managers(4))
    (unfold held_acquires [symmetric], intro held_intros, simp)

lemma held_resolve_process:
  assumes "managers_ok env"
  shows "io_steps (same_alive k) (resolve_process fuel env target sel dur)"
  using assms
  by (auto simp: resolve_process_def wait_for_app_start_def resolve_named_def managers_ok_def split_def
      intro!: held_intros held_uprobe held_observer held_running held_bpf split: TargetProcessSelection.split)

lemma acquires_retry:
  assumes "null_on_failure (\<lambda>(t, tp, md). api t tp md)"
  shows "acquires k (\<lambda>x. one_if (k = MethodFileOffsetsObj \<and> x \<noteq> None)) (retry_offsets api target descriptor retries backoff)"
  unfolding acquires_def
proof (intro allI impI)
  fix h t r h' t' assume "retry_offsets api target descriptor retries backoff (h, t) = (r, (h', t'))"
  then show "alive k t' = alive k t + (case r of Ok x \<Rightarrow> one_if (k = MethodFileOffsetsObj \<and> x \<noteq> None) | _ \<Rightarrow> 0)"
  proof (induction "MAX_RETRIES - retries" arbitrary: retries backoff h t rule: less_induct)
    case less
    obtain status found where a: "api t target descriptor = (status, found)"
      by (cases "api t target descriptor")
    have null: "status \<noteq> 0 \<Longrightarrow> found = None"
      using assms a unfolding null_on_failure_def by (metis case_prod_conv fst_conv snd_conv)
    note run = less.prems [unfolded retry_offsets.simps [of api target descriptor retries backoff] io_bind_def
        offsets_get_eq [of api t target descriptor, OF a]]
    show ?case
    proof (cases "status = ILLEGAL_STATE \<and> retries < MAX_RETRIES")
      case True
      then have lt: "MAX_RETRIES - (retries + 1) < MAX_RETRIES - retries" by arith
      from True null have n: "found = None" by (simp add: ILLEGAL_STATE_def)
      with run True have "retry_offsets api target descriptor (retries + 1) (backoff * 2)
          (h, t @ [GetMethodOffsets ILLEGAL_STATE, ThreadSleep backoff]) = (r, (h', t'))"
        by (simp add: new_service_specific_error_def ILLEGAL_STATE_def)
      from less.hyps [OF lt this] show ?thesis by simp
    next
      case False
      with run null show ?thesis by (auto simp: new_service_specific_error_def split: if_splits)
    qed
  qed
qed

lemma acquires_with_retry:
  assumes "null_on_failure (\<lambda>(t, tp, md). p_offsets env t tp md)"
  shows "acquires k (\<lambda>x. one_if (k = MethodFileOffsetsObj \<and> x \<noteq> None))
    (get_executable_method_file_offsets_with_retry env target descriptor :: ('h st, MethodFileOffsets option) io)"
proof -
  have "acquires k (\<lambda>x. one_if (k = MethodFileOffsetsObj \<and> x \<noteq> None))
      (io_bind (ExecutableMethodFileOffsets_get (p_offsets env) target descriptor) (\<lambda>reply.
        lift_res (case reply of Inl status \<Rightarrow> Err (e status) | Inr offsets \<Rightarrow> Ok offsets))
       :: ('h st, MethodFileOffsets option) io)" for e
    by (rule acquires_map [OF acquires_offsets [OF assms]])
      (auto split: sum.split elim!: offsets_owned.elims)
  then show ?thesis
    using acquires_retry [OF assms, of k target descriptor 0 "10 * 1000000", where 'a = 'h]
    by (simp add: get_executable_method_file_offsets_with_retry_def sum.case_distrib [of lift_res])
qed

lemma held_resolve_offsets:
  assumes "managers_ok env"
  shows "io_steps (same_alive k) (resolve_offsets env process desc)"
proof -
  have target: "acquires k (\<lambda>_. one_if (k = TargetProcessObj)) (to_target_process process)"
    unfolding to_target_process_def by (intro acquires_bind acquires_managers held_intros)
  have drop: "releases k (one_if (k = MethodFileOffsetsObj \<and> x \<noteq> None)) (drop_offsets x)" for x
    using releases_managers(3) [of k] by (auto simp: drop_offsets_def releases_ret)
  have pure: "acquires k (\<lambda>_. 0) (ret y)" for y
    unfolding held_acquires [symmetric] by (intro held_intros)
  show ?thesis
    using assms unfolding resolve_offsets_def held_acquires to_method_descriptor_def managers_ok_def
    by (intro acquires_scope [OF target] acquires_scope [OF acquires_managers(2)]
        acquires_scope [OF acquires_with_retry] releases_managers drop pure) simp
qed

text \<open>
  C23. Foreign objects. If the C interfaces fill in a pointer only when they succeed, then resolving a
  process or the offsets of a method leaves as many target processes, method descriptors, offsets, lists of
  running processes and process observers alive as there were before, whatever fails on the way.
\<close>

theorem resolvers_leak_nothing:
  assumes "managers_ok env"
  shows "alive k (snd (snd (resolve_process fuel env target sel dur (h, t)))) = alive k t
    \<and> alive k (snd (snd (resolve_offsets env process desc (h, t)))) = alive k t"
  using held_resolve_process [OF assms, of k fuel target sel dur] held_resolve_offsets [OF assms, of k process desc]
  unfolding io_steps_def same_alive_def by (metis snd_conv)

subsection \<open>The probe of the system server\<close>

lemma offsets_never:
  assumes "\<And>f. \<not> P (ForeignCreate f)" and "\<And>f. \<not> P (ForeignDestroy f)" and "\<And>c. \<not> P (GetMethodOffsets c)"
    and "\<not> P ReadProc"
  shows "io_steps (never_emits P) (app_start_offsets api)" and "io_steps (never_emits P) (get_pid pa name)"
proof -
  have "io_steps (never_emits P) (system_server_offsets api cls name params)" for cls name params
    by (auto simp: system_server_offsets_def TargetProcess_system_server_def TargetProcess_new_def
        MethodDescriptor_new_def ExecutableMethodFileOffsets_get_def created_def MethodDescriptor_drop_def
        TargetProcess_drop_def assms intro!: never_intros split: prod.split)
  then show "io_steps (never_emits P) (app_start_offsets api)"
    by (auto simp: app_start_offsets_def get_ProcessRecord_makeActive_offsets_def get_onProcessActive_offsets_def
        intro!: never_intros split: sum.split)
qed (auto simp: get_pid_def assms intro!: never_intros)

lemma poll_app_start_never:
  "io_steps (never_emits fd_effect) (poll_app_start n env name timer)" and
  poll_app_start_grows: "io_steps grows (poll_app_start n env name timer)"
  by (induction n)
    (auto simp: remaining_millis_def Let_def BpfRingBuffer_poll_def intro!: never_intros grows_intros split: prod.split)

lemma quiet_suffix:
  assumes "io_steps grows m" and "io_steps (never_emits P) m" and "m (h, t) = (r, (h', t'))"
  obtains w where "t' = t @ w" and "filter P w = []"
proof -
  from growsD [OF assms(1,3)] obtain w where w: "t' = t @ w" by (auto simp: prefix_def)
  with neverD [OF assms(2,3)] that show thesis by simp
qed

text \<open>Around the polls, one descriptor is opened, and it is closed before anything else happens.\<close>

lemma poll_with_probe_trace:
  assumes "poll_with_probe fuel env name dur pid offs prog (h, t) = (r, (h', t'))"
  obtains u where "t' = t @ u" and "filter is_poll u = []"
    | p o' q fd w where "t' = t @ PerfEventOpen p o' pid q fd # FdClose fd # w" and "fd \<ge> 0"
        and "filter fd_effect w = []"
proof -
  let ?rest = "io_bind (Timer_new (p_clock env) dur) (\<lambda>timer.
      io_then (BpfRingBuffer_new (p_bpf env) (prefix_bpf BPF_MAP_PROCESS_MANAGEMENT))
      (finally_do (poll_app_start fuel env name timer) BpfRingBuffer_drop)) :: ('a st, ResolvedProcess) io"
  have rest: "io_steps grows ?rest" "io_steps (never_emits fd_effect) ?rest"
    by (auto simp: Timer_new_def BpfRingBuffer_new_def BpfRingBuffer_drop_def
        intro!: never_intros grows_intros poll_app_start_never poll_app_start_grows)
  show thesis
  proof (cases "try_into_signed (uint (mo_method_offset offs)) :: i32 res")
    case (Ok o')
    let ?p = "get_container_path offs" and ?q = "prefix_bpf prog"
    define fd where "fd = perf_event_open (p_bpf env) t ?p o' pid ?q"
    show thesis
    proof (cases "NUL \<notin> set ?p \<and> NUL \<notin> set ?q \<and> fd \<ge> 0")
      case True
      with assms Ok have "?rest (h, t @ [PerfEventOpen ?p o' pid ?q fd, FdClose fd]) = (r, (h', t'))"
        by (simp add: poll_with_probe_def bpf_perf_event_open_def c_string_def OwnedFd_drop_def ensure_def fd_def)
      from quiet_suffix [OF rest this] obtain w where
        "t' = (t @ [PerfEventOpen ?p o' pid ?q fd, FdClose fd]) @ w" "filter fd_effect w = []" .
      then show thesis using that(2) [of ?p o' ?q fd w] True by simp
    next
      case False
      then have "t' = t \<or> t' = t @ [PerfEventOpen ?p o' pid ?q fd]"
        using assms Ok by (auto simp: poll_with_probe_def bpf_perf_event_open_def c_string_def ensure_def fd_def
            io_bind_def split: if_splits)
      then show thesis using that(1) [of "[]"] that(1) [of "[PerfEventOpen ?p o' pid ?q fd]"] by auto
    qed
  qed (use assms that(1) [of "[]"] in \<open>auto simp: poll_with_probe_def io_bind_def\<close>)
qed

lemma split_after: "u @ e # v = a @ w \<Longrightarrow> e \<notin> set a \<Longrightarrow> \<exists>y. u = a @ y \<and> w = y @ e # v"
proof (induction a arbitrary: u)
  case (Cons b a)
  then show ?case by (cases u) auto
qed simp

lemma grows_offsets:
  "io_steps grows (app_start_offsets api)" "io_steps grows (get_pid pa name)"
proof -
  have "io_steps grows (system_server_offsets api cls name params)" for cls name params
    by (auto simp: system_server_offsets_def TargetProcess_system_server_def TargetProcess_new_def
        MethodDescriptor_new_def ExecutableMethodFileOffsets_get_def created_def MethodDescriptor_drop_def
        TargetProcess_drop_def intro!: grows_intros split: prod.split)
  then show "io_steps grows (app_start_offsets api)"
    by (auto simp: app_start_offsets_def get_ProcessRecord_makeActive_offsets_def get_onProcessActive_offsets_def
        intro!: grows_intros split: sum.split)
qed (auto simp: get_pid_def intro!: grows_intros)

definition perf_or_poll :: "effect \<Rightarrow> bool" where
  "perf_or_poll e \<longleftrightarrow> fd_effect e \<or> is_poll e"

lemma wait_uprobe_trace:
  assumes "wait_for_app_start_uprobe fuel env name dur (h, t) = (r, (h', t'))"
  obtains u where "t' = t @ u" and "filter is_poll u = []"
    | u p o' pid q fd w where "t' = t @ u @ PerfEventOpen p o' pid q fd # FdClose fd # w" and "fd \<ge> 0"
        and "filter perf_or_poll u = []" and "filter fd_effect w = []"
proof -
  have q: "\<And>f. \<not> perf_or_poll (ForeignCreate f)" "\<And>f. \<not> perf_or_poll (ForeignDestroy f)"
    "\<And>c. \<not> perf_or_poll (GetMethodOffsets c)" "\<not> perf_or_poll ReadProc" by (simp_all add: perf_or_poll_def)
  define find where "find = (io_bind (get_pid (p_proc env) ''system_server'') (\<lambda>pid.
     io_bind (lift_res (ok_or pid (Anyhow ''failed to get system server pid''))) (\<lambda>pid.
     io_bind (app_start_offsets (p_offsets env)) (\<lambda>x. ret (pid, x)))) :: ('a st, i32 \<times> MethodFileOffsets \<times> string) io)"
  have find: "io_steps grows find" "io_steps (never_emits perf_or_poll) find"
    unfolding find_def by (auto intro!: grows_intros grows_offsets never_intros offsets_never q)
  have w: "wait_for_app_start_uprobe fuel env name dur = io_bind find (\<lambda>(pid, offs, prog).
      finally_do (poll_with_probe fuel env name dur pid offs prog) ExecutableMethodFileOffsets_drop)"
    by (simp add: wait_for_app_start_uprobe_def find_def split_def)
  obtain r0 h0 t0 where f: "find (h, t) = (r0, (h0, t0))" by (cases "find (h, t)") auto
  from quiet_suffix [OF find f] obtain u where u: "t0 = t @ u" "filter perf_or_poll u = []" .
  then have up: "filter is_poll u = []" by (auto simp: filter_empty_conv perf_or_poll_def)
  show thesis
  proof (cases r0)
    case (Ok x)
    obtain pid offs prog where x: "x = (pid, offs, prog)" by (cases x) auto
    obtain r1 h1 t1 where p: "poll_with_probe fuel env name dur pid offs prog (h0, t0) = (r1, (h1, t1))"
      by (cases "poll_with_probe fuel env name dur pid offs prog (h0, t0)") auto
    have t': "t' = t1 @ [ForeignDestroy MethodFileOffsetsObj]"
      using assms f Ok x p by (simp add: w io_bind_def finally_do_def ExecutableMethodFileOffsets_drop_def)
    from p show thesis
    proof (cases rule: poll_with_probe_trace)
      case (1 v)
      then show thesis using that(1) [of "u @ v @ [ForeignDestroy MethodFileOffsetsObj]"] u up t' by simp
    next
      case (2 p o' q fd v)
      then show thesis using that(2) [of u p o' pid q fd "v @ [ForeignDestroy MethodFileOffsetsObj]"] u t' by simp
    qed
  qed (use assms f u up that(1) [of u] in \<open>auto simp: w io_bind_def\<close>)
qed

text \<open>
  C37. The probe that waits for an application is gone before the first poll. The descriptor of the perf
  event is dropped in the statement that opens it, and closing it detaches the program: at every poll
  of the ring buffer, exactly one perf event has been opened since the wait began, and it is closed.
\<close>

theorem app_start_probe_closed:
  assumes "wait_for_app_start_uprobe fuel env name dur (h, t) = (r, (h', t'))"
    and "t' = t @ u @ RingPoll p ms c # v"
  shows "\<exists>fd. opened_fds u = [fd] \<and> closed_fds u = [fd]"
  using assms(1)
proof (cases rule: wait_uprobe_trace)
  case (1 w)
  with assms(2) show ?thesis by auto
next
  case (2 x p' o' pid q fd w)
  let ?fds = "[PerfEventOpen p' o' pid q fd, FdClose fd]"
  from 2(1) assms(2) have eq: "u @ RingPoll p ms c # v = (x @ ?fds) @ w" by simp
  have "RingPoll p ms c \<notin> set (x @ ?fds)" using 2(3) by (auto simp: filter_empty_conv perf_or_poll_def)
  from split_after [OF eq this] obtain y where u: "u = x @ ?fds @ y" and y: "w = y @ RingPoll p ms c # v" by auto
  have quiet: "filter fd_effect x = []" "filter fd_effect y = []"
    using 2(3,4) y by (auto simp: filter_empty_conv perf_or_poll_def)
  then have "opened_fds x = []" "opened_fds y = []" "closed_fds x = []" "closed_fds y = []"
    using fd_filter [of x] fd_filter [of y] by (simp_all add: List.map_filter_simps)
  with u 2(2) show ?thesis by (simp add: List.map_filter_simps opened_fd_def closed_fd_def)
qed

subsection \<open>What a resolved process is\<close>

text \<open>The pid that an entry of \<open>/proc\<close> stands for, if it is the directory of a process with the given name:
  its command line starts with the name.\<close>

definition proc_pid :: "string \<Rightarrow> proc_entry \<Rightarrow> i32 option" where
  "proc_pid name e =
     (if entry_is_dir e \<and> valid_utf8 (entry_file_name e)
         \<and> (case entry_cmdline e of Some bytes \<Rightarrow> prefix name (from_utf8_lossy bytes) | None \<Rightarrow> False)
      then parse_i32 (entry_file_name e) else None)"

text \<open>The process that a report is about, if its name is the one waited for, or no name is: an event of the
  observer, and an item of the ring buffer, which counts only with a positive pid.\<close>

definition start_event :: "string option \<Rightarrow> process_event \<Rightarrow> ResolvedProcess option" where
  "start_event wanted e =
     (case e of
        ProcessStarted pid uid _ _ bytes \<Rightarrow>
          let name = unwrap_or_default_str bytes in
          if wanted = None \<or> wanted = Some name
          then Some \<lparr>rp_pid = pid, rp_uid = uid, rp_name = name\<rparr> else None
      | _ \<Rightarrow> None)"

definition start_change :: "string option \<Rightarrow> ProcessChange \<Rightarrow> ResolvedProcess option" where
  "start_change wanted c =
     (case bytes_as_str (pc_process_name c) of
        Ok name \<Rightarrow>
          if (wanted = None \<or> wanted = Some name) \<and> 0 < sint (pc_pid c)
          then Some \<lparr>rp_pid = pc_pid c, rp_uid = pc_uid c, rp_name = name\<rparr> else None
      | _ \<Rightarrow> None)"

text \<open>The first such report, after the trace \<open>t\<close>: of the observer's events, or of the items of one poll.\<close>

definition first_start :: "process_env \<Rightarrow> string option \<Rightarrow> duration \<Rightarrow> trace \<Rightarrow> ResolvedProcess \<Rightarrow> bool" where
  "first_start env wanted dur t p \<longleftrightarrow>
     (if use_process_observer_api (p_flags env)
      then \<exists>t' rest. prefix t t' \<and> List.map_filter (start_event wanted) (p_events env t' dur) = p # rest
      else \<exists>t' ms r changes rest. prefix t t' \<and> p_ring env t' ms = (r, changes) \<and> 0 \<le> r
             \<and> List.map_filter (start_change wanted) changes = p # rest)"

lemma find_pid_Some:
  "find_pid name entries = Some pid \<Longrightarrow>
     \<exists>before e rest. entries = map Some before @ Some e # rest \<and> proc_pid name e = Some pid
       \<and> list_all (\<lambda>d. proc_pid name d = None) before"
proof (induction entries)
  case (Cons entry entries)
  then obtain e where e: "entry = Some e" by (cases entry) simp_all
  have "find_pid name (entry # entries) = (case proc_pid name e of Some pid \<Rightarrow> Some pid | None \<Rightarrow> find_pid name entries)"
    by (auto simp: e proc_pid_def Let_def split: option.split)
  with Cons.prems consider "proc_pid name e = Some pid"
    | "proc_pid name e = None" "find_pid name entries = Some pid" by (auto split: option.splits)
  then show ?case
  proof cases
    case 1
    then show ?thesis by (intro exI [of _ "[]"] exI [of _ e] exI [of _ entries]) (simp add: e)
  next
    case 2
    from Cons.IH [OF 2(2)] obtain before d rest where "entries = map Some before @ Some d # rest"
      "proc_pid name d = Some pid" "list_all (\<lambda>d. proc_pid name d = None) before" by blast
    with 2(1) show ?thesis by (intro exI [of _ "e # before"] exI [of _ d] exI [of _ rest]) (simp add: e)
  qed
qed simp

lemma find_change_Some:
  "find_change wanted changes = Ok (Some p) \<Longrightarrow> \<exists>rest. List.map_filter (start_change wanted) changes = p # rest"
  by (induction changes) (auto simp: start_change_def res_bind_Ok_iff List.map_filter_simps split: if_splits)

lemma channel_events:
  "channel (fold (deliver AppStartObserver_callbacks) events \<lparr>channel = [], observed_name = wanted\<rparr>)
     = List.map_filter (start_event wanted) events"
proof -
  have step: "deliver AppStartObserver_callbacks e self =
      self\<lparr>channel := channel self @ List.map_filter (start_event (observed_name self)) [e]\<rparr>" for e self
    by (cases e) (auto simp: AppStartObserver_callbacks_def default_callbacks_def start_event_def Let_def
        AppStartObserver_on_process_started_def on_process_started_trampoline_def List.map_filter_simps
        on_foreground_activities_changed_trampoline_def on_foreground_services_changed_trampoline_def
        on_process_died_trampoline_def split: option.splits)
  have "fold (deliver AppStartObserver_callbacks) events self =
      self\<lparr>channel := channel self @ List.map_filter (start_event (observed_name self)) events\<rparr>" for self
    by (induction events arbitrary: self) (simp_all add: step List.map_filter_simps split: option.split)
  then show ?thesis by simp
qed

lemma observer_Ok:
  assumes "wait_for_app_start_observer env wanted dur (h, t) = (Ok p, s')"
  shows "\<exists>t' rest. prefix t t' \<and> List.map_filter (start_event wanted) (p_events env t' dur) = p # rest"
proof -
  from assms obtain h1 t1 where reg: "ProcessObserver_register (p_observer env) (h, t) = (Ok (), (h1, t1))"
    and "recv_timeout (List.map_filter (start_event wanted) (p_events env t1 dur)) = Ok p"
    by (auto simp: wait_for_app_start_observer_def io_bind_Ok_iff finally_do_Ok_iff channel_events)
  then have "\<exists>rest. List.map_filter (start_event wanted) (p_events env t1 dur) = p # rest"
    by (auto simp: recv_timeout_def split: list.splits)
  moreover have "prefix t t1"
    using reg by (auto simp: ProcessObserver_register_def io_bind_Ok_iff split: if_splits)
  ultimately show ?thesis by blast
qed

lemma poll_app_start_Ok:
  "poll_app_start n env wanted timer (h, t) = (Ok p, s') \<Longrightarrow>
     \<exists>t' ms r changes rest. prefix t t' \<and> p_ring env t' ms = (r, changes) \<and> 0 \<le> r
       \<and> List.map_filter (start_change wanted) changes = p # rest"
proof (induction n arbitrary: h t)
  case (Suc n)
  from Suc.prems obtain x ms h1 t1 changes h2 t2 found where
    rem: "remaining_millis (p_clock env) timer (h, t) = (Ok (Some x), (h1, t1))"
    and poll: "BpfRingBuffer_poll (p_ring env) (prefix_bpf BPF_MAP_PROCESS_MANAGEMENT) ms (h1, t1) = (Ok changes, (h2, t2))"
    and found: "find_change wanted changes = Ok found"
    and rest: "(case found of Some p \<Rightarrow> ret p | None \<Rightarrow> poll_app_start n env wanted timer) (h2, t2) = (Ok p, s')"
    by (auto simp: io_bind_Ok_iff split: option.splits)
  have pre: "prefix t t1" "prefix t1 t2" using growsD [OF grows_clock(3) rem] growsD [OF grows_bpf(2) poll] .
  show ?case
  proof (cases found)
    case None
    with Suc.IH [of h2 t2] rest obtain t' ms r changes rest where "prefix t2 t'" "p_ring env t' ms = (r, changes)" "0 \<le> r"
      "List.map_filter (start_change wanted) changes = p # rest" by auto
    with pre show ?thesis by (meson prefix_order.order_trans)
  next
    case (Some q)
    moreover obtain r where "p_ring env t1 ms = (r, changes)" "0 \<le> r"
      using poll by (auto simp: BpfRingBuffer_poll_def io_bind_Ok_iff ensure_def split: if_splits prod.splits)
    ultimately show ?thesis using find_change_Some [of wanted changes q] found rest pre(1) by (auto, blast)
  qed
qed simp

lemma uprobe_Ok:
  assumes "wait_for_app_start_uprobe fuel env wanted dur (h, t) = (Ok p, s')"
  shows "\<exists>t' ms r changes rest. prefix t t' \<and> p_ring env t' ms = (r, changes) \<and> 0 \<le> r
       \<and> List.map_filter (start_change wanted) changes = p # rest"
proof -
  from assms obtain pid h1 t1 offs prog h2 t2 s3 where
    1: "get_pid (p_proc env) ''system_server'' (h, t) = (Ok (Some pid), (h1, t1))"
    and 2: "app_start_offsets (p_offsets env) (h1, t1) = (Ok (offs, prog), (h2, t2))"
    and 3: "poll_with_probe fuel env wanted dur pid offs prog (h2, t2) = (Ok p, s3)"
    by (auto simp: wait_for_app_start_uprobe_def io_bind_Ok_iff finally_do_Ok_iff ok_or_def split: option.splits)
  from 3 obtain offset fd h3 t3 u h4 t4 timer h5 t5 v h6 t6 s7 where
    4: "bpf_perf_event_open (p_bpf env) (get_container_path offs) offset pid (prefix_bpf prog) (h2, t2) = (Ok fd, (h3, t3))"
    and 5: "OwnedFd_drop fd (h3, t3) = (Ok u, (h4, t4))"
    and 6: "Timer_new (p_clock env) dur (h4, t4) = (Ok timer, (h5, t5))"
    and 7: "BpfRingBuffer_new (p_bpf env) (prefix_bpf BPF_MAP_PROCESS_MANAGEMENT) (h5, t5) = (Ok v, (h6, t6))"
    and 8: "poll_app_start fuel env wanted timer (h6, t6) = (Ok p, s7)"
    by (auto simp: poll_with_probe_def io_bind_Ok_iff finally_do_Ok_iff)
  have "prefix t t6"
    using growsD [OF grows_offsets(2) 1] growsD [OF grows_offsets(1) 2] growsD [OF grows_bpf(5) 4]
      growsD [OF grows_bpf(6) 5] growsD [OF grows_clock(2) 6] growsD [OF grows_bpf(1) 7]
    by (meson prefix_order.order_trans)
  with poll_app_start_Ok [OF 8] show ?thesis by (meson prefix_order.order_trans)
qed

lemma wait_Ok:
  assumes "wait_for_app_start fuel env wanted dur (h, t) = (Ok p, s')"
  shows "first_start env wanted dur t p"
proof (cases "use_process_observer_api (p_flags env)")
  case True
  with observer_Ok [of env wanted dur h t p s'] assms show ?thesis
    by (simp add: wait_for_app_start_def first_start_def)
next
  case False
  with uprobe_Ok [of fuel env wanted dur h t p s'] assms show ?thesis
    by (simp add: wait_for_app_start_def first_start_def)
qed

lemma resolve_named_Ok:
  assumes "resolve_named env target (h, t) = (Ok p, s')"
  shows "target = Some (rp_name p)"
    and "rp_name p = ''system_server'' \<Longrightarrow> sint (rp_uid p) = 1000 \<and>
      (\<exists>before e rest. p_proc env t = Some (map Some before @ Some e # rest)
         \<and> proc_pid (rp_name p) e = Some (rp_pid p) \<and> list_all (\<lambda>d. proc_pid (rp_name p) d = None) before)"
    and "rp_name p \<noteq> ''system_server'' \<Longrightarrow>
      \<exists>infos info. p_running env t = (0, Some infos)
         \<and> List.find (\<lambda>i. running_name i = Some (rp_name p)) infos = Some (Some info)
         \<and> rp_pid p = ri_pid info \<and> sint (rp_uid p) = uint (ri_uid info)"
proof -
  from assms obtain name where name: "target = Some name" and p: "rp_name p = name"
    by (cases target) (auto simp: resolve_named_def io_bind_Ok_iff split: if_splits)
  then show "target = Some (rp_name p)" by simp
  show "sint (rp_uid p) = 1000 \<and> (\<exists>before e rest. p_proc env t = Some (map Some before @ Some e # rest)
      \<and> proc_pid (rp_name p) e = Some (rp_pid p) \<and> list_all (\<lambda>d. proc_pid (rp_name p) d = None) before)"
    if sys: "rp_name p = ''system_server''"
  proof -
    from assms sys name p obtain entries where "p_proc env t = Some entries" "find_pid name entries = Some (rp_pid p)"
      and "sint (rp_uid p) = 1000"
      by (auto simp: resolve_named_def get_pid_def io_bind_Ok_iff try_into_signed_Ok_iff AID_SYSTEM_def
          ok_or_def bind_eq_Some_conv split: option.splits)
    with find_pid_Some [of name entries "rp_pid p"] p show ?thesis by auto
  qed
  show "\<exists>infos info. p_running env t = (0, Some infos)
      \<and> List.find (\<lambda>i. running_name i = Some (rp_name p)) infos = Some (Some info)
      \<and> rp_pid p = ri_pid info \<and> sint (rp_uid p) = uint (ri_uid info)"
    if "rp_name p \<noteq> ''system_server''"
  proof -
    from assms that name p obtain infos pid uid uid' where "p_running env t = (0, Some infos)"
      and "find_running name infos = Ok (pid, uid)" and "sint uid' = uint uid"
      and "p = \<lparr>rp_pid = pid, rp_uid = uid', rp_name = name\<rparr>"
      by (auto simp: resolve_named_def get_running_process_pid_uid_def io_bind_Ok_iff try_into_signed_Ok_iff
          finally_do_Ok_iff created_def split: if_splits option.splits prod.splits)
    then show ?thesis by (auto simp: find_running_find split: option.splits)
  qed
qed

text \<open>
  C22. The resolved process is the one that was asked for. A selection by name (also the unspecified
  one) needs a name and returns a process under it. For \<open>system_server\<close> the pid is the directory name of the
  first entry of the \<open>/proc\<close> listing whose command line starts with that name, with no unreadable entry before
  it, and the uid that of the system; for any other name, pid and uid are those of the first running
  process of the activity manager's list with exactly that name. A selection on start returns pid, uid
  and name of the first report that matches, made after the resolution began: with the
  observer API, the first of the observer's start events; with the probe, the first item with a positive
  pid of one poll of the ring buffer. A report matches if it has the requested name; for any application, and
  also for a specific one when the configuration gives no name, every report does.
\<close>

theorem resolve_process_matches:
  assumes "resolve_process fuel env target sel dur (h, t) = (Ok p, s')"
  shows "case sel of
      ANY_APP_PROCESS_ON_START \<Rightarrow> first_start env None dur t p
    | SPECIFIC_APP_PROCESS_ON_START \<Rightarrow> first_start env target dur t p
    | _ \<Rightarrow> target = Some (rp_name p)
        \<and> (if rp_name p = ''system_server''
           then sint (rp_uid p) = 1000
             \<and> (\<exists>before e rest. p_proc env t = Some (map Some before @ Some e # rest)
                  \<and> proc_pid (rp_name p) e = Some (rp_pid p)
                  \<and> list_all (\<lambda>d. proc_pid (rp_name p) d = None) before)
           else \<exists>infos info. p_running env t = (0, Some infos)
             \<and> List.find (\<lambda>i. running_name i = Some (rp_name p)) infos = Some (Some info)
             \<and> rp_pid p = ri_pid info \<and> sint (rp_uid p) = uint (ri_uid info))"
proof (cases sel)
  case SPECIFIC_PROCESS_NAME
  with assms have "resolve_named env target (h, t) = (Ok p, s')" by (simp add: resolve_process_def)
  from resolve_named_Ok [OF this] SPECIFIC_PROCESS_NAME show ?thesis by simp
next
  case TPS_UNKNOWN
  with assms have "resolve_named env target (h, t) = (Ok p, s')" by (simp add: resolve_process_def)
  from resolve_named_Ok [OF this] TPS_UNKNOWN show ?thesis by simp
qed (use assms wait_Ok [of fuel env _ dur h t p s'] in \<open>simp_all add: resolve_process_def\<close>)

subsection \<open>A concrete device\<close>

definition example_app :: ProcessChange where
  "example_app = \<lparr>pc_pid = 77, pc_uid = 10001, pc_process_name = ''com.app'' @ [NUL, NUL]\<rparr>"

definition example_file_offsets :: MethodFileOffsets where
  "example_file_offsets = \<lparr>mo_container_path = ''/a.oat'', mo_container_offset = 64, mo_method_offset = 16\<rparr>"

definition example_proc :: "proc_entry option list" where
  "example_proc =
     [Some \<lparr>entry_is_dir = True, entry_cmdline = Some ''init'', entry_file_name = ''1''\<rparr>,
      Some \<lparr>entry_is_dir = True, entry_cmdline = Some ''system_server'', entry_file_name = ''1234''\<rparr>]"

text \<open>A device with a system server and one application, with or without the observer API; with it, the
  offsets are found after one sleep.\<close>

definition example_process_env :: "bool \<Rightarrow> process_env" where
  "example_process_env observer =
     \<lparr>p_bpf = example_kernel [],
      p_clock = \<lparr>instant_now = length, system_time_now = \<lambda>_. 0, rng_gen = \<lambda>_. 0\<rparr>,
      p_flags = example_flags\<lparr>use_process_observer_api := observer\<rparr>,
      p_proc = \<lambda>_. Some example_proc,
      p_running = \<lambda>_. (0, Some [None, Some \<lparr>ri_process_name = Some ''com.app'', ri_pid = 77, ri_uid = 10001\<rparr>]),
      p_offsets = \<lambda>t _ _. if observer \<and> \<not> list_ex (\<lambda>e. slept e \<noteq> None) t then (ILLEGAL_STATE, None)
        else (0, Some example_file_offsets),
      p_observer = \<lparr>create_process_observer = \<lambda>_. True, register_process_observer = \<lambda>_. 0\<rparr>,
      p_events = \<lambda>_ _. [],
      p_ring = \<lambda>_ _. (1, [example_app])\<rparr>"

lemma example_process_env_ok:
  "managers_ok (example_process_env observer)" "ticking (p_clock (example_process_env observer))"
  by (simp_all add: managers_ok_def null_on_failure_def example_process_env_def ticking_def)

theorem resolve_process_returns_witness:
  "returns (fst (resolve_process 1000001 (example_process_env False) None ANY_APP_PROCESS_ON_START 0 ((), [])))"
  by (rule resolve_process_returns [OF example_process_env_ok(2)]) (simp add: as_millis_def)

theorem resolvers_leak_nothing_witness:
  "alive RunningProcessListObj (snd (snd (resolve_process 3 (example_process_env False) (Some ''com.app'')
      SPECIFIC_PROCESS_NAME 0 ((), [])))) = 0
   \<and> alive MethodFileOffsetsObj (snd (snd (resolve_offsets (example_process_env False) example_process
      \<lparr>md_fully_qualified_class_name = [], md_method_name = [], md_fully_qualified_parameters = []\<rparr> ((), [])))) = 0"
proof -
  note leak = resolvers_leak_nothing [OF example_process_env_ok(1)]
  show ?thesis
    using leak [where k = RunningProcessListObj and t = "[]" and h = "()"]
      leak [where k = MethodFileOffsetsObj and t = "[]" and h = "()"] by (metis alive_Nil)
qed

lemma example_named: "resolve_named (example_process_env False) (Some ''com.app'') ((), []) =
   (Ok \<lparr>rp_pid = 77, rp_uid = 10001, rp_name = ''com.app''\<rparr>,
    ((), [GetRunningProcesses 0, ForeignCreate RunningProcessListObj, ForeignDestroy RunningProcessListObj]))"
  by code_simp

theorem resolve_process_matches_witness:
  "\<exists>p s'. resolve_process 0 (example_process_env False) (Some ''com.app'') SPECIFIC_PROCESS_NAME 0 ((), []) = (Ok p, s')
     \<and> rp_name p = ''com.app'' \<and> rp_pid p = 77 \<and> sint (rp_uid p) = 10001"
proof -
  obtain p s' where run: "resolve_process 0 (example_process_env False) (Some ''com.app'') SPECIFIC_PROCESS_NAME 0
      ((), []) = (Ok p, s')"
    by (simp add: resolve_process_def example_named)
  from resolve_process_matches [OF this] run show ?thesis
    by (cases s') (auto simp: example_process_env_def running_name_def split: if_splits)
qed

theorem offsets_retry_bounded_witness:
  "\<exists>r h' t' n status. get_executable_method_file_offsets_with_retry (example_process_env True)
       \<lparr>tp_uid = 0, tp_pid = 0, tp_process_name = []\<rparr>
       \<lparr>md_fully_qualified_class_name = [], md_method_name = [], md_fully_qualified_parameters = []\<rparr> ((), [])
       = (r, (h', t'))
     \<and> n \<le> 5 \<and> List.map_filter offsets_status t' = replicate n ILLEGAL_STATE @ [status]
     \<and> List.map_filter slept t' = map (\<lambda>i. 10 * 1000000 * 2 ^ i) [0..<n]"
proof -
  obtain r h' t' where run: "get_executable_method_file_offsets_with_retry (example_process_env True)
       \<lparr>tp_uid = 0, tp_pid = 0, tp_process_name = []\<rparr>
       \<lparr>md_fully_qualified_class_name = [], md_method_name = [], md_fully_qualified_parameters = []\<rparr> ((), [])
       = (r, (h', t'))" by (metis prod.collapse)
  have "use_process_observer_api (p_flags (example_process_env True))" by (simp add: example_process_env_def)
  from offsets_retry_bounded [OF run this] run show ?thesis by auto
qed

lemma example_pid: "find_pid ''system_server'' example_proc = Some 1234"
  by code_simp

lemma example_change: "find_change None [example_app] = Ok (Some \<lparr>rp_pid = 77, rp_uid = 10001, rp_name = ''com.app''\<rparr>)"
  by code_simp

lemma example_container: "get_container_path example_file_offsets = ''/a.oat''"
  by code_simp

lemma example_wait:
  "\<exists>r h' u v. wait_for_app_start_uprobe 2 (example_process_env False) None 0 ((), []) = (r, (h', u @ RingPoll
     (prefix_bpf BPF_MAP_PROCESS_MANAGEMENT) 0 1 # v))"
proof -
  let ?env = "example_process_env False"
  have env: "p_offsets ?env = (\<lambda>_ _ _. (0, Some example_file_offsets))" "p_proc ?env = (\<lambda>_. Some example_proc)"
    "p_bpf ?env = example_kernel []" "instant_now (p_clock ?env) = length" "p_ring ?env = (\<lambda>_ _. (1, [example_app]))"
    by (simp_all add: example_process_env_def fun_eq_iff)
  have pid: "get_pid (p_proc ?env) ''system_server'' ((), t) = (Ok (Some 1234), ((), t @ [ReadProc]))" for t
    by (simp add: get_pid_def env example_pid)
  have offs: "\<exists>u. app_start_offsets (p_offsets ?env) ((), t) = (Ok (example_file_offsets, BPF_PROG_PROCESS_MANAGEMENT_MAKE_ACTIVE),
      ((), t @ u))" for t
    by (simp add: app_start_offsets_def get_ProcessRecord_makeActive_offsets_def system_server_offsets_def
        TargetProcess_system_server_def TargetProcess_new_def MethodDescriptor_new_def c_string_def
        CLASS_PROCESS_RECORD_def METHOD_MAKE_ACTIVE_PARAMS_def on_err_def io_bind_def finally_do_def
        ExecutableMethodFileOffsets_get_def created_def env TargetProcess_drop_def MethodDescriptor_drop_def)
  obtain u where u: "app_start_offsets (p_offsets ?env) ((), [ReadProc]) =
      (Ok (example_file_offsets, BPF_PROG_PROCESS_MANAGEMENT_MAKE_ACTIVE), ((), ReadProc # u))" using offs [of "[ReadProc]"] by auto
  have conv: "try_into_signed (uint (mo_method_offset example_file_offsets)) = Ok (16 :: i32)"
    "try_into_signed 0 = Ok (0 :: i32)"
    by (simp_all add: try_into_signed_def example_file_offsets_def)
  have names: "c_string (prefix_bpf BPF_PROG_PROCESS_MANAGEMENT_MAKE_ACTIVE) = Ok (prefix_bpf BPF_PROG_PROCESS_MANAGEMENT_MAKE_ACTIVE)"
    "c_string (prefix_bpf BPF_MAP_PROCESS_MANAGEMENT) = Ok (prefix_bpf BPF_MAP_PROCESS_MANAGEMENT)"
    by (simp_all add: c_string_def prefix_bpf_def BPF_DIR_def BPF_PROG_PROCESS_MANAGEMENT_MAKE_ACTIVE_def
        BPF_MAP_PROCESS_MANAGEMENT_def)
  have rem: "remaining_millis (p_clock ?env) \<lparr>timer_now = n, timer_duration = 0\<rparr> ((), t) = (Ok (Some 0), ((), t @ [InstantNow]))"
    if "length t < n + 1000" for n t
    using that by (simp add: remaining_millis_def env as_millis_def)
  let ?path = "prefix_bpf BPF_MAP_PROCESS_MANAGEMENT"
  have loop: "poll_app_start 2 ?env None \<lparr>timer_now = n, timer_duration = 0\<rparr> ((), t) =
      (Ok \<lparr>rp_pid = 77, rp_uid = 10001, rp_name = ''com.app''\<rparr>, ((), t @ [InstantNow, RingPoll ?path 0 1]))"
    if "length t < n + 1000" for n t
    using that unfolding numeral_2_eq_2 poll_app_start.simps(2) [of "Suc 0"]
    by (simp add: io_bind_def rem conv BpfRingBuffer_poll_def env example_change
        del: find_change.simps poll_app_start.simps)
  let ?t = "ReadProc # u @ [PerfEventOpen ''/a.oat'' 16 1234 (prefix_bpf BPF_PROG_PROCESS_MANAGEMENT_MAKE_ACTIVE) 3,
      FdClose 3]"
  have "poll_with_probe 2 ?env None 0 1234 example_file_offsets BPF_PROG_PROCESS_MANAGEMENT_MAKE_ACTIVE
      ((), ReadProc # u) = (Ok \<lparr>rp_pid = 77, rp_uid = 10001, rp_name = ''com.app''\<rparr>,
        ((), ?t @ [InstantNow, RingCreate ?path True, InstantNow, RingPoll ?path 0 1, RingDestroy]))"
  proof -
    have "c_string ''/a.oat'' = Ok ''/a.oat''" by (simp add: c_string_def)
    then show ?thesis
      by (simp add: poll_with_probe_def conv bpf_perf_event_open_def example_container names env example_kernel_def
          OwnedFd_drop_def Timer_new_def BpfRingBuffer_new_def BpfRingBuffer_drop_def finally_do_def loop)
  qed
  then show ?thesis
    by (simp add: wait_for_app_start_uprobe_def pid io_bind_def u finally_do_def ExecutableMethodFileOffsets_drop_def)
      (metis append.assoc append_Cons append_Nil)
qed

theorem app_start_probe_closed_witness:
  "\<exists>r h' u p ms c v fd. wait_for_app_start_uprobe 2 (example_process_env False) None 0 ((), []) =
       (r, (h', u @ RingPoll p ms c # v))
     \<and> opened_fds u = [fd] \<and> closed_fds u = [fd]"
proof -
  obtain r h' u v where run: "wait_for_app_start_uprobe 2 (example_process_env False) None 0 ((), []) =
      (r, (h', u @ RingPoll (prefix_bpf BPF_MAP_PROCESS_MANAGEMENT) 0 1 # v))"
    using example_wait by blast
  from app_start_probe_closed [OF this, of u] run show ?thesis by (metis append_Nil)
qed

end
