(* ===== verification/Bpf_Programs.thy ===== *)
theory Bpf_Programs
  imports Bpf_Helpers Task_Runner Processes
begin

section \<open>The BPF programs\<close>

text \<open>
  \<open>bpf_progs/*.c\<close>, which run in the kernel when a probed method is entered. A program takes the
  helpers, the registers and the slot that \<open>..._reserve\<close> returned (\<^const>\<open>None\<close> when the ring buffer is
  full; the kernel does not clear a reserved slot, so its content is arbitrary), and gives its return
  code with the record it submitted. Every store through \<open>output\<close> is a field update of the slot;
  fields that a program does not store keep whatever the slot held. A \<open>goto out\<close> on a negative
  return code is \<open>then_unless_error\<close>.
\<close>

type_synonym 'r submitted = "int \<times> 'r option"

definition then_unless_error :: "int \<times> 'o \<Rightarrow> ('o \<Rightarrow> int \<times> 'o) \<Rightarrow> int \<times> 'o" where
  "then_unless_error r f = (if fst r < 0 then r else f (snd r))"

text \<open>Copying a string into a field of the record, and following a reference first.\<close>

definition record_field ::
  "bpf_kernel \<Rightarrow> u64 \<Rightarrow> u32 \<Rightarrow> ('o \<Rightarrow> char list) \<Rightarrow> ((char list \<Rightarrow> char list) \<Rightarrow> 'o \<Rightarrow> 'o) \<Rightarrow> 'o \<Rightarrow> int \<times> 'o" where
  "record_field k p max_length get put o0 =
     (case recordString k p max_length (get o0) of (rc, s) \<Rightarrow> (rc, put (\<lambda>_. s) o0))"

definition via_ref :: "bpf_kernel \<Rightarrow> u64 \<Rightarrow> (u64 \<Rightarrow> 'o \<Rightarrow> int \<times> 'o) \<Rightarrow> 'o \<Rightarrow> int \<times> 'o" where
  "via_ref k addr f o0 =
     (case read_ref k addr of (rc, p) \<Rightarrow> if rc < 0 then (rc, o0) else f p o0)"

subsection \<open>Binder\<close>

definition kBinderDescriptorOffset :: u64 where "kBinderDescriptorOffset = 8"

text \<open>The loop over the codes: whether it reaches the submission.\<close>

fun codes_loop :: "c_ulong list \<Rightarrow> c_ulong \<Rightarrow> bool" where
  "codes_loop [] code = False"
| "codes_loop (c # codes) code =
     (if c = 0 then False else if c \<noteq> code then codes_loop codes code else True)"

definition exec_transact_internal ::
  "bpf_kernel \<Rightarrow> (CKey \<rightharpoonup> CValue) \<Rightarrow> pt_regs \<Rightarrow> BinderTransaction option \<Rightarrow> BinderTransaction submitted" where
  "exec_transact_internal k interfaces ctx slot =
     (let this_binder_ptr = r_regs ctx 1;
          descriptor_ptr = snd (read_ref k (this_binder_ptr + kBinderDescriptorOffset));
          key = snd (recordString k descriptor_ptr MAX_STRING_LENGTH (replicate 128 NUL)) in
      case interfaces key of
        None \<Rightarrow> (0, None)
      | Some codes \<Rightarrow>
          if codes_loop (take 10 codes) (r_regs ctx 2) then
            (case slot of
               None \<Rightarrow> (1, None)
             | Some output \<Rightarrow>
                 (0, Some (output\<lparr>interface_descriptor := key, bt_calling_uid := ucast (r_regs ctx 6),
                             bt_code := r_regs ctx 2, bt_timestamp_ns := ktime_get_ns k\<rparr>)))
          else (0, None))"

subsection \<open>Accessibility\<close>

definition grant_runtime_permission ::
  "bpf_kernel \<Rightarrow> pt_regs \<Rightarrow> AccessibilityEvent option \<Rightarrow> AccessibilityEvent submitted" where
  "grant_runtime_permission k ctx slot =
     (case slot of
        None \<Rightarrow> (1, None)
      | Some output \<Rightarrow>
          (case then_unless_error
             (case recordStringArg k ctx MAX_STRING_LENGTH 0 (ae_package_name output) of (rc, s) \<Rightarrow>
                (rc, output\<lparr>ae_error_code := 0, ae_variant := 1, ae_timestamp_ns := ktime_get_ns k,
                       ae_package_name := s\<rparr>))
             (\<lambda>output. case recordStringArg k ctx MAX_STRING_LENGTH 1 (ae_permission_name output) of
                (rc, s) \<Rightarrow> (rc, output\<lparr>ae_permission_name := s\<rparr>))
           of (rc, output) \<Rightarrow> (0, Some (output\<lparr>ae_error_code := word_of_int rc\<rparr>))))"

definition kTargetInterfaceDescriptor :: string where
  "kTargetInterfaceDescriptor = ''android.accessibilityservice.IAccessibilityServiceConnection''"

text \<open>\<open>strcmp\<close> compares what comes before the first NUL.\<close>

definition strcmp_eq :: "char list \<Rightarrow> char list \<Rightarrow> bool" where
  "strcmp_eq a b \<longleftrightarrow> takeWhile (\<lambda>c. c \<noteq> NUL) a = takeWhile (\<lambda>c. c \<noteq> NUL) b"

definition dispatch_gesture ::
  "bpf_kernel \<Rightarrow> pt_regs \<Rightarrow> AccessibilityEvent option \<Rightarrow> AccessibilityEvent submitted" where
  "dispatch_gesture k ctx slot =
     (let this_binder_ptr = r_regs ctx 1;
          descriptor_ptr = snd (read_ref k (this_binder_ptr + kBinderDescriptorOffset));
          descriptor = snd (recordString k descriptor_ptr MAX_STRING_LENGTH (replicate 128 NUL)) in
      if \<not> strcmp_eq descriptor kTargetInterfaceDescriptor then (0, None)
      else
        (case slot of
           None \<Rightarrow> (1, None)
         | Some output \<Rightarrow>
             (0, Some (output\<lparr>ae_error_code := 0, ae_variant := 2, ae_timestamp_ns := ktime_get_ns k,
                         ae_uid := ucast (r_regs ctx 6), ae_code := ucast (r_regs ctx 2)\<rparr>))))"

subsection \<open>Disruptive apps\<close>

definition kIntentPackageOffset :: u64 where "kIntentPackageOffset = 48"
definition kIntentComponentNameOffset :: u64 where "kIntentComponentNameOffset = 20"
definition kIntentActionOffset :: u64 where "kIntentActionOffset = 8"
definition kComponentNameClassOffset :: u64 where "kComponentNameClassOffset = 8"
definition kComponentNamePackageOffset :: u64 where "kComponentNamePackageOffset = 12"
definition kCallingPackageStackFrameOffset :: u64 where "kCallingPackageStackFrameOffset = 60"
definition kBindAllowBackgroundActivityStartsFlag :: c_long where
  "kBindAllowBackgroundActivityStartsFlag = 0x00100000"

text \<open>The record from the intent on, up to the label \<open>out\<close>.\<close>

definition bind_record :: "bpf_kernel \<Rightarrow> pt_regs \<Rightarrow> BindServiceLocked \<Rightarrow> int \<times> BindServiceLocked" where
  "bind_record k ctx output =
     (let intent_ptr = r_regs ctx 4 in
      if intent_ptr = 0 then (- EFAULT, output)
      else
        then_unless_error
          (via_ref k (intent_ptr + kIntentPackageOffset) (\<lambda>p.
             record_field k p MAX_STRING_LENGTH bsl_intent_package bsl_intent_package_update) output) (\<lambda>output.
        then_unless_error
          (via_ref k (intent_ptr + kIntentActionOffset) (\<lambda>p.
             record_field k p MAX_STRING_LENGTH bsl_intent_action bsl_intent_action_update) output) (\<lambda>output.
        via_ref k (intent_ptr + kIntentComponentNameOffset) (\<lambda>component_name_ptr output.
          if component_name_ptr = 0 then (- EFAULT, output)
          else
            then_unless_error
              (via_ref k (component_name_ptr + kComponentNamePackageOffset) (\<lambda>p.
                 record_field k p MAX_STRING_LENGTH bsl_intent_component_name_package
                   bsl_intent_component_name_package_update) output) (\<lambda>output.
            then_unless_error
              (via_ref k (component_name_ptr + kComponentNameClassOffset) (\<lambda>p.
                 record_field k p MAX_STRING_LENGTH bsl_intent_component_name_class
                   bsl_intent_component_name_class_update) output) (\<lambda>output.
            case recordStringArgFromSp k ctx MAX_STRING_LENGTH kCallingPackageStackFrameOffset
                   (bsl_calling_package output) of
              (rc, s) \<Rightarrow> (rc, output\<lparr>bsl_calling_package := s\<rparr>)))) output)))"

definition bind_service_locked ::
  "bpf_kernel \<Rightarrow> pt_regs \<Rightarrow> BindServiceLocked option \<Rightarrow> BindServiceLocked submitted" where
  "bind_service_locked k ctx slot =
     (let bflags = r_regs ctx 7;
          has_bal_flag = (bflags AND kBindAllowBackgroundActivityStartsFlag \<noteq> 0) in
      if \<not> has_bal_flag then (0, None)
      else
        (case slot of
           None \<Rightarrow> (1, None)
         | Some output \<Rightarrow>
             (case bind_record k ctx (output\<lparr>bsl_error_code := 0, bind_flags := bflags\<rparr>) of
                (rc, output) \<Rightarrow> (0, Some (output\<lparr>bsl_error_code := word_of_int rc\<rparr>)))))"

definition component_record ::
  "bpf_kernel \<Rightarrow> pt_regs \<Rightarrow> ComponentEnabledSetting \<Rightarrow> int \<times> ComponentEnabledSetting" where
  "component_record k ctx output =
     (let component_name_ptr = r_regs ctx 2 in
      if component_name_ptr = 0 then (- EFAULT, output)
      else
        then_unless_error
          (via_ref k (component_name_ptr + kComponentNameClassOffset) (\<lambda>p.
             record_field k p 64 ces_class_name ces_class_name_update) output) (\<lambda>output.
        then_unless_error
          (via_ref k (component_name_ptr + kComponentNamePackageOffset) (\<lambda>p.
             record_field k p 64 ces_package_name ces_package_name_update) output) (\<lambda>output.
        (case record_field k (r_regs ctx 6) 64 ces_calling_package_name
                ces_calling_package_name_update output of
           (rc, output) \<Rightarrow>
             (rc, if rc < 0 then output else output\<lparr>ces_new_state := ucast (r_regs ctx 3)\<rparr>)))))"

definition set_component_enabled_setting ::
  "bpf_kernel \<Rightarrow> pt_regs \<Rightarrow> ComponentEnabledSetting option \<Rightarrow> ComponentEnabledSetting submitted" where
  "set_component_enabled_setting k ctx slot =
     (case slot of
        None \<Rightarrow> (1, None)
      | Some output \<Rightarrow>
          (case component_record k ctx (output\<lparr>ces_error_code := 0\<rparr>) of
             (rc, output) \<Rightarrow> (0, Some (output\<lparr>ces_error_code := word_of_int rc\<rparr>))))"

subsection \<open>Bitmaps\<close>

text \<open>\<open>struct BitmapKey\<close>; the map \<open>active_bitmaps\<close> holds \<open>true\<close> for every key, so it is a set here.\<close>

record BitmapKey =
  bk_tgid :: u64
  bk_native_ptr :: u64

definition bitmap_constructor_heap :: "u64 option \<Rightarrow> u64 submitted" where
  "bitmap_constructor_heap slot =
     (case slot of None \<Rightarrow> (1, None) | Some output \<Rightarrow> (0, Some 123))"

definition bitmap_creation :: "bpf_kernel \<Rightarrow> pt_regs \<Rightarrow> BitmapEvent option \<Rightarrow> BitmapEvent submitted" where
  "bitmap_creation k ctx slot =
     (case slot of
        None \<Rightarrow> (1, None)
      | Some output \<Rightarrow>
          (let bitmap_wrapper_ptr = r_regs ctx 3;
               bitmap_ptr = snd (load k 0 8 bitmap_wrapper_ptr) in
           (0, Some (output\<lparr>be_width := ucast (r_regs ctx 4), be_height := ucast (r_regs ctx 5),
                       be_pixel_storage_type := snd (load k 0x78 4 bitmap_ptr)\<rparr>))))"

text \<open>\<open>room\<close> tells whether the map accepts another key; \<open>BPF_NOEXIST\<close> leaves a known key alone.\<close>

definition bitmap_creation_for_snapshot ::
  "bpf_kernel \<Rightarrow> bool \<Rightarrow> pt_regs \<Rightarrow> BitmapEvent option \<Rightarrow> BitmapKey set
     \<Rightarrow> BitmapEvent submitted \<times> BitmapKey set" where
  "bitmap_creation_for_snapshot k room ctx slot active_bitmaps =
     (case slot of
        None \<Rightarrow> ((1, None), active_bitmaps)
      | Some output \<Rightarrow>
          (let bitmap_wrapper_ptr = r_regs ctx 3;
               bitmap_ptr = snd (load k 0 8 bitmap_wrapper_ptr);
               heap_size = snd (load k 152 4 bitmap_ptr);
               bitmap_key = \<lparr>bk_tgid = drop_bit 32 (get_current_pid_tgid k),
                             bk_native_ptr = bitmap_wrapper_ptr\<rparr> in
           ((0, Some (output\<lparr>be_width := ucast (r_regs ctx 4), be_height := ucast (r_regs ctx 5),
                        be_pixel_storage_type := snd (load k 0x78 4 bitmap_ptr),
                        bitmap_size := heap_size, be_type := K_BITMAP_EVENT_TYPE_ALLOCATION,
                        native_ptr := bitmap_wrapper_ptr\<rparr>)),
            if room then insert bitmap_key active_bitmaps else active_bitmaps)))"

definition apply_free_function ::
  "bpf_kernel \<Rightarrow> pt_regs \<Rightarrow> BitmapEvent option \<Rightarrow> BitmapKey set \<Rightarrow> BitmapEvent submitted \<times> BitmapKey set" where
  "apply_free_function k ctx slot active_bitmaps =
     (let ptr = snd (read_scalar k 8 (r_regs ctx 1 + 16));
          bitmap_key = \<lparr>bk_tgid = drop_bit 32 (get_current_pid_tgid k), bk_native_ptr = ptr\<rparr> in
      if bitmap_key \<notin> active_bitmaps then ((0, None), active_bitmaps)
      else
        (let active_bitmaps = active_bitmaps - {bitmap_key} in
         case slot of
           None \<Rightarrow> ((1, None), active_bitmaps)
         | Some output \<Rightarrow>
             ((0, Some (output\<lparr>be_type := K_BITMAP_EVENT_TYPE_DEALLOCATION, native_ptr := ptr\<rparr>)),
              active_bitmaps)))"

definition activity_perform_start ::
  "bpf_kernel \<Rightarrow> pt_regs \<Rightarrow> BitmapEvent option \<Rightarrow> BitmapEvent submitted" where
  "activity_perform_start k ctx slot =
     (case slot of
        None \<Rightarrow> (1, None)
      | Some output \<Rightarrow>
          (let component_name_ptr = snd (read_ref k (r_regs ctx 1 + 76));
               class_ptr = snd (read_ref k (component_name_ptr + kComponentNameClassOffset)) in
           (0, Some (snd (record_field k class_ptr MAX_STRING_LENGTH be_activity_name
                  be_activity_name_update (output\<lparr>be_type := K_BITMAP_EVENT_TYPE_ACTIVITY_START\<rparr>))))))"

definition create_scaled_bitmap ::
  "bpf_kernel \<Rightarrow> pt_regs \<Rightarrow> BitmapEvent option \<Rightarrow> BitmapEvent submitted" where
  "create_scaled_bitmap k ctx slot =
     (case slot of
        None \<Rightarrow> (1, None)
      | Some output \<Rightarrow>
          (let bitmap_java_object_ptr = r_regs ctx 1;
               bitmap_wrapper_ptr = snd (load k 40 4 bitmap_java_object_ptr);
               bitmap_ptr = snd (load k 0 8 bitmap_wrapper_ptr);
               heap_size = snd (load k 152 4 bitmap_ptr) in
           (0, Some (output\<lparr>be_scaled_width := ucast (r_regs ctx 2), be_scaled_height := ucast (r_regs ctx 3),
                       be_width := snd (load k 64 4 bitmap_java_object_ptr),
                       be_height := snd (load k 60 4 bitmap_java_object_ptr),
                       be_pixel_storage_type := snd (load k 0x78 4 bitmap_ptr),
                       bitmap_size := heap_size, be_type := K_BITMAP_EVENT_TYPE_BITMAP_SCALED,
                       native_ptr := bitmap_wrapper_ptr\<rparr>))))"

subsection \<open>Generic instrumentation\<close>

text \<open>
  The copy of eleven registers into an array of ten: the store to index 10 lies behind the array,
  where no field is, and is dropped. What the local record held before is arbitrary.
\<close>

definition call_detail :: "CallResult \<Rightarrow> pt_regs \<Rightarrow> CallResult option \<Rightarrow> CallResult submitted" where
  "call_detail result ctx slot =
     (let result = fold (\<lambda>i result. result\<lparr>regs := (regs result)[i := r_regs ctx i]\<rparr>) [0..<11] result;
          result = result\<lparr>cr_pc := r_pc ctx\<rparr> in
      case slot of None \<Rightarrow> (1, None) | Some output \<Rightarrow> (0, Some result))"

definition call_timestamp_event ::
  "u32 \<Rightarrow> bpf_kernel \<Rightarrow> CallTimestamp option \<Rightarrow> CallTimestamp submitted" where
  "call_timestamp_event n k slot =
     (let result = \<lparr>ct_event = n, timestampNs = ktime_get_ns k\<rparr> in
      case slot of None \<Rightarrow> (1, None) | Some output \<Rightarrow> (0, Some result))"

definition call_timestamp where "call_timestamp = call_timestamp_event 0"
definition call_timestamp_1 where "call_timestamp_1 = call_timestamp_event 1"
definition call_timestamp_2 where "call_timestamp_2 = call_timestamp_event 2"
definition call_timestamp_3 where "call_timestamp_3 = call_timestamp_event 3"
definition call_timestamp_4 where "call_timestamp_4 = call_timestamp_event 4"
definition call_timestamp_5 where "call_timestamp_5 = call_timestamp_event 5"

subsection \<open>Process management and the ART test\<close>

definition set_uid_temp_allowlist_state ::
  "pt_regs \<Rightarrow> SetUidTempAllowlistStateRecord option \<Rightarrow> SetUidTempAllowlistStateRecord submitted" where
  "set_uid_temp_allowlist_state ctx slot =
     (case slot of
        None \<Rightarrow> (1, None)
      | Some output \<Rightarrow> (0, Some (output\<lparr>su_uid := r_regs ctx 2, onAllowlist := (r_regs ctx 3 \<noteq> 0)\<rparr>)))"

text \<open>The stores that the program of \<open>ProcessManagement.c\<close> and the one of \<open>ArtTest.c\<close> have in common.\<close>

definition allowlist_record ::
  "bpf_kernel \<Rightarrow> pt_regs \<Rightarrow> UpdateDeviceIdleTempAllowlistRecord \<Rightarrow> UpdateDeviceIdleTempAllowlistRecord" where
  "allowlist_record k ctx output =
     output\<lparr>changing_uid := ucast (r_regs ctx 3), adding := (r_regs ctx 4 \<noteq> 0),
       duration_ms := r_regs ctx 5, ud_type := ucast (r_regs ctx 6), reason_code := ucast (r_regs ctx 7),
       reason := snd (recordStringArgFromSp k ctx 256 40 (reason output)),
       ud_calling_uid := snd (read_scalar k 4 (r_sp ctx + 44))\<rparr>"

definition update_device_idle_temp_allowlist ::
  "bpf_kernel \<Rightarrow> pt_regs \<Rightarrow> UpdateDeviceIdleTempAllowlistRecord option
     \<Rightarrow> UpdateDeviceIdleTempAllowlistRecord submitted" where
  "update_device_idle_temp_allowlist k ctx slot =
     (case slot of None \<Rightarrow> (1, None) | Some output \<Rightarrow> (0, Some (allowlist_record k ctx output)))"

definition update_device_idle_temp_allowlist_aot ::
  "bpf_kernel \<Rightarrow> pt_regs \<Rightarrow> UpdateDeviceIdleTempAllowlistRecord option
     \<Rightarrow> UpdateDeviceIdleTempAllowlistRecord submitted" where
  "update_device_idle_temp_allowlist_aot k ctx slot =
     (case slot of
        None \<Rightarrow> (1, None)
      | Some output \<Rightarrow> (0, Some (allowlist_record k ctx (output\<lparr>ud_method_identifier := r_pc ctx\<rparr>))))"

definition start_activity_as_user ::
  "bpf_kernel \<Rightarrow> pt_regs \<Rightarrow> StartActivityAsUser option \<Rightarrow> StartActivityAsUser submitted" where
  "start_activity_as_user k ctx slot =
     (case slot of
        None \<Rightarrow> (1, None)
      | Some output \<Rightarrow>
          (let sf = getJitMethodStackFrame ctx in
           (0, Some (output\<lparr>sa_method_identifier := snd (read_scalar k 8 (r_sp ctx)),
                       x0 := snd (read_scalar k 8 (r_regs ctx 0)),
                       sa_calling_package :=
                         snd (recordStringArg k ctx MAX_STRING_LENGTH 1 (sa_calling_package output)),
                       request_code := snd (read_scalar k 4 (sf + 40)),
                       start_flags := snd (read_scalar k 4 (sf + 44)),
                       sa_user_id := snd (read_scalar k 4 (sf + 56)),
                       validate_incoming_user := snd (read_scalar k 4 (sf + 60))\<rparr>))))"

definition process_change ::
  "bpf_kernel \<Rightarrow> i32 \<Rightarrow> i32 \<Rightarrow> u64 \<Rightarrow> ProcessChange \<Rightarrow> ProcessChange submitted" where
  "process_change k pid uid process_name output =
     (0, Some (snd (record_field k process_name 256 pc_process_name pc_process_name_update
        (output\<lparr>pc_pid := pid, pc_uid := uid\<rparr>))))"

definition set_pid :: "bpf_kernel \<Rightarrow> pt_regs \<Rightarrow> ProcessChange option \<Rightarrow> ProcessChange submitted" where
  "set_pid k ctx slot =
     (case slot of
        None \<Rightarrow> (1, None)
      | Some output \<Rightarrow>
          process_change k (ucast (r_regs ctx 2)) (snd (read_scalar k 4 (r_regs ctx 1 + 0xf4)))
            (snd (read_ref k (r_regs ctx 1 + 0xa0))) output)"

definition make_active :: "bpf_kernel \<Rightarrow> pt_regs \<Rightarrow> ProcessChange option \<Rightarrow> ProcessChange submitted" where
  "make_active k ctx slot =
     (case slot of
        None \<Rightarrow> (1, None)
      | Some output \<Rightarrow>
          process_change k (snd (read_scalar k 4 (r_regs ctx 1 + 0xe4)))
            (snd (read_scalar k 4 (r_regs ctx 1 + 0xf0))) (snd (read_ref k (r_regs ctx 1 + 0xa0))) output)"

definition on_process_active :: "bpf_kernel \<Rightarrow> pt_regs \<Rightarrow> ProcessChange option \<Rightarrow> ProcessChange submitted" where
  "on_process_active k ctx slot =
     (case slot of
        None \<Rightarrow> (1, None)
      | Some output \<Rightarrow>
          (let process_record_ptr = snd (read_ref k (r_regs ctx 1 + 0x8)) in
           process_change k (snd (read_scalar k 4 (process_record_ptr + 524)))
             (snd (read_scalar k 4 (process_record_ptr + 532)))
             (snd (read_ref k (process_record_ptr + 52))) output))"


section \<open>What the programs submit\<close>

lemma via_ref_java:
  "reads_memory k mem \<Longrightarrow> java_ref mem addr p \<Longrightarrow> via_ref k addr f o0 = f p o0"
  by (simp add: via_ref_def read_ref_java)

lemma record_field_java:
  assumes "reads_memory k mem" and "java_string mem p s" and "ascii s" and "unat m = Suc n" and "n < 128"
  shows "\<exists>rc d. record_field k p m get put o0 = (rc, put (\<lambda>_. d) o0) \<and> 0 < rc \<and> rc \<le> 128
    \<and> bytes_as_str d = Ok (take n s)"
proof -
  have "0 < m" using assms(4) by (simp add: word_less_nat_alt)
  from recordString_java_str [OF assms(1,2) this assms(3), of "get o0"]
  obtain rc d where "recordString k p m (get o0) = (rc, d)" "0 < rc" "rc \<le> int (unat m)"
    "bytes_as_str d = Ok (take (unat m - 1) s)" .
  then show ?thesis using assms(4,5) by (intro exI [of _ rc] exI [of _ d]) (simp add: record_field_def)
qed

lemma record_at_java:
  assumes "reads_memory k mem" and "java_string_at mem addr s" and "ascii s" and "unat m = Suc n" and "n < 128"
  shows "\<exists>rc d. via_ref k addr (\<lambda>p. record_field k p m get put) o0 = (rc, put (\<lambda>_. d) o0)
    \<and> 0 < rc \<and> rc \<le> 128 \<and> bytes_as_str d = Ok (take n s)"
proof -
  from assms(2) obtain p where p: "java_ref mem addr p" "java_string mem p s"
    unfolding java_string_at_def by blast
  show ?thesis
    unfolding via_ref_java [OF assms(1) p(1)] by (rule record_field_java [OF assms(1) p(2) assms(3-5)])
qed

definition c_terminated :: "nat \<Rightarrow> char list \<Rightarrow> bool" where
  "c_terminated n bs \<longleftrightarrow> (\<exists>s rest. bs = s @ NUL # rest \<and> NUL \<notin> set s \<and> length s \<le> n)"

lemma then_unless_error_simps [simp]:
  "0 < rc \<Longrightarrow> then_unless_error (rc, o0) f = f o0"
  "0 \<le> rc \<Longrightarrow> then_unless_error (rc, o0) f = f o0"
  "rc < 0 \<Longrightarrow> then_unless_error (rc, o0) f = (rc, o0)"
  by (simp_all add: then_unless_error_def)

lemma sint_rc:
  "- (2 ^ 31) \<le> rc \<Longrightarrow> rc \<le> 128 \<Longrightarrow> sint (word_of_int rc :: i64) = rc"
  "- (2 ^ 31) \<le> rc \<Longrightarrow> rc \<le> 128 \<Longrightarrow> sint (word_of_int rc :: i32) = rc"
  by (simp_all add: sint_of_int_in_range)

subsection \<open>Disabled components\<close>

text \<open>
  From the kernel to the handler of disabled components: for a component name and a caller
  that can be read from the traced process, the program submits a record without an error, and the
  handler goes on with the class, the package and the caller cut to their first 63 characters,
  although the fields of the record have room for 127.
\<close>

lemma component_names_truncated:
  assumes "reads_memory k mem" and "r_regs ctx 2 \<noteq> 0"
    and "java_string_at mem (r_regs ctx 2 + 8) cls" and "ascii cls" and "cls \<noteq> []"
    and "java_string_at mem (r_regs ctx 2 + 12) pkg" and "ascii pkg" and "pkg \<noteq> []"
    and "java_string mem (r_regs ctx 6) caller" and "ascii caller"
  shows "\<exists>out. set_component_enabled_setting k ctx (Some slot) = (0, Some out)
    \<and> Component_on_item d clk b write_atom task out =
        io_bind (check_disabled_launcher_activity_and_log_to_statsd d b write_atom (take 63 pkg)
          (take 63 cls) (ucast (r_regs ctx 3)) (take 63 caller)) (\<lambda>is_disabled.
        if is_disabled then Component_enqueue_event d clk b (take 63 pkg) (take 63 cls) (take 63 caller)
        else ret ())"
proof -
  have m: "unat (64 :: u32) = Suc 63" "(63 :: nat) < 128" by simp_all
  let ?o0 = "slot\<lparr>ces_error_code := 0\<rparr>"
  from record_at_java [OF assms(1,3,4) m, of ces_class_name ces_class_name_update ?o0]
  obtain r1 d1 where 1: "via_ref k (r_regs ctx 2 + 8) (\<lambda>p. record_field k p 64 ces_class_name
      ces_class_name_update) ?o0 = (r1, ces_class_name_update (\<lambda>_. d1) ?o0)" "0 < r1"
    and d1: "bytes_as_str d1 = Ok (take 63 cls)" by blast
  let ?o1 = "ces_class_name_update (\<lambda>_. d1) ?o0"
  from record_at_java [OF assms(1,6,7) m, of ces_package_name ces_package_name_update ?o1]
  obtain r2 d2 where 2: "via_ref k (r_regs ctx 2 + 12) (\<lambda>p. record_field k p 64 ces_package_name
      ces_package_name_update) ?o1 = (r2, ces_package_name_update (\<lambda>_. d2) ?o1)" "0 < r2"
    and d2: "bytes_as_str d2 = Ok (take 63 pkg)" by blast
  let ?o2 = "ces_package_name_update (\<lambda>_. d2) ?o1"
  from record_field_java [OF assms(1,9,10) m, of ces_calling_package_name ces_calling_package_name_update ?o2]
  obtain r3 d3 where 3: "record_field k (r_regs ctx 6) 64 ces_calling_package_name
      ces_calling_package_name_update ?o2 = (r3, ces_calling_package_name_update (\<lambda>_. d3) ?o2)" "0 < r3"
    and r3: "r3 \<le> 128" and d3: "bytes_as_str d3 = Ok (take 63 caller)" by blast
  let ?out = "(ces_calling_package_name_update (\<lambda>_. d3) ?o2)\<lparr>ces_new_state := ucast (r_regs ctx 3),
    ces_error_code := word_of_int r3\<rparr>"
  have "component_record k ctx ?o0 = (r3, (ces_calling_package_name_update (\<lambda>_. d3) ?o2)
      \<lparr>ces_new_state := ucast (r_regs ctx 3)\<rparr>)"
    using assms(2) 3(2) by (simp add: component_record_def kComponentNameClassOffset_def
        kComponentNamePackageOffset_def 1 2 3(1))
  then have "set_component_enabled_setting k ctx (Some slot) = (0, Some ?out)"
    by (simp add: set_component_enabled_setting_def)
  moreover have "\<not> sint (ces_error_code ?out) < 0" using sint_rc(1) [of r3] 3(2) r3 by simp
  moreover have "bytes_as_nonempty_str d2 = Ok (take 63 pkg)" "bytes_as_nonempty_str d1 = Ok (take 63 cls)"
    using d1 d2 assms(5,8) by (simp_all add: bytes_as_nonempty_str_Ok_iff)
  ultimately show ?thesis using d3
    by (intro exI [of _ ?out]) (simp add: Component_on_item_def)
qed


subsection \<open>Bindings\<close>

text \<open>A field of type \<open>String\<close> that is null or refers to an ASCII string.\<close>

definition java_string_or_null_at :: "user_memory \<Rightarrow> u64 \<Rightarrow> string option \<Rightarrow> bool" where
  "java_string_or_null_at mem addr v \<longleftrightarrow>
     (case v of None \<Rightarrow> java_ref mem addr 0 | Some s \<Rightarrow> java_string_at mem addr s \<and> ascii s)"

lemma record_at_java_or_null:
  assumes "reads_memory k mem" and "java_string_or_null_at mem addr v" and "unat m = Suc n" and "n < 128"
    and "get o0 \<noteq> []"
  shows "\<exists>rc d. via_ref k addr (\<lambda>p. record_field k p m get put) o0 = (rc, put (\<lambda>_. d) o0)
    \<and> 0 \<le> rc \<and> bytes_as_str d = Ok (take n (case v of None \<Rightarrow> [] | Some s \<Rightarrow> s))"
proof (cases v)
  case None
  with assms(2) have "java_ref mem addr 0" by (simp add: java_string_or_null_at_def)
  moreover have "bytes_as_str ((get o0)[0 := NUL]) = Ok []"
    using assms(5) by (cases "get o0") (simp_all add: bytes_as_str_Ok_iff)
  ultimately show ?thesis using None
    by (intro exI [of _ 0] exI [of _ "(get o0)[0 := NUL]"])
      (simp add: via_ref_java [OF assms(1)] record_field_def recordString_def)
next
  case (Some s)
  with assms(2) have "java_string_at mem addr s" "ascii s" by (simp_all add: java_string_or_null_at_def)
  from record_at_java [OF assms(1) this assms(3,4), of get put o0] Some show ?thesis by (auto intro: less_imp_le)
qed

text \<open>
  C32. A binding with the flag \<open>BIND_ALLOW_BACKGROUND_ACTIVITY_STARTS\<close> whose intent has no component is
  lost. The intent's package and action are each null or an ASCII string, in memory that can be read, and its
  component is null: the program records the package, then submits the record with
  the error \<open>-EFAULT\<close>, and the handler returns that error for it, although without the error code it only rejects records
  in which all names are empty. The string fields of the record are arrays of 128 bytes.
\<close>

theorem bind_without_component_fails:
  assumes "reads_memory k mem" and "r_regs ctx 7 AND 0x00100000 \<noteq> 0" and "r_regs ctx 4 \<noteq> 0"
    and "java_string_or_null_at mem (r_regs ctx 4 + 48) pkg"
    and "java_string_or_null_at mem (r_regs ctx 4 + 8) action"
    and "java_ref mem (r_regs ctx 4 + 20) 0"
    and "length (bsl_intent_package slot) = 128" and "length (bsl_intent_action slot) = 128"
  shows "\<exists>out. bind_service_locked k ctx (Some slot) = (0, Some out)
      \<and> bytes_as_str (bsl_intent_package out) = Ok (take 127 (case pkg of None \<Rightarrow> [] | Some s \<Rightarrow> s))
      \<and> Bind_on_item d clk b write_atom task out s = (Err (BpfProgramError (- 14)), s)"
proof -
  have m: "unat MAX_STRING_LENGTH = Suc 127" "(127 :: nat) < 128" by (simp_all add: MAX_STRING_LENGTH_def)
  let ?o0 = "slot\<lparr>bsl_error_code := 0, bind_flags := r_regs ctx 7\<rparr>"
  have "bsl_intent_package ?o0 \<noteq> []" using assms(7) by auto
  from record_at_java_or_null [OF assms(1,4) m, of bsl_intent_package ?o0, OF this, of bsl_intent_package_update]
  obtain r1 d1 where 1: "via_ref k (r_regs ctx 4 + 48) (\<lambda>p. record_field k p MAX_STRING_LENGTH
      bsl_intent_package bsl_intent_package_update) ?o0 = (r1, bsl_intent_package_update (\<lambda>_. d1) ?o0)" "0 \<le> r1"
    and d1: "bytes_as_str d1 = Ok (take 127 (case pkg of None \<Rightarrow> [] | Some s \<Rightarrow> s))" by blast
  let ?o1 = "bsl_intent_package_update (\<lambda>_. d1) ?o0"
  have "bsl_intent_action ?o1 \<noteq> []" using assms(8) by auto
  from record_at_java_or_null [OF assms(1,5) m, of bsl_intent_action ?o1, OF this, of bsl_intent_action_update]
  obtain r2 d2 where 2: "via_ref k (r_regs ctx 4 + 8) (\<lambda>p. record_field k p MAX_STRING_LENGTH
      bsl_intent_action bsl_intent_action_update) ?o1 = (r2, bsl_intent_action_update (\<lambda>_. d2) ?o1)" "0 \<le> r2"
    by blast
  let ?o2 = "bsl_intent_action_update (\<lambda>_. d2) ?o1"
  have "bind_record k ctx ?o0 = (- EFAULT, ?o2)"
    using assms(3) by (simp add: bind_record_def kIntentPackageOffset_def kIntentActionOffset_def
        kIntentComponentNameOffset_def via_ref_java [OF assms(1,6)] 1 2)
  then have "bind_service_locked k ctx (Some slot) = (0, Some (?o2\<lparr>bsl_error_code := - 14\<rparr>))"
    using assms(2) by (simp add: bind_service_locked_def kBindAllowBackgroundActivityStartsFlag_def EFAULT_def)
  moreover have "sint (- 14 :: i64) < 0" by simp
  ultimately show ?thesis using d1 by (simp add: Bind_on_item_def)
qed

subsection \<open>Accessibility events\<close>

text \<open>
  C25. A permission grant always reaches the daemon when the ring buffer has room. Either a read
  failed, and the handler fails with it, which ends the task; or the record carries the time of the
  grant and two NUL-terminated names of at most 127 bytes, so that nothing the slot held before can
  be taken for a name.
\<close>

theorem grant_runtime_permission_reports:
  assumes "probe_helpers k" and "length (ae_package_name slot) = 128" and "length (ae_permission_name slot) = 128"
  shows "\<exists>out. grant_runtime_permission k ctx (Some slot) = (0, Some out)
    \<and> ae_variant out = 1 \<and> ae_timestamp_ns out = ktime_get_ns k
    \<and> (if sint (ae_error_code out) < 0
       then \<forall>s. Accessibility_on_item d b task out s = (Err (Anyhow ''Accessibility BPF error: {}''), s)
       else c_terminated 127 (ae_package_name out) \<and> c_terminated 127 (ae_permission_name out))"
proof -
  have m: "0 < MAX_STRING_LENGTH" "unat MAX_STRING_LENGTH = 128" by (simp_all add: MAX_STRING_LENGTH_def)
  let ?o0 = "slot\<lparr>ae_error_code := 0, ae_variant := 1, ae_timestamp_ns := ktime_get_ns k\<rparr>"
  obtain r1 d1 where 1: "recordStringArg k ctx MAX_STRING_LENGTH 0 (ae_package_name slot) = (r1, d1)" by force
  obtain r2 d2 where 2: "recordStringArg k ctx MAX_STRING_LENGTH 1 (ae_permission_name slot) = (r2, d2)" by force
  note safe1 = recordString_safe [OF assms(1) m(1) _ 1 [unfolded recordStringArg_def]]
  note safe2 = recordString_safe [OF assms(1) m(1) _ 2 [unfolded recordStringArg_def]]
  have ok1: "r1 < 0 \<or> c_terminated 127 d1" "- 4096 < r1" "r1 \<le> 128"
    using safe1(3-5) assms(2) unfolding m(2) c_terminated_def by fastforce+
  have ok2: "r2 < 0 \<or> c_terminated 127 d2" "- 4096 < r2" "r2 \<le> 128"
    using safe2(3-5) assms(3) unfolding m(2) c_terminated_def by fastforce+
  let ?o1 = "?o0\<lparr>ae_package_name := d1\<rparr>"
  show ?thesis
  proof (cases "r1 < 0")
    case True
    then have "grant_runtime_permission k ctx (Some slot) = (0, Some (?o1\<lparr>ae_error_code := word_of_int r1\<rparr>))"
      by (simp add: grant_runtime_permission_def 1)
    moreover have "sint (word_of_int r1 :: i32) < 0" using sint_rc(2) [of r1] ok1 True by simp
    ultimately show ?thesis by (simp add: Accessibility_on_item_def)
  next
    case False
    then have "grant_runtime_permission k ctx (Some slot) =
        (0, Some (?o1\<lparr>ae_permission_name := d2, ae_error_code := word_of_int r2\<rparr>))"
      by (simp add: grant_runtime_permission_def then_unless_error_def 1 2 [unfolded One_nat_def])
    moreover have "sint (word_of_int r2 :: i32) = r2" using sint_rc(2) [of r2] ok2 by simp
    ultimately show ?thesis using ok1(1) ok2(1) False by (auto simp: Accessibility_on_item_def)
  qed
qed

subsection \<open>Bitmaps\<close>

text \<open>The key under which a bitmap is active.\<close>

abbreviation bitmap_key :: "bpf_kernel \<Rightarrow> u64 \<Rightarrow> BitmapKey" where
  "bitmap_key k p \<equiv> \<lparr>bk_tgid = drop_bit 32 (get_current_pid_tgid k), bk_native_ptr = p\<rparr>"

text \<open>
  C31. A freed bitmap is not subtracted from the total. The program for deallocations never stores
  the size of the bitmap, so the record carries whatever size the reused slot of the ring buffer
  held, and the handler subtracts that: it forgets the bitmap, and its total changes by the size in
  the stale slot, whatever the size of the bitmap was.
\<close>

theorem freed_bitmap_size_stale:
  assumes "snd (read_scalar k 8 (r_regs ctx 1 + 16)) = p" and "bitmap_key k p \<in> active"
    and "- (2 ^ 63) \<le> sint (current_total_bitmap_size h) - uint (bitmap_size slot)"
  shows "\<exists>out total. apply_free_function k ctx (Some slot) active = ((0, Some out), active - {bitmap_key k p})
    \<and> BitmapV1_on_item write_atom task out (h, t) =
        (Ok (), (h\<lparr>bitmaps := AList.delete p (bitmaps h), current_total_bitmap_size := total\<rparr>, t))
    \<and> sint total = sint (current_total_bitmap_size h) - uint (bitmap_size slot)"
proof -
  let ?out = "slot\<lparr>be_type := K_BITMAP_EVENT_TYPE_DEALLOCATION, native_ptr := p\<rparr>"
  let ?v = "sint (current_total_bitmap_size h) - uint (bitmap_size slot)"
  have size: "- (2 ^ 63) \<le> uint (bitmap_size slot)" "uint (bitmap_size slot) < 2 ^ 32"
    using unsigned_less [of "bitmap_size slot"] order.trans [of "- (2 ^ 63)" 0 "uint (bitmap_size slot)"]
    by simp_all
  have "sint (current_total_bitmap_size h) < 2 ^ 63"
    using sint_less [of "current_total_bitmap_size h"] by simp
  moreover have "0 \<le> uint (bitmap_size slot)" by simp
  ultimately have small: "?v < 2 ^ 63" by linarith
  from size have "try_into_signed (uint (bitmap_size slot)) = Ok (word_of_int (uint (bitmap_size slot)) :: i64)"
    by (simp add: try_into_signed_def)
  moreover have "sint (word_of_int (uint (bitmap_size slot)) :: i64) = uint (bitmap_size slot)"
    using size by (intro sint_of_int_in_range) simp_all
  ultimately have "BitmapV1_on_item write_atom task ?out (h, t) =
      (Ok (), (h\<lparr>bitmaps := AList.delete p (bitmaps h), current_total_bitmap_size := word_of_int ?v\<rparr>, t))"
    using assms(3) small by (simp add: BitmapV1_on_item_def on_deallocation_def checked_i64_def
        K_BITMAP_EVENT_TYPE_ALLOCATION_def K_BITMAP_EVENT_TYPE_DEALLOCATION_def)
  moreover have "apply_free_function k ctx (Some slot) active = ((0, Some ?out), active - {bitmap_key k p})"
    using assms(1,2) by (simp add: apply_free_function_def)
  moreover have "sint (word_of_int ?v :: i64) = ?v"
    using assms(3) small by (intro sint_of_int_in_range) simp_all
  ultimately show ?thesis by blast
qed


subsection \<open>Binder descriptors\<close>

text \<open>The descriptor of a binder object, copied into a cleared array of 128 bytes, is the key of its name.\<close>

lemma descriptor_key:
  assumes "reads_memory k mem" and "java_ref mem addr p" and "java_string mem p s" and "length s < 128"
  shows "snd (recordString k (snd (read_ref k addr)) MAX_STRING_LENGTH (replicate 128 NUL)) = binder_to_c_key s"
proof -
  have m: "0 < MAX_STRING_LENGTH" "unat MAX_STRING_LENGTH = 128" by (simp_all add: MAX_STRING_LENGTH_def)
  have "Suc (127 - length s) = 128 - length s" using assms(4) by simp
  then have "NUL # replicate (127 - length s) NUL = replicate (128 - length s) NUL"
    by (metis replicate_Suc)
  with assms(4) show ?thesis
    by (simp add: read_ref_java [OF assms(1,2)] recordString_java [OF assms(1,3) m(1)] m(2)
        binder_to_c_key_def)
qed

lemma binder_key_split: "length s < 128 \<Longrightarrow> binder_to_c_key s = s @ NUL # replicate (127 - length s) NUL"
  by (simp add: binder_to_c_key_def Suc_diff_le flip: replicate_Suc)

lemma key_takeWhile: "length s < 128 \<Longrightarrow> NUL \<notin> set s \<Longrightarrow> takeWhile (\<lambda>c. c \<noteq> NUL) (binder_to_c_key s) = s"
  by (simp add: binder_key_split takeWhile_append_NUL)

text \<open>
  Of all binder transactions of the traced process, exactly those of the interface
  \<open>IAccessibilityServiceConnection\<close> are submitted as accessibility calls, with the calling UID and the
  code of the transaction.
\<close>

theorem dispatch_gesture_exact:
  assumes "reads_memory k mem" and "java_string_at mem (r_regs ctx 1 + 8) s" and "length s < 128"
  shows "dispatch_gesture k ctx (Some slot) =
    (0, if s = ''android.accessibilityservice.IAccessibilityServiceConnection''
        then Some (slot\<lparr>ae_error_code := 0, ae_variant := 2, ae_timestamp_ns := ktime_get_ns k,
                    ae_uid := ucast (r_regs ctx 6), ae_code := ucast (r_regs ctx 2)\<rparr>)
        else None)"
proof -
  from assms(2) obtain p where p: "java_ref mem (r_regs ctx 1 + 8) p" "java_string mem p s"
    unfolding java_string_at_def by blast
  have "NUL \<notin> set s" using p(2) by (simp add: java_string_def)
  then have "takeWhile (\<lambda>c. c \<noteq> NUL) (binder_to_c_key s) = s" by (rule key_takeWhile [OF assms(3)])
  moreover have "takeWhile (\<lambda>c. c \<noteq> NUL) kTargetInterfaceDescriptor = kTargetInterfaceDescriptor"
    by (simp add: kTargetInterfaceDescriptor_def)
  ultimately have "strcmp_eq (binder_to_c_key s) kTargetInterfaceDescriptor \<longleftrightarrow>
      s = ''android.accessibilityservice.IAccessibilityServiceConnection''"
    by (simp add: strcmp_eq_def kTargetInterfaceDescriptor_def)
  then show ?thesis
    unfolding dispatch_gesture_def kBinderDescriptorOffset_def Let_def
      descriptor_key [OF assms(1) p assms(3)] by simp
qed

subsection \<open>Binder filters from the configuration to the kernel\<close>

text \<open>What the filter map holds after a set of filters was written.\<close>

definition filter_entries :: "(string \<times> InterfaceConfig) list \<Rightarrow> (CKey \<times> CValue) set" where
  "filter_entries filters =
     (\<lambda>(n, ic). (binder_to_c_key n, binder_to_c_value (method_ids ic))) ` set filters"

lemma filter_entries_iff:
  "(c, v) \<in> filter_entries filters \<longleftrightarrow> (\<exists>n ic. (n, ic) \<in> set filters \<and> c = binder_to_c_key n
     \<and> v = binder_to_c_value (method_ids ic))"
  by (auto simp: filter_entries_def)

lemma write_filters_view:
  assumes k: "kernel_hash_map env view"
    and "write_binder_transaction_filter_to_binder_bpf_map env filters (h, t) = (Ok (), (h', t'))"
  shows "Map.graph (view t') = Map.graph (view t) \<union> filter_entries filters"
  using assms(2)
proof (induction filters arbitrary: h t)
  case (Cons f filters)
  obtain name cfg where f: "f = (name, cfg)" by (cases f)
  let ?c = "binder_to_c_key name" and ?v = "binder_to_c_value (method_ids cfg)"
  let ?t1 = "t @ [MapUpdate ?c ?v 1 (map_update env t ?c ?v 1)]"
  from Cons.prems f have ok: "map_update env t ?c ?v 1 = 0"
    and rest: "write_binder_transaction_filter_to_binder_bpf_map env filters (h, ?t1) = (Ok (), (h', t'))"
    by (auto simp: write_binder_transaction_filter_to_binder_bpf_map_def bpf_defs BinderInterfaceBpfMap_def
        io_bind_def [of "lift_res x" for x] ensure_def split: if_splits)
  have "view ?t1 = (view t)(?c \<mapsto> ?v)" 
    using kernel_after_update [OF k binder_to_c_key_length, of t name ?v 1] unfolding ok by simp
  moreover have "?c \<notin> dom (view t)" using k ok unfolding kernel_hash_map_def by blast
  ultimately have "Map.graph (view ?t1) = insert (?c, ?v) (Map.graph (view t))"
    by (auto simp: graph_def split: if_splits)
  with Cons.IH [OF rest] f show ?case by (auto simp: filter_entries_def)
qed (simp add: write_binder_transaction_filter_to_binder_bpf_map_def filter_entries_def)


lemma setup_filters_view:
  assumes k: "kernel_hash_map env view"
  shows "setup_binder_filters n env opened probes (h, t) = (Ok opn, (h', t')) \<Longrightarrow>
    Map.graph (view t') = Map.graph (view t) \<union> (\<Union>p \<in> set probes. filter_entries (probe_filters p))"
proof (induction probes arbitrary: opened h t)
  case (Cons probe probes)
  let ?t0 = "if opened then t else t @ [MapOpen filter_map_path 0]"
  have v0: "view ?t0 = view t" using kernel_other [OF k] by (simp add: touches_map_def)
  show ?case
  proof (cases "probe_filters probe = []")
    case True
    with Cons show ?thesis by (simp add: filter_entries_def)
  next
    case False
    from Cons.prems setup_step [OF False, of n env opened probes h t]
    have "io_then (on_err (write_binder_transaction_filter_to_binder_bpf_map env (probe_filters probe))
        (\<lambda>_. drain_after_failure n env)) (setup_binder_filters n env True probes) (h, ?t0) = (Ok opn, (h', t'))"
      by (auto split: if_splits)
    then show ?thesis
    proof (cases rule: io_then_cases)
      case (Ok s1)
      obtain h1 t1 where s1: "s1 = (h1, t1)" by (cases s1)
      have "drain_after_failure n env (a, b) \<noteq> (Ok (), (h1, t1))" for a b
        using drain_after_failure_run [of n env a b "Ok ()" h1 t1] by blast
      with Ok(1) have "write_binder_transaction_filter_to_binder_bpf_map env (probe_filters probe) (h, ?t0)
          = (Ok (), (h1, t1))"
        unfolding s1 on_err_def by (auto split: prod.splits res.splits if_splits)
      from write_filters_view [OF k this] Cons.IH [OF Ok(2) [unfolded s1]] v0
      show ?thesis by auto
    next
      case (fails r1)
      then show ?thesis by blast
    qed
  qed
qed simp

text \<open>
  The filters that the resolver produces (names are not empty, method codes are positive, see
  \<open>resolved_filters_wf\<close>), with what the resolver does not check: names fit the key and at most ten
  methods per interface.
\<close>

definition filters_ok :: "ResolvedProbe list \<Rightarrow> bool" where
  "filters_ok probes \<longleftrightarrow> list_all (\<lambda>p. hm_wf (probe_filters p) \<and> list_all (\<lambda>(n, ic).
     good_name n \<and> n \<noteq> [] \<and> hm_wf (methods ic) \<and> 0 \<notin> set (method_ids ic) \<and> length (methods ic) \<le> 10)
       (probe_filters p)) probes"

lemma codes_loop_iff:
  assumes "0 \<notin> set ids" and "length ids \<le> 10"
  shows "codes_loop (take 10 (binder_to_c_value ids)) code \<longleftrightarrow> code \<in> set ids"
proof -
  have "codes_loop (ids @ replicate n 0) code \<longleftrightarrow> code \<in> set ids" for n
    using assms(1)
  proof (induction ids)
    case Nil
    then show ?case by (cases n) simp_all
  qed auto
  with assms(2) show ?thesis by (simp add: binder_to_c_value_def)
qed

lemma find_method_entries:
  assumes "filters_ok probes"
  shows "find_method s code probes \<noteq> None \<longleftrightarrow>
    (\<exists>p \<in> set probes. \<exists>ic. (s, ic) \<in> set (probe_filters p) \<and> code \<in> set (method_ids ic))"
proof -
  have wf: "hm_wf (probe_filters p)" "(n, ic) \<in> set (probe_filters p) \<Longrightarrow> hm_wf (methods ic)"
    if "p \<in> set probes" for p n ic
    using that assms unfolding filters_ok_def list_all_iff by fast+
  have "find_method s code probes \<noteq> None \<longleftrightarrow>
      (\<exists>p \<in> set probes. \<exists>ic. map_of (probe_filters p) s = Some ic \<and> get_method ic code \<noteq> None)"
    by (induction probes) (auto split: option.splits)
  also have "\<dots> \<longleftrightarrow> (\<exists>p \<in> set probes. \<exists>ic. (s, ic) \<in> set (probe_filters p) \<and> code \<in> set (method_ids ic))"
    using wf(1) unfolding hm_wf_def
    by (auto simp: get_method_def method_ids_def map_of_eq_None_iff dest: map_of_SomeD)
  finally show ?thesis .
qed

lemma filter_map_hit:
  assumes "Map.graph m = (\<Union>p \<in> set probes. filter_entries (probe_filters p))"
    and "filters_ok probes" and "good_name s"
  shows "(\<exists>codes. m (binder_to_c_key s) = Some codes \<and> codes_loop (take 10 codes) code) \<longleftrightarrow>
    (\<exists>p \<in> set probes. \<exists>ic. (s, ic) \<in> set (probe_filters p) \<and> code \<in> set (method_ids ic))"
proof -
  have ok: "good_name n" "0 \<notin> set (method_ids ic)" "length (method_ids ic) \<le> 10"
    if "p \<in> set probes" "(n, ic) \<in> set (probe_filters p)" for p n ic
    using that assms(2) unfolding filters_ok_def list_all_iff method_ids_def by fastforce+
  have "m c = Some v \<longleftrightarrow> (c, v) \<in> Map.graph m" for c v by (simp add: graph_def)
  then have "m (binder_to_c_key s) = Some v \<longleftrightarrow> (\<exists>p \<in> set probes. \<exists>n ic. (n, ic) \<in> set (probe_filters p)
      \<and> binder_to_c_key n = binder_to_c_key s \<and> v = binder_to_c_value (method_ids ic))" for v
    unfolding assms(1) by (simp add: filter_entries_iff) metis
  moreover have "binder_to_c_key n = binder_to_c_key s \<longleftrightarrow> n = s" if "good_name n" for n
    using binder_from_to_key that assms(3) by metis
  ultimately have "m (binder_to_c_key s) = Some v \<longleftrightarrow> (\<exists>p \<in> set probes. \<exists>ic. (s, ic) \<in> set (probe_filters p)
      \<and> v = binder_to_c_value (method_ids ic))" for v
    using ok(1) by blast
  moreover have "codes_loop (take 10 (binder_to_c_value (method_ids ic))) code \<longleftrightarrow> code \<in> set (method_ids ic)"
    if "p \<in> set probes" "(s, ic) \<in> set (probe_filters p)" for p ic
    by (rule codes_loop_iff [OF ok(2,3) [OF that]])
  ultimately show ?thesis by (metis (full_types))
qed

text \<open>
  C4. Binder filters from the configuration to the kernel and back. The map of filters is a hash map as
  the kernel documents it and is empty before; the task's filters (\<open>filters_ok\<close>) have non-empty interface names that
  are valid UTF-8 of less than 128 bytes without a NUL, at most ten codes for an interface (the value written for
  an interface drops any further one) and no code 0, with no interface twice in a probe and no code twice in an
  interface; and the descriptor of the transaction is an ASCII string of less than 128 bytes in memory that can
  be read. Then, after the filters were written without an error, the program
  that runs on every binder transaction of the traced process submits a transaction exactly when one of
  the task's probes configures its interface and its code; the record carries the calling UID, the code
  and the time, and the handler reads the interface's name back from it, so it finds that configuration.
\<close>

theorem binder_filter_exact:
  assumes "kernel_hash_map env view" and "view t = Map.empty"
    and "setup_binder_transaction_filters fuel env (resolved_probes task) (h, t) = (Ok opened, (h', t'))"
    and "filters_ok (resolved_probes task)"
    and "reads_memory k mem" and "java_string_at mem (r_regs ctx 1 + 8) s" and "ascii s" and "length s < 128"
  shows "exec_transact_internal k (view t') ctx (Some slot) =
      (0, if find_method s (r_regs ctx 2) (resolved_probes task) = None then None
          else Some (slot\<lparr>interface_descriptor := binder_to_c_key s, bt_calling_uid := ucast (r_regs ctx 6),
                      bt_code := r_regs ctx 2, bt_timestamp_ns := ktime_get_ns k\<rparr>))
    \<and> (s = [] \<or> bytes_as_nonempty_str (binder_to_c_key s) = Ok s)"
proof -
  from assms(6) obtain p where p: "java_ref mem (r_regs ctx 1 + 8) p" "java_string mem p s"
    unfolding java_string_at_def by blast
  have nul: "NUL \<notin> set s" using p(2) by (simp add: java_string_def)
  have good: "good_name s" using nul assms(7,8) by (simp add: good_name_def ascii_valid_utf8)
  have view: "Map.graph (view t') = (\<Union>p \<in> set (resolved_probes task). filter_entries (probe_filters p))"
    using setup_filters_view [OF assms(1) assms(3) [unfolded setup_binder_transaction_filters_def]]
    by (simp add: assms(2))
  have "(\<exists>codes. view t' (binder_to_c_key s) = Some codes \<and> codes_loop (take 10 codes) (r_regs ctx 2))
      \<longleftrightarrow> find_method s (r_regs ctx 2) (resolved_probes task) \<noteq> None" (is "?hit \<longleftrightarrow> _")
    unfolding find_method_entries [OF assms(4)]
    by (rule filter_map_hit [OF view assms(4) good])
  moreover have "bytes_as_str (binder_to_c_key s) = Ok s"
    unfolding bytes_as_str_Ok_iff using good binder_key_split [OF assms(8)] by (auto simp: good_name_def)
  ultimately show ?thesis
    unfolding exec_transact_internal_def kBinderDescriptorOffset_def Let_def
      descriptor_key [OF assms(5) p assms(8)]
    by (auto simp: bytes_as_nonempty_str_Ok_iff split: option.split)
qed


subsection \<open>Examples\<close>

text \<open>A traced process with an object at \<open>0x1000\<close> that refers to two strings.\<close>

definition flat_memory :: "u64 \<Rightarrow> char list \<Rightarrow> user_memory" where
  "flat_memory base bs a = (if unat (a - base) < length bs then Some (bs ! unat (a - base)) else None)"

lemma those_Some: "those (map Some xs) = Some xs"
  by (induction xs) simp_all

lemma flat_memory_bytes:
  assumes "unat (a - base) + n \<le> length bs" and "length bs < 2 ^ 64"
  shows "mem_bytes (flat_memory base bs) a n = Some (take n (drop (unat (a - base)) bs))"
proof -
  have "flat_memory base bs (a + word_of_nat i) = Some (bs ! (unat (a - base) + i))" if "i < n" for i
  proof -
    have "unat (a - base + word_of_nat i) = unat (a - base) + i"
      using that assms by (simp add: unat_word_ariths(1) unat_of_nat)
    then have "unat (a + word_of_nat i - base) = unat (a - base) + i" by (simp add: algebra_simps)
    then show ?thesis using that assms(1) by (simp add: flat_memory_def)
  qed
  then have "map (\<lambda>i. flat_memory base bs (a + word_of_nat i)) [0..<n] =
      map Some (take n (drop (unat (a - base)) bs))"
    using assms(1) by (intro nth_equalityI) simp_all
  then show ?thesis unfolding mem_bytes_def by (simp add: those_Some)
qed

definition string_object :: "string \<Rightarrow> char list" where
  "string_object s = replicate 8 NUL @ le_bytes 4 (2 * length s) @ replicate 4 NUL @ s @ [NUL]"

definition example_bytes :: "char list" where
  "example_bytes = replicate 8 NUL @ le_bytes 4 0x1038 @ le_bytes 4 0x104D @ replicate 4 NUL @ le_bytes 4 0
     @ replicate 24 NUL @ le_bytes 4 0x104D @ replicate 4 NUL @ string_object ''IFoo'' @ string_object ''a.b''"

definition example_memory :: user_memory where
  "example_memory = flat_memory 0x1000 example_bytes"

lemma example_memory_bytes:
  "unat (a - 0x1000) + n \<le> 97 \<Longrightarrow>
     mem_bytes example_memory a n = Some (take n (drop (unat (a - 0x1000)) example_bytes))"
  unfolding example_memory_def
  by (rule flat_memory_bytes) (simp_all add: example_bytes_def string_object_def)

definition example_bpf_kernel :: bpf_kernel where
  "example_bpf_kernel = memory_kernel example_memory 55 0x700000008"

definition regs_of :: "(nat \<times> u64) list \<Rightarrow> pt_regs" where
  "regs_of rs = \<lparr>r_regs = (\<lambda>i. case map_of rs i of None \<Rightarrow> 0 | Some v \<Rightarrow> v), r_sp = 0x4000, r_pc = 0\<rparr>"

lemma example_reads: "reads_memory example_bpf_kernel example_memory" "probe_helpers example_bpf_kernel"
  unfolding example_bpf_kernel_def by (rule memory_kernel_ok)+

lemma example_refs:
  "java_ref example_memory 0x1008 0x1038" "java_ref example_memory 0x100C 0x104D"
  "java_ref example_memory 0x1014 0" "java_ref example_memory 0x1030 0x104D"
  by (simp_all add: java_ref_def example_memory_bytes example_bytes_def string_object_def)

lemma example_java_strings: "java_string example_memory 0x1038 ''IFoo''" "java_string example_memory 0x104D ''a.b''"
  by (simp_all add: java_string_def example_memory_bytes example_bytes_def string_object_def)

lemma example_java_strings_at:
  "java_string_at example_memory 0x1008 ''IFoo''" "java_string_at example_memory 0x100C ''a.b''"
  "java_string_at example_memory 0x1030 ''a.b''"
  unfolding java_string_at_def using example_refs example_java_strings by blast+


theorem binder_filter_exact_witness:
  "\<exists>t'. setup_binder_transaction_filters 9 (example_kernel []) (resolved_probes (example_binder_task [CODE]))
         ((), []) = (Ok True, ((), t'))
     \<and> exec_transact_internal example_bpf_kernel (map_of (kernel_contents [] t'))
         (regs_of [(1, 0x1000), (2, 7), (6, 10001)]) (Some example_transaction) =
       (0, Some (example_transaction\<lparr>interface_descriptor := binder_to_c_key ''IFoo'', bt_calling_uid := 10001,
          bt_code := 7, bt_timestamp_ns := 55\<rparr>))
     \<and> exec_transact_internal example_bpf_kernel (map_of (kernel_contents [] t'))
         (regs_of [(1, 0x1000), (2, 8), (6, 10001)]) (Some example_transaction) = (0, None)"
proof -
  let ?task = "example_binder_task [CODE]" and ?ctx = "\<lambda>code. regs_of [(1, 0x1000), (2, code), (6, 10001)]"
  have "\<exists>t'. setup_binder_transaction_filters 9 (example_kernel []) (resolved_probes ?task) ((), []) = (Ok True, ((), t'))"
    by (simp add: setup_binder_transaction_filters_def example_binder_task_def filter_map_open bpf_defs
        write_binder_transaction_filter_to_binder_bpf_map_def on_err_def io_bind_def example_kernel_def
        kernel_contents_def kernel_room_def BinderInterfaceBpfMap_def c_string_def)
  then obtain t' where run: "setup_binder_transaction_filters 9 (example_kernel []) (resolved_probes ?task) ((), [])
      = (Ok True, ((), t'))" by blast
  have ok: "filters_ok (resolved_probes ?task)"
    by (simp add: filters_ok_def example_binder_task_def hm_wf_def good_name_def method_ids_def
        ascii_valid_utf8 ascii_def)
  have at: "java_string_at example_memory (r_regs (?ctx code) 1 + 8) ''IFoo''" for code
    using example_java_strings_at(1) by (simp add: regs_of_def)
  have kern: "kernel_hash_map (example_kernel []) (\<lambda>t. map_of (kernel_contents [] t))"
    by (rule example_kernel_hash_map) simp
  note exact = binder_filter_exact [OF kern _ run ok example_reads(1) at, of _ example_transaction]
  have "exec_transact_internal example_bpf_kernel (map_of (kernel_contents [] t')) (?ctx 7) (Some example_transaction)
      = (0, Some (example_transaction\<lparr>interface_descriptor := binder_to_c_key ''IFoo'', bt_calling_uid := 10001,
          bt_code := 7, bt_timestamp_ns := 55\<rparr>))"
    using exact [of 7] by (simp add: kernel_contents_def ascii_def regs_of_def example_binder_task_def
        get_method_def example_bpf_kernel_def memory_kernel_def)
  moreover have "exec_transact_internal example_bpf_kernel (map_of (kernel_contents [] t')) (?ctx 8)
      (Some example_transaction) = (0, None)"
    using exact [of 8] by (simp add: kernel_contents_def ascii_def regs_of_def example_binder_task_def get_method_def)
  ultimately show ?thesis using run by blast
qed

text \<open>An intent that only names a package.\<close>

definition package_memory :: user_memory where
  "package_memory = flat_memory 0x1000 (replicate 8 NUL @ le_bytes 4 0 @ replicate 8 NUL @ le_bytes 4 0 @ replicate 24 NUL
     @ le_bytes 4 0x1034 @ string_object ''a.b'')"

definition example_bind_slot :: BindServiceLocked where
  "example_bind_slot = \<lparr>bsl_error_code = 0, bsl_intent_action = replicate 128 CHR ''x'',
     bsl_intent_package = replicate 128 CHR ''x'', bsl_intent_component_name_package = replicate 128 CHR ''x'',
     bsl_intent_component_name_class = replicate 128 CHR ''x'', bind_flags = 0,
     bsl_calling_package = replicate 128 CHR ''x''\<rparr>"

lemma package_memory_intent:
  "java_string_or_null_at package_memory 0x1030 (Some ''a.b'')" "java_ref package_memory 0x1008 0"
  "java_ref package_memory 0x1014 0"
proof -
  have bytes: "unat (a - 0x1000) + n \<le> 72 \<Longrightarrow> mem_bytes package_memory a n =
      Some (take n (drop (unat (a - 0x1000)) (replicate 8 NUL @ le_bytes 4 0 @ replicate 8 NUL @ le_bytes 4 0 @ replicate 24 NUL
     @ le_bytes 4 0x1034 @ string_object ''a.b'')))" for a n
    unfolding package_memory_def by (rule flat_memory_bytes) (simp_all add: string_object_def)
  have "java_ref package_memory 0x1030 0x1034" "java_string package_memory 0x1034 ''a.b''"
    by (simp_all add: java_ref_def java_string_def bytes string_object_def)
  then show "java_string_or_null_at package_memory 0x1030 (Some ''a.b'')"
    by (auto simp: java_string_or_null_at_def java_string_at_def ascii_def)
  show "java_ref package_memory 0x1008 0" "java_ref package_memory 0x1014 0"
    by (simp_all add: java_ref_def bytes)
qed

theorem bind_without_component_fails_witness:
  "\<exists>out. bind_service_locked (memory_kernel package_memory 55 7) (regs_of [(4, 0x1000), (7, 0x00100001)])
         (Some example_bind_slot) = (0, Some out)
     \<and> bytes_as_str (bsl_intent_package out) = Ok ''a.b''
     \<and> Bind_on_item (example_device ''user'') example_clock example_bridge
         (CodegenAtomWriter_write example_env) example_resolved out ((), []) = (Err (BpfProgramError (- 14)), ((), []))"
  using bind_without_component_fails [OF memory_kernel_ok(2) [of package_memory 55 7],
      of "regs_of [(4, 0x1000), (7, 0x00100001)]" "Some ''a.b''" None example_bind_slot "example_device ''user''"
      example_clock example_bridge "CodegenAtomWriter_write example_env" example_resolved "((), [])"]
    package_memory_intent
  by (auto simp: regs_of_def java_string_or_null_at_def [of _ _ None] example_bind_slot_def)

definition example_a11y_slot :: AccessibilityEvent where
  "example_a11y_slot = \<lparr>ae_error_code = 0, ae_timestamp_ns = 0, ae_variant = 0,
     ae_package_name = replicate 128 CHR ''x'', ae_permission_name = replicate 128 CHR ''x'', ae_uid = 0, ae_code = 0\<rparr>"

definition gesture_memory :: user_memory where
  "gesture_memory = flat_memory 0x1000 (replicate 8 NUL @ le_bytes 4 0x100C
     @ string_object ''android.accessibilityservice.IAccessibilityServiceConnection'')"

lemma gesture_string:
  "java_string_at gesture_memory 0x1008 ''android.accessibilityservice.IAccessibilityServiceConnection''"
proof -
  have bytes: "unat (a - 0x1000) + n \<le> 89 \<Longrightarrow> mem_bytes gesture_memory a n =
      Some (take n (drop (unat (a - 0x1000)) (replicate 8 NUL @ le_bytes 4 0x100C
        @ string_object ''android.accessibilityservice.IAccessibilityServiceConnection'')))" for a n
    unfolding gesture_memory_def by (rule flat_memory_bytes) (simp_all add: string_object_def)
  have "java_ref gesture_memory 0x1008 0x100C"
    "java_string gesture_memory 0x100C ''android.accessibilityservice.IAccessibilityServiceConnection''"
    by (simp_all add: java_ref_def java_string_def bytes string_object_def)
  then show ?thesis unfolding java_string_at_def by blast
qed

theorem dispatch_gesture_exact_witness:
  "dispatch_gesture (memory_kernel gesture_memory 55 7) (regs_of [(1, 0x1000), (2, 9), (6, 10001)])
     (Some example_a11y_slot) = (0, Some (example_a11y_slot\<lparr>ae_error_code := 0, ae_variant := 2,
       ae_timestamp_ns := 55, ae_uid := 10001, ae_code := 9\<rparr>))"
  using dispatch_gesture_exact [OF memory_kernel_ok(2) [of gesture_memory 55 7],
      of "regs_of [(1, 0x1000), (2, 9), (6, 10001)]"
        "''android.accessibilityservice.IAccessibilityServiceConnection''" example_a11y_slot]
    gesture_string by (simp add: regs_of_def memory_kernel_def)

theorem grant_runtime_permission_reports_witness:
  "\<exists>out. grant_runtime_permission example_bpf_kernel (regs_of [(2, 0x104D), (3, 0x1038)])
           (Some example_a11y_slot) = (0, Some out) \<and> ae_variant out = 1"
  using grant_runtime_permission_reports [OF example_reads(2), of example_a11y_slot "regs_of [(2, 0x104D), (3, 0x1038)]"
      "example_device ''user''" example_bridge example_resolved]
  by (auto simp: example_a11y_slot_def)

definition example_bitmap_slot :: BitmapEvent where
  "example_bitmap_slot = \<lparr>be_type = 0, be_width = 0, be_height = 0, be_scaled_width = 0, be_scaled_height = 0,
     be_pixel_storage_type = 0, bitmap_size = 77, native_ptr = 0, be_activity_name = replicate 128 NUL\<rparr>"

theorem freed_bitmap_size_stale_witness:
  "\<exists>out total. apply_free_function example_bpf_kernel (regs_of [(1, 0x104D)]) (Some example_bitmap_slot)
         {bitmap_key example_bpf_kernel (snd (read_scalar example_bpf_kernel 8 0x105D))} = ((0, Some out), {})
     \<and> BitmapV1_on_item (CodegenAtomWriter_write example_env) example_resolved out
         (BitmapV1_default\<lparr>current_total_bitmap_size := 4096\<rparr>, []) =
         (Ok (), (BitmapV1_default\<lparr>current_total_bitmap_size := total\<rparr>, [])) \<and> sint total = 4019"
  using freed_bitmap_size_stale [of example_bpf_kernel "regs_of [(1, 0x104D)]"
      "snd (read_scalar example_bpf_kernel 8 0x105D)"
      "{bitmap_key example_bpf_kernel (snd (read_scalar example_bpf_kernel 8 0x105D))}"
      "BitmapV1_default\<lparr>current_total_bitmap_size := 4096\<rparr>" example_bitmap_slot
      "CodegenAtomWriter_write example_env" example_resolved "[]"]
  by (simp add: regs_of_def example_bitmap_slot_def BitmapV1_default_def)


end
