(* ===== verification/Bridge_Service.thy ===== *)
theory Bridge_Service
  imports World
begin

section \<open>The bridge service\<close>

text \<open>
  \<open>service/java/com/android/uprobestats/UprobeStatsBridgeServiceImpl.java\<close>, the system service that
  answers the daemon's questions and forwards its events to the configured consumer. The operations
  are functions on the service's state; \<open>bridge_step\<close> interleaves them the way the threads do: binder
  threads run \<open>enqueueEvent\<close> up to and after its synchronized block, the flush handler runs posted
  and elapsed runnables, and the main thread, on which Android calls a \<open>ServiceConnection\<close>, runs the
  sending loops one after the other.
\<close>

definition EVENT_BUFFER_CAPACITY :: nat where "EVENT_BUFFER_CAPACITY = 128"
definition FLUSH_TIMEOUT :: nat where "FLUSH_TIMEOUT = 12 * 60 * 60 * 1000"
definition TEST_FLUSH_TIMEOUT :: nat where "TEST_FLUSH_TIMEOUT = 10 * 1000"

datatype java_exception = SecurityException

text \<open>Where a binder thread is inside \<open>enqueueEvent\<close>, and the main thread inside \<open>onServiceConnected\<close>.\<close>

datatype caller = Checked AidlEvent bool | Added nat bool

datatype main_thread = Main_Idle | Fetching | Holding "AidlEvent list"

text \<open>\<open>accepted\<close> and \<open>sent\<close> record what was put into the buffer and what happened to every batch.\<close>

record bridge_state =
  mEventBuffer :: "AidlEvent list"
  event_consumer :: "string option"
  flushTimeout :: nat
  callers :: "caller multiset"
  posted :: nat
  delayed :: "nat multiset"
  bound :: nat
  main_thread :: main_thread
  accepted :: "AidlEvent list"
  sent :: "(bool \<times> AidlEvent list) list"

definition bridge_init :: "string option \<Rightarrow> bridge_state" where
  "bridge_init c = \<lparr>mEventBuffer = [], event_consumer = c, flushTimeout = FLUSH_TIMEOUT, callers = {#},
     posted = 0, delayed = {#}, bound = 0, main_thread = Main_Idle, accepted = [], sent = []\<rparr>"

subsection \<open>Queries\<close>

text \<open>
  What the queries use of the platform: whether the caller holds the permission, the names of the
  activities that a launcher intent for a package resolves to, the UIDs of the installed packages and
  the packages of the enabled accessibility services (\<^const>\<open>None\<close> without the manager).
\<close>

record platform =
  has_permission :: bool
  launcher_activities :: "string \<Rightarrow> bool \<Rightarrow> string list"
  package_uid :: "string \<Rightarrow> i32 option"
  enabled_a11y_packages :: "string list option"

definition enforceCallingPermission :: "platform \<Rightarrow> 'a \<Rightarrow> java_exception + 'a" where
  "enforceCallingPermission p x = (if has_permission p then Inr x else Inl SecurityException)"

fun activity_loop :: "string list \<Rightarrow> string \<Rightarrow> bool" where
  "activity_loop [] className = False"
| "activity_loop (name # activities) className =
     (if name = className then True else activity_loop activities className)"

definition isLauncherActivity_impl :: "platform \<Rightarrow> string \<Rightarrow> string \<Rightarrow> bool \<Rightarrow> java_exception + bool" where
  "isLauncherActivity_impl p packageName className matchDisabled =
     enforceCallingPermission p (activity_loop (launcher_activities p packageName matchDisabled) className)"

definition getUidForPackage_impl :: "platform \<Rightarrow> string \<Rightarrow> java_exception + i32" where
  "getUidForPackage_impl p packageName =
     enforceCallingPermission p (case package_uid p packageName of Some uid \<Rightarrow> uid | None \<Rightarrow> - 1)"

definition packageHasEnabledAccessibilityService_impl ::
  "platform \<Rightarrow> string \<Rightarrow> java_exception + bool" where
  "packageHasEnabledAccessibilityService_impl p packageName =
     enforceCallingPermission p
       (case enabled_a11y_packages p of None \<Rightarrow> False | Some services \<Rightarrow> activity_loop services packageName)"

subsection \<open>The event buffer\<close>

fun poll_batch :: "nat \<Rightarrow> 'e list \<Rightarrow> 'e list \<times> 'e list" where
  "poll_batch 0 buf = ([], buf)"
| "poll_batch (Suc i) [] = ([], [])"
| "poll_batch (Suc i) (e # buf) = (case poll_batch i buf of (batch, rest) \<Rightarrow> (e # batch, rest))"

definition getNextBatch :: "bridge_state \<Rightarrow> AidlEvent list \<times> bridge_state" where
  "getNextBatch s =
     (case poll_batch EVENT_BUFFER_CAPACITY (mEventBuffer s) of
        (batch, rest) \<Rightarrow> (batch, s\<lparr>mEventBuffer := rest\<rparr>))"

text \<open>\<open>success\<close> is the result of \<open>bindServiceAsUser\<close>.\<close>

definition bindConsumerIfNeeded :: "bool \<Rightarrow> bridge_state \<Rightarrow> bridge_state" where
  "bindConsumerIfNeeded success s =
     (case event_consumer s of
        None \<Rightarrow> s
      | Some component \<Rightarrow>
          if mEventBuffer s = [] then s
          else if success then s\<lparr>bound := Suc (bound s)\<rparr> else s)"

text \<open>One round of the loop of \<open>onServiceConnected\<close>: fetching a batch, and sending it; the loop ends
  (and the service is unbound) on an empty batch and on a \<open>RemoteException\<close>.\<close>

definition onServiceConnected_fetch :: "bridge_state \<Rightarrow> bridge_state" where
  "onServiceConnected_fetch s =
     (case getNextBatch s of (batch, s) \<Rightarrow>
        s\<lparr>main_thread := (if batch = [] then Main_Idle else Holding batch)\<rparr>)"

definition onServiceConnected_send :: "bool \<Rightarrow> AidlEvent list \<Rightarrow> bridge_state \<Rightarrow> bridge_state" where
  "onServiceConnected_send ok batch s =
     s\<lparr>sent := sent s @ [(ok, batch)], main_thread := (if ok then Fetching else Main_Idle)\<rparr>"

text \<open>The three parts of \<open>enqueueEvent\<close>: the checks, the synchronized block, and the posting.\<close>

definition enqueue_check :: "platform \<Rightarrow> AidlEvent \<Rightarrow> bool \<Rightarrow> bridge_state \<Rightarrow> java_exception + bridge_state" where
  "enqueue_check p event flsh s =
     enforceCallingPermission p
       (if event_consumer s = None then s
        else s\<lparr>callers := add_mset (Checked event flsh) (callers s)\<rparr>)"

definition enqueue_add :: "AidlEvent \<Rightarrow> bool \<Rightarrow> bridge_state \<Rightarrow> bridge_state" where
  "enqueue_add event flsh s =
     (let buf = mEventBuffer s @ [event]; sz = length buf in
      s\<lparr>mEventBuffer := buf, accepted := accepted s @ [event],
        callers := add_mset (Added sz flsh) (callers s - {#Checked event flsh#})\<rparr>)"

definition enqueue_post :: "nat \<Rightarrow> bool \<Rightarrow> bridge_state \<Rightarrow> bridge_state" where
  "enqueue_post sz flsh s =
     (let bufferFull = (sz \<ge> EVENT_BUFFER_CAPACITY); firstEvent = (sz = 1);
          s = s\<lparr>callers := callers s - {#Added sz flsh#}\<rparr> in
      if flsh \<or> bufferFull then s\<lparr>posted := Suc (posted s)\<rparr>
      else if firstEvent then s\<lparr>delayed := add_mset (flushTimeout s) (delayed s)\<rparr>
      else s)"

definition enableTestMode :: "platform \<Rightarrow> string \<Rightarrow> bridge_state \<Rightarrow> java_exception + bool \<times> bridge_state" where
  "enableTestMode p component s =
     enforceCallingPermission p (True, s\<lparr>event_consumer := Some component, flushTimeout := TEST_FLUSH_TIMEOUT\<rparr>)"

definition disableTestMode :: "platform \<Rightarrow> bridge_state \<Rightarrow> java_exception + bool \<times> bridge_state" where
  "disableTestMode p s =
     enforceCallingPermission p (True, s\<lparr>event_consumer := None, flushTimeout := FLUSH_TIMEOUT\<rparr>)"

text \<open>\<open>woken\<close> is the state when \<open>wait\<close> returns, notified or after twice the flush timeout.\<close>

definition waitQueueFlushed :: "platform \<Rightarrow> bridge_state \<Rightarrow> bridge_state \<Rightarrow> java_exception + bool" where
  "waitQueueFlushed p s woken =
     enforceCallingPermission p (if mEventBuffer s = [] then True else mEventBuffer woken = [])"

subsection \<open>The threads\<close>

datatype bridge_label =
    Call AidlEvent bool
  | Add
  | Post
  | Elapse
  | Run bool
  | Connected
  | NullBinding
  | Fetch
  | Send bool
  | TestMode bool

inductive bridge_step :: "platform \<Rightarrow> bridge_state \<Rightarrow> bridge_label \<Rightarrow> bridge_state \<Rightarrow> bool" for p where
  call: "enqueue_check p event flsh s = Inr s' \<Longrightarrow> bridge_step p s (Call event flsh) s'"
| add: "Checked event flsh \<in># callers s \<Longrightarrow> bridge_step p s Add (enqueue_add event flsh s)"
| post: "Added sz flsh \<in># callers s \<Longrightarrow> bridge_step p s Post (enqueue_post sz flsh s)"
| elapse: "d \<in># delayed s \<Longrightarrow>
    bridge_step p s Elapse (s\<lparr>delayed := delayed s - {#d#}, posted := Suc (posted s)\<rparr>)"
| run: "posted s = Suc n \<Longrightarrow> bridge_step p s (Run ok) (bindConsumerIfNeeded ok (s\<lparr>posted := n\<rparr>))"
| connected: "bound s = Suc n \<Longrightarrow> main_thread s = Main_Idle \<Longrightarrow>
    bridge_step p s Connected (s\<lparr>bound := n, main_thread := Fetching\<rparr>)"
| onNullBinding: "bound s = Suc n \<Longrightarrow> main_thread s = Main_Idle \<Longrightarrow>
    bridge_step p s NullBinding (s\<lparr>bound := n\<rparr>)"
| fetch: "main_thread s = Fetching \<Longrightarrow> bridge_step p s Fetch (onServiceConnected_fetch s)"
| send: "main_thread s = Holding batch \<Longrightarrow> bridge_step p s (Send ok) (onServiceConnected_send ok batch s)"
| test_on: "enableTestMode p component s = Inr (b, s') \<Longrightarrow> bridge_step p s (TestMode True) s'"
| test_off: "disableTestMode p s = Inr (b, s') \<Longrightarrow> bridge_step p s (TestMode False) s'"

inductive bridge_run :: "platform \<Rightarrow> bridge_state \<Rightarrow> bridge_label list \<Rightarrow> bridge_state \<Rightarrow> bool" for p where
  nil: "bridge_run p s [] s"
| snoc: "bridge_run p s ls s' \<Longrightarrow> bridge_step p s' l s'' \<Longrightarrow> bridge_run p s (ls @ [l]) s''"

inductive_cases bridge_step_elim: "bridge_step p s l s'"

lemmas bridge_service_defs = enforceCallingPermission_def enqueue_check_def enqueue_add_def enqueue_post_def
  bindConsumerIfNeeded_def onServiceConnected_fetch_def onServiceConnected_send_def getNextBatch_def
  enableTestMode_def disableTestMode_def Let_def

lemma poll_batch_eq: "poll_batch n buf = (take n buf, drop n buf)"
proof (induction n arbitrary: buf)
  case (Suc n)
  then show ?case by (cases buf) simp_all
qed simp

subsection \<open>Order and loss\<close>

fun held :: "main_thread \<Rightarrow> AidlEvent list" where
  "held (Holding batch) = batch"
| "held _ = []"

text \<open>
  What the service promises: a channel that keeps the order, delivers in batches of at most 128
  events and may lose a batch, but neither duplicates nor reorders.
\<close>

record channel =
  pending :: "AidlEvent list"
  outcome :: "(bool \<times> AidlEvent list) list"

inductive channel_step :: "channel \<Rightarrow> channel \<Rightarrow> bool" where
  accept: "channel_step \<lparr>pending = q, outcome = out\<rparr> \<lparr>pending = q @ [e], outcome = out\<rparr>"
| deliver: "batch \<noteq> [] \<Longrightarrow> length batch \<le> 128 \<Longrightarrow>
    channel_step \<lparr>pending = batch @ q, outcome = out\<rparr> \<lparr>pending = q, outcome = out @ [(ok, batch)]\<rparr>"

definition channel_of :: "bridge_state \<Rightarrow> channel" where
  "channel_of s = \<lparr>pending = held (main_thread s) @ mEventBuffer s, outcome = sent s\<rparr>"

definition bridge_inv :: "bridge_state \<Rightarrow> bool" where
  "bridge_inv s \<longleftrightarrow> accepted s = concat (map snd (sent s)) @ held (main_thread s) @ mEventBuffer s
     \<and> (\<forall>batch. main_thread s = Holding batch \<longrightarrow> batch \<noteq> [] \<and> length batch \<le> 128)
     \<and> list_all (\<lambda>(ok, batch). batch \<noteq> [] \<and> length batch \<le> 128) (sent s)"

lemma bridge_inv_step: "bridge_step p s l s' \<Longrightarrow> bridge_inv s \<Longrightarrow> bridge_inv s'"
  by (erule bridge_step_elim)
    (auto simp: bridge_inv_def bridge_service_defs poll_batch_eq EVENT_BUFFER_CAPACITY_def split: option.splits if_splits)

lemma bridge_inv_run: "bridge_run p s ls s' \<Longrightarrow> bridge_inv s \<Longrightarrow> bridge_inv s'"
  by (induction rule: bridge_run.induct) (simp_all add: bridge_inv_step)

lemma bridge_inv_init: "bridge_inv (bridge_init c)"
  by (simp add: bridge_inv_def bridge_init_def)


lemma bridge_simulation:
  assumes "bridge_step p s l s'" and "bridge_inv s"
  shows "channel_of s' = channel_of s \<or> channel_step (channel_of s) (channel_of s')"
  using assms(1)
proof cases
  case (add event flsh)
  then have "channel_of s' = \<lparr>pending = pending (channel_of s) @ [event], outcome = outcome (channel_of s)\<rparr>"
    by (simp add: channel_of_def bridge_service_defs)
  then show ?thesis using accept [of "pending (channel_of s)" "outcome (channel_of s)" event]
    by (simp add: channel_of_def)
next
  case (send batch ok)
  then show ?thesis using assms(2) deliver [of batch "mEventBuffer s" "sent s" ok]
    by (cases ok) (simp_all add: channel_of_def bridge_service_defs bridge_inv_def)
qed (auto simp: channel_of_def bridge_service_defs poll_batch_eq split: option.splits if_splits)

lemma bridge_run_channel:
  "bridge_run p s ls s' \<Longrightarrow> bridge_inv s \<Longrightarrow> channel_step\<^sup>*\<^sup>* (channel_of s) (channel_of s')"
proof (induction rule: bridge_run.induct)
  case (snoc s ls s' l s'')
  from bridge_simulation [OF snoc.hyps(2) bridge_inv_run [OF snoc.hyps(1) snoc.prems]] snoc.IH [OF snoc.prems]
  show ?case by (auto intro: rtranclp.rtrancl_into_rtrancl)
qed simp

text \<open>
  C5. The bridge service refines a first-in-first-out channel: whatever the interleaving of binder
  threads, flush handler and main thread, every run of the service is a run of a channel that
  delivers or loses whole batches of at most 128 events from the front of its queue. The events that
  were accepted are, in order, those of the batches sent, those in hand and those in the buffer:
  nothing is duplicated or reordered.
\<close>

theorem bridge_refines_channel:
  assumes "bridge_run p (bridge_init c) ls s"
  shows "channel_step\<^sup>*\<^sup>* \<lparr>pending = [], outcome = []\<rparr> (channel_of s)
    \<and> accepted s = concat (map snd (outcome (channel_of s))) @ pending (channel_of s)"
proof
  show "channel_step\<^sup>*\<^sup>* \<lparr>pending = [], outcome = []\<rparr> (channel_of s)"
    using bridge_run_channel [OF assms bridge_inv_init] by (simp add: channel_of_def bridge_init_def)
  show "accepted s = concat (map snd (outcome (channel_of s))) @ pending (channel_of s)"
    using bridge_inv_run [OF assms bridge_inv_init] by (simp add: bridge_inv_def channel_of_def)
qed

subsection \<open>Delivery\<close>

text \<open>The steps the service takes on its own, when nothing fails.\<close>

definition internal :: "bridge_label \<Rightarrow> bool" where
  "internal l \<longleftrightarrow> l \<in> {Add, Post, Elapse, Run True, Connected, Fetch, Send True}"

definition no_failure :: "bridge_label \<Rightarrow> bool" where
  "no_failure l \<longleftrightarrow> l \<notin> {Run False, NullBinding, Send False, TestMode False}"

definition quiescent :: "platform \<Rightarrow> bridge_state \<Rightarrow> bool" where
  "quiescent p s \<longleftrightarrow> (\<forall>l s'. internal l \<longrightarrow> \<not> bridge_step p s l s')"

fun wakes :: "caller \<Rightarrow> bool" where
  "wakes (Checked e flsh) = False"
| "wakes (Added sz flsh) \<longleftrightarrow> flsh \<or> sz \<ge> 128 \<or> sz = 1"

definition flush_pending :: "bridge_state \<Rightarrow> bool" where
  "flush_pending s \<longleftrightarrow> (\<exists>c \<in># callers s. wakes c) \<or> posted s > 0 \<or> delayed s \<noteq> {#} \<or> bound s > 0
     \<or> main_thread s \<noteq> Main_Idle"

definition flush_inv :: "bridge_state \<Rightarrow> bool" where
  "flush_inv s \<longleftrightarrow> event_consumer s \<noteq> None \<and> (mEventBuffer s \<noteq> [] \<longrightarrow> flush_pending s)
     \<and> list_all fst (sent s)"

fun weight :: "caller \<Rightarrow> nat" where
  "weight (Checked e flsh) = 8"
| "weight (Added sz flsh) = 5"

fun main_work :: "main_thread \<Rightarrow> nat" where
  "main_work Main_Idle = 0"
| "main_work Fetching = 1"
| "main_work (Holding b) = 2"

definition work :: "bridge_state \<Rightarrow> nat" where
  "work s = (\<Sum>c \<in># callers s. weight c) + 3 * posted s + 4 * size (delayed s) + 2 * bound s
     + main_work (main_thread s) + 2 * length (mEventBuffer s)"

lemma remove_sleeper:
  "\<not> wakes c \<Longrightarrow> (\<exists>c' \<in># M - {#c#}. wakes c') \<longleftrightarrow> (\<exists>c' \<in># M. wakes c')"
  by (metis in_diffD insert_DiffM insert_noteq_member diff_single_trivial)

lemma flush_inv_step:
  assumes "bridge_step p s l s'" and "no_failure l" and "flush_inv s"
  shows "flush_inv s'"
  using assms(1)
proof cases
  case (add event flsh)
  show ?thesis
  proof (cases "mEventBuffer s")
    case Nil
    with add assms(3) show ?thesis by (auto simp: flush_inv_def flush_pending_def bridge_service_defs)
  next
    case (Cons e es)
    with assms(3) have "flush_pending s" by (simp add: flush_inv_def)
    moreover have "(\<exists>c \<in># callers s - {#Checked event flsh#}. wakes c) \<longleftrightarrow> (\<exists>c \<in># callers s. wakes c)"
      by (rule remove_sleeper) simp
    ultimately have "flush_pending s'" unfolding flush_pending_def add bridge_service_defs by auto
    with add assms(3) show ?thesis by (auto simp: flush_inv_def bridge_service_defs)
  qed
next
  case (post sz flsh)
  have "(\<exists>c \<in># callers s - {#Added sz flsh#}. wakes c) \<longleftrightarrow> (\<exists>c \<in># callers s. wakes c)"
    if "\<not> wakes (Added sz flsh)" by (rule remove_sleeper [OF that])
  with post assms(3) show ?thesis
    by (auto simp: flush_inv_def flush_pending_def bridge_service_defs EVENT_BUFFER_CAPACITY_def)
qed (use assms(2,3) in \<open>auto simp: flush_inv_def flush_pending_def bridge_service_defs poll_batch_eq no_failure_def
    EVENT_BUFFER_CAPACITY_def split: option.splits if_splits\<close>)

lemma internal_decreases:
  assumes "bridge_step p s l s'" and "internal l"
  shows "work s' < work s"
  using assms(1)
proof cases
  case (add event flsh)
  then obtain M where "callers s = add_mset (Checked event flsh) M" by (metis multi_member_split)
  with add show ?thesis by (simp add: work_def bridge_service_defs)
next
  case (post sz flsh)
  then obtain M where "callers s = add_mset (Added sz flsh) M" by (metis multi_member_split)
  with post show ?thesis by (simp add: work_def bridge_service_defs)
next
  case (elapse d)
  then obtain M where "delayed s = add_mset d M" by (metis multi_member_split)
  with elapse show ?thesis by (simp add: work_def)
next
  case fetch
  then show ?thesis
    by (cases "mEventBuffer s") (simp_all add: work_def bridge_service_defs poll_batch_eq EVENT_BUFFER_CAPACITY_def)
qed (use assms(2) in \<open>auto simp: work_def bridge_service_defs internal_def split: option.splits\<close>)


lemma flush_inv_run:
  "bridge_run p s ls s' \<Longrightarrow> flush_inv s \<Longrightarrow> list_all no_failure ls \<Longrightarrow> flush_inv s'"
  by (induction rule: bridge_run.induct) (simp_all add: flush_inv_step)

lemma internal_run_bound:
  "bridge_run p s ls s' \<Longrightarrow> list_all internal ls \<Longrightarrow> length ls + work s' \<le> work s"
proof (induction rule: bridge_run.induct)
  case (snoc s ls s' l s'')
  then show ?case using internal_decreases [OF snoc.hyps(2)] by simp
qed simp

lemma bridge_run_trans: "bridge_run p s ls s' \<Longrightarrow> bridge_run p s' ls' s'' \<Longrightarrow> bridge_run p s (ls @ ls') s''"
  by (rotate_tac, induction rule: bridge_run.induct) (auto simp flip: append_assoc intro: bridge_run.snoc)

lemma bridge_run_one: "bridge_step p s l s' \<Longrightarrow> bridge_run p s [l] s'"
  using bridge_run.snoc [OF bridge_run.nil] by fastforce

lemma internal_run_to_quiescence: "\<exists>ls s'. bridge_run p s ls s' \<and> list_all internal ls \<and> quiescent p s'"
proof (induction "work s" arbitrary: s rule: less_induct)
  case less
  show ?case
  proof (cases "quiescent p s")
    case False
    then obtain l s1 where 1: "internal l" "bridge_step p s l s1" by (auto simp: quiescent_def)
    from less [OF internal_decreases [OF 1(2,1)]] obtain ls s' where
      "bridge_run p s1 ls s'" "list_all internal ls" "quiescent p s'" by blast
    with 1 bridge_run_trans [OF bridge_run_one [OF 1(2)]] show ?thesis
      by (intro exI [of _ "[l] @ ls"] exI [of _ s']) simp
  next
    case True
    have "bridge_run p s [] s \<and> list_all internal []" by (simp add: bridge_run.nil)
    with True show ?thesis by blast
  qed
qed

text \<open>A service without a step of its own has nothing in flight.\<close>

lemma quiescentD:
  assumes "quiescent p s"
  shows "callers s = {#}" and "posted s = 0" and "delayed s = {#}" and "bound s = 0" and "main_thread s = Main_Idle"
proof -
  have no: "\<not> bridge_step p s l s'" if "internal l" for l s' using assms that by (simp add: quiescent_def)
  show "callers s = {#}"
  proof (rule ccontr)
    assume "callers s \<noteq> {#}"
    then obtain c where "c \<in># callers s" by (meson multiset_nonemptyE)
    then show False using no [of Add] no [of Post] by (cases c) (auto simp: internal_def intro: bridge_step.intros)
  qed
  show "posted s = 0" using no [of "Run True"] bridge_step.run [of s _ p True]
    by (cases "posted s") (auto simp: internal_def)
  show "delayed s = {#}" using no [of Elapse] by (metis bridge_step.elapse insertCI internal_def multiset_nonemptyE)
  show idle: "main_thread s = Main_Idle"
    using no [of Fetch] no [of "Send True"] by (cases "main_thread s") (auto simp: internal_def intro: bridge_step.intros)
  show "bound s = 0" using no [of Connected] bridge_step.connected [OF _ idle]
    by (cases "bound s") (auto simp: internal_def)
qed

text \<open>
  C6. Events are delivered. As long as the consumer stays configured, binding succeeds and the
  consumer accepts the batches, every buffered event has something in flight that will flush it:
  from every state, the service's own steps come to an end after at most \<open>work s\<close> of them, whatever
  their order, and when no such step is left the buffer is empty and every event that was accepted
  has been delivered, in order.
\<close>

theorem bridge_delivers:
  assumes "bridge_run p (bridge_init (Some c)) ls s" and "list_all no_failure ls"
  shows "(\<exists>is s'. bridge_run p s is s' \<and> list_all internal is \<and> quiescent p s')
    \<and> (\<forall>is s'. bridge_run p s is s' \<and> list_all internal is \<longrightarrow> length is \<le> work s
         \<and> (quiescent p s' \<longrightarrow> mEventBuffer s' = [] \<and> concat (map snd (sent s')) = accepted s'
              \<and> list_all fst (sent s')))"
proof (intro conjI allI impI; (elim conjE)?)
  show "\<exists>is s'. bridge_run p s is s' \<and> list_all internal is \<and> quiescent p s'"
    by (rule internal_run_to_quiescence)
  fix "is" s' assume r: "bridge_run p s is s'" "list_all internal is"
  show "length is \<le> work s" using internal_run_bound [OF r] by simp
  assume q: "quiescent p s'"
  have "list_all no_failure is" using r(2) by (auto simp: list_all_iff internal_def no_failure_def)
  moreover have "flush_inv s" by (rule flush_inv_run [OF assms(1) _ assms(2)]) (simp add: flush_inv_def bridge_init_def)
  ultimately have inv: "flush_inv s'" using flush_inv_run [OF r(1)] by blast
  then show empty: "mEventBuffer s' = []" using quiescentD [OF q] by (auto simp: flush_inv_def flush_pending_def)
  show "list_all fst (sent s')" using inv by (simp add: flush_inv_def)
  have "bridge_inv s'" using bridge_inv_run [OF r(1) bridge_inv_run [OF assms(1) bridge_inv_init]] .
  then show "concat (map snd (sent s')) = accepted s'"
    using empty quiescentD(5) [OF q] by (simp add: bridge_inv_def)
qed


subsection \<open>Failures\<close>

lemma idle_quiescent:
  "callers s = {#} \<Longrightarrow> posted s = 0 \<Longrightarrow> delayed s = {#} \<Longrightarrow> bound s = 0 \<Longrightarrow> main_thread s = Main_Idle \<Longrightarrow>
     quiescent p s"
  by (auto simp: quiescent_def internal_def elim: bridge_step_elim)

text \<open>One whole call of \<open>enqueueEvent\<close> that does not ask for a flush.\<close>

definition enqueue_labels :: "AidlEvent \<Rightarrow> bridge_label list" where
  "enqueue_labels e = [Call e False, Add, Post]"

text \<open>The service with a given buffer and nothing in flight, and one call of \<open>enqueueEvent\<close> on it.\<close>

abbreviation stranded :: "string \<Rightarrow> AidlEvent list \<Rightarrow> bridge_state" where
  "stranded c es \<equiv> (bridge_init (Some c))\<lparr>mEventBuffer := es, accepted := es\<rparr>"

lemma enqueue_stranded:
  assumes "has_permission p"
  shows "bridge_run p (stranded c es) [Call e flsh, Add, Post]
    (if flsh \<or> 128 \<le> Suc (length es) then (stranded c (es @ [e]))\<lparr>posted := 1\<rparr>
     else if es = [] then (stranded c (es @ [e]))\<lparr>delayed := {#FLUSH_TIMEOUT#}\<rparr>
     else stranded c (es @ [e]))"
proof -
  let ?s1 = "(stranded c es)\<lparr>callers := {#Checked e flsh#}\<rparr>"
  let ?s2 = "(stranded c (es @ [e]))\<lparr>callers := {#Added (Suc (length es)) flsh#}\<rparr>"
  have 1: "bridge_step p (stranded c es) (Call e flsh) ?s1"
    using assms by (intro bridge_step.call) (simp add: bridge_service_defs bridge_init_def)
  have "bridge_step p ?s1 Add (enqueue_add e flsh ?s1)" by (rule bridge_step.add) simp
  then have 2: "bridge_step p ?s1 Add ?s2" by (simp add: enqueue_add_def bridge_init_def Let_def)
  have 3: "bridge_step p ?s2 Post (enqueue_post (Suc (length es)) flsh ?s2)" by (rule bridge_step.post) simp
  from bridge_run.snoc [OF bridge_run.snoc [OF bridge_run_one [OF 1] 2] 3]
  have "bridge_run p (stranded c es) [Call e flsh, Add, Post] (enqueue_post (Suc (length es)) flsh ?s2)" by simp
  then show ?thesis
    by (auto simp: enqueue_post_def bridge_init_def EVENT_BUFFER_CAPACITY_def Let_def split: if_splits)
qed

lemma enqueue_many_stranded:
  assumes "has_permission p" and "as \<noteq> []" and "length as + length es < 128"
  shows "bridge_run p (stranded c as) (concat (map enqueue_labels es)) (stranded c (as @ es))"
  using assms(2,3)
proof (induction es arbitrary: as)
  case Nil
  show ?case by (simp add: bridge_run.nil)
next
  case (Cons e es)
  have "bridge_run p (stranded c as) (enqueue_labels e) (stranded c (as @ [e]))"
    using enqueue_stranded [OF assms(1), where c = c and es = as and e = e and flsh = False] Cons.prems
    by (simp add: enqueue_labels_def split: if_splits)
  from bridge_run_trans [OF this Cons.IH [of "as @ [e]"]] Cons.prems show ?case by simp
qed

lemma failed_bind_run:
  assumes "has_permission p"
  shows "bridge_run p (bridge_init (Some c)) (enqueue_labels e @ [Elapse, Run False]) (stranded c [e])"
proof -
  let ?s1 = "(stranded c [e])\<lparr>delayed := {#FLUSH_TIMEOUT#}\<rparr>" and ?s2 = "(stranded c [e])\<lparr>posted := 1\<rparr>"
  have init: "stranded c [] = bridge_init (Some c)" by (simp add: bridge_init_def)
  have 1: "bridge_run p (bridge_init (Some c)) (enqueue_labels e) ?s1"
    using enqueue_stranded [OF assms, where c = c and es = "[]" and e = e and flsh = False]
    unfolding init enqueue_labels_def by simp
  have "bridge_step p ?s1 Elapse (?s1\<lparr>delayed := {#}, posted := Suc (posted ?s1)\<rparr>)"
    using bridge_step.elapse [of FLUSH_TIMEOUT ?s1 p] by simp
  then have 2: "bridge_step p ?s1 Elapse ?s2" by (simp add: bridge_init_def)
  have "bridge_step p ?s2 (Run False) (bindConsumerIfNeeded False (?s2\<lparr>posted := 0\<rparr>))"
    by (rule bridge_step.run) simp
  then have 3: "bridge_step p ?s2 (Run False) (stranded c [e])" by (simp add: bindConsumerIfNeeded_def bridge_init_def)
  from bridge_run.snoc [OF bridge_run.snoc [OF 1 2] 3] show ?thesis by simp
qed

text \<open>
  C28. A single failed binding strands events. The run is given step by step, with the consumer configured
  throughout: the first event is enqueued without a flush, its timer elapses, the runnable asks for the
  binding and \<open>bindServiceAsUser\<close> fails; then up to 126 more events are enqueued, one after the other and
  none with a flush. This run is possible, and at its end all these events are accepted and in the buffer,
  none was sent, and no step of the service is left that could send them: the binding is not
  tried again, and the later events start no timer because the buffer is not empty.
\<close>

theorem failed_bind_strands_events:
  assumes "has_permission p" and "length es < 127"
  shows "\<exists>s. bridge_run p (bridge_init (Some c))
      (enqueue_labels e @ [Elapse, Run False] @ concat (map enqueue_labels es)) s
    \<and> mEventBuffer s = e # es \<and> accepted s = e # es \<and> sent s = []
    \<and> event_consumer s = Some c \<and> quiescent p s"
proof -
  have "bridge_run p (stranded c [e]) (concat (map enqueue_labels es)) (stranded c (e # es))"
    using enqueue_many_stranded [OF assms(1), of "[e]" es c] assms(2) by simp
  with failed_bind_run [OF assms(1), of c e]
  have "bridge_run p (bridge_init (Some c)) ((enqueue_labels e @ [Elapse, Run False]) @ concat (map enqueue_labels es))
      (stranded c (e # es))" by (rule bridge_run_trans)
  moreover have "quiescent p (stranded c (e # es))" by (rule idle_quiescent) (simp_all add: bridge_init_def)
  ultimately show ?thesis by (intro exI [of _ "stranded c (e # es)"]) (simp add: bridge_init_def)
qed


subsection \<open>The service behind the daemon's interface\<close>

text \<open>
  The daemon's view of the service (\<^typ>\<open>bridge\<close>) with the Java implementation behind it: an exception
  is a failed transaction. The answers do not depend on what the daemon did before.
\<close>

definition java_result :: "java_exception + 'a \<Rightarrow> 'a option" where
  "java_result r = (case r of Inl e \<Rightarrow> None | Inr x \<Rightarrow> Some x)"

definition java_bridge :: "platform \<Rightarrow> (trace \<Rightarrow> bridge_state) \<Rightarrow> bridge" where
  "java_bridge p st =
     \<lparr>bridge_interface = True,
      is_launcher_activity = (\<lambda>t pkg cls m. java_result (isLauncherActivity_impl p pkg cls m)),
      get_uid_for_package = (\<lambda>t pkg. java_result (getUidForPackage_impl p pkg)),
      package_has_enabled_a11y_service = (\<lambda>t pkg. java_result (packageHasEnabledAccessibilityService_impl p pkg)),
      enqueue_event_ok = (\<lambda>t ev flsh. java_result (enqueue_check p ev flsh (st t)) \<noteq> None)\<rparr>"

lemma activity_loop_iff: "activity_loop names name \<longleftrightarrow> name \<in> set names"
  by (induction names) auto

lemma java_bridge_answers:
  assumes "has_permission p"
  shows "is_launcher_activity (java_bridge p st) t pkg cls m = Some (cls \<in> set (launcher_activities p pkg m))"
    and "get_uid_for_package (java_bridge p st) t pkg = Some (case package_uid p pkg of Some uid \<Rightarrow> uid | None \<Rightarrow> - 1)"
    and "package_has_enabled_a11y_service (java_bridge p st) t pkg =
      Some (case enabled_a11y_packages p of None \<Rightarrow> False | Some ps \<Rightarrow> pkg \<in> set ps)"
    and "enqueue_event_ok (java_bridge p st) t ev flsh"
  using assms by (simp_all add: java_bridge_def java_result_def isLauncherActivity_impl_def getUidForPackage_impl_def
      packageHasEnabledAccessibilityService_impl_def enqueue_check_def enforceCallingPermission_def
      activity_loop_iff split: option.split)

lemma java_bridge_denied:
  assumes "\<not> has_permission p"
  shows "is_launcher_activity (java_bridge p st) t pkg cls m = None"
    and "get_uid_for_package (java_bridge p st) t pkg = None"
    and "package_has_enabled_a11y_service (java_bridge p st) t pkg = None"
    and "\<not> enqueue_event_ok (java_bridge p st) t ev flsh"
  using assms by (simp_all add: java_bridge_def java_result_def isLauncherActivity_impl_def getUidForPackage_impl_def
      packageHasEnabledAccessibilityService_impl_def enqueue_check_def enforceCallingPermission_def)

subsection \<open>Examples\<close>

definition example_platform :: platform where
  "example_platform = \<lparr>has_permission = True, launcher_activities = (\<lambda>_ _. []),
     package_uid = (\<lambda>_. None), enabled_a11y_packages = None\<rparr>"

definition example_bridge_event :: AidlEvent where
  "example_bridge_event = \<lparr>ev_uid = 1, ev_timestampMs = 2, ev_payloadId = 3, ev_payload = []\<rparr>"

lemma example_bridge_run:
  "bridge_run example_platform (bridge_init (Some ''c'')) [Call example_bridge_event True, Add, Post]
     ((stranded ''c'' [example_bridge_event])\<lparr>posted := 1\<rparr>)"
proof -
  have "has_permission example_platform" by (simp add: example_platform_def)
  from enqueue_stranded [OF this, where c = "''c''" and es = "[]" and e = example_bridge_event and flsh = True]
  show ?thesis by (simp add: bridge_init_def)
qed

theorem bridge_refines_channel_witness:
  "channel_step\<^sup>*\<^sup>* \<lparr>pending = [], outcome = []\<rparr> \<lparr>pending = [example_bridge_event], outcome = []\<rparr>"
  using bridge_refines_channel [OF example_bridge_run] by (simp add: channel_of_def bridge_init_def)

theorem bridge_delivers_witness:
  "\<exists>is s'. bridge_run example_platform ((stranded ''c'' [example_bridge_event])\<lparr>posted := 1\<rparr>) is s'
     \<and> list_all internal is \<and> quiescent example_platform s'"
  using bridge_delivers [OF example_bridge_run] by (simp add: no_failure_def)

theorem failed_bind_strands_events_witness:
  "\<exists>s. bridge_run example_platform (bridge_init (Some ''c''))
      [Call example_bridge_event False, Add, Post, Elapse, Run False, Call example_bridge_event False, Add, Post] s
    \<and> length (mEventBuffer s) = 2 \<and> sent s = [] \<and> quiescent example_platform s"
  using failed_bind_strands_events [of example_platform "[example_bridge_event]" "''c''" example_bridge_event]
  by (auto simp: example_platform_def enqueue_labels_def)

end
