(* ===== verification/Event_Api.thy ===== *)
theory Event_Api
  imports Bridge_Service Disruptive_App Binder_Transaction Accessibility
begin

section \<open>The event API of the framework\<close>

text \<open>
  The Java classes at both ends of the bridge service: \<open>DynamicInstrumentationEventSender\<close>, by which system
  components put events into the queue beside the daemon, and \<open>DynamicInstrumentationEventService\<close>, the
  base class of the consumer. They translate between a \<open>Bundle\<close> and the list of entries of the AIDL
  event. A \<open>Bundle\<close> is the association list of its keys in the order of \<open>keySet\<close>, each key once; an
  \<open>Instant\<close> is the number of nanoseconds since the epoch. In Java a string of an AIDL object may be null. What
  \<open>new Value()\<close> holds is up to the generated code and a parameter. The union has two members, so the last branch
  of the switch over its tag cannot be reached.
\<close>

datatype bundle_value = NullObject | StringObject string | IntegerObject i32 | OtherObject

type_synonym java_bundle = "(string \<times> bundle_value) list"
type_synonym java_instant = int

datatype JavaValue = JStringValue "string option" | JIntValue i32

record JavaEntry =
  je_key :: string
  je_value :: JavaValue

record JavaEvent =
  je_uid :: i32
  je_timestampMs :: i64
  je_payloadId :: i32
  je_payload :: "JavaEntry list option"

datatype api_exception = NullPointerException | ArithmeticException | IllegalArgumentException
  | ApiSecurityException | RemoteException | RuntimeException

definition ofEpochMilli :: "i64 \<Rightarrow> java_instant" where
  "ofEpochMilli ms = sint ms * 1000000"

definition toEpochMilli :: "java_instant \<Rightarrow> api_exception + i64" where
  "toEpochMilli t =
     (let ms = t div 1000000 in
      if - (2 ^ 63) \<le> ms \<and> ms < 2 ^ 63 then Inr (word_of_int ms) else Inl ArithmeticException)"

definition bundle_put :: "string \<Rightarrow> bundle_value \<Rightarrow> java_bundle \<Rightarrow> java_bundle" where
  "bundle_put key v b = AList.update key v b"

subsection \<open>DynamicInstrumentationEvent\<close>

record DynamicInstrumentationEvent =
  mUid :: i32
  mTimestamp :: java_instant
  mPayloadId :: i32
  mPayload :: java_bundle

definition DynamicInstrumentationEvent_new ::
  "i32 \<Rightarrow> java_instant option \<Rightarrow> i32 \<Rightarrow> java_bundle option \<Rightarrow> api_exception + DynamicInstrumentationEvent" where
  "DynamicInstrumentationEvent_new uid timestamp payloadId payload =
     (case timestamp of
        None \<Rightarrow> Inl NullPointerException
      | Some t \<Rightarrow>
          (case payload of
             None \<Rightarrow> Inl NullPointerException
           | Some b \<Rightarrow> Inr \<lparr>mUid = uid, mTimestamp = t, mPayloadId = payloadId, mPayload = b\<rparr>))"

subsection \<open>DynamicInstrumentationEventSender\<close>

definition rethrowAsRuntimeException :: "api_exception + 'a \<Rightarrow> api_exception + 'a" where
  "rethrowAsRuntimeException r =
     (case r of Inl e \<Rightarrow> Inl (if e = RemoteException then RuntimeException else e) | Inr x \<Rightarrow> Inr x)"

text \<open>The loop over the keys. A null object leaves the new \<open>Value\<close> as it is, and its entry is added all the same.\<close>

fun payload_loop :: "JavaValue \<Rightarrow> java_bundle \<Rightarrow> api_exception + JavaEntry list" where
  "payload_loop new_Value [] = Inr []"
| "payload_loop new_Value ((key, v) # b) =
     (let add = (\<lambda>value. case payload_loop new_Value b of Inl e \<Rightarrow> Inl e
           | Inr es \<Rightarrow> Inr (\<lparr>je_key = key, je_value = value\<rparr> # es)) in
      case v of
        NullObject \<Rightarrow> add new_Value
      | StringObject s \<Rightarrow> add (JStringValue (Some s))
      | IntegerObject n \<Rightarrow> add (JIntValue n)
      | OtherObject \<Rightarrow> Inl IllegalArgumentException)"

definition sendEvent ::
  "JavaValue \<Rightarrow> (JavaEvent \<Rightarrow> bool \<Rightarrow> 's \<Rightarrow> api_exception + 's)
     \<Rightarrow> DynamicInstrumentationEvent option \<Rightarrow> bool \<Rightarrow> 's \<Rightarrow> api_exception + 's" where
  "sendEvent new_Value enqueue diEvent flsh s =
     (case diEvent of
        None \<Rightarrow> Inl NullPointerException
      | Some d \<Rightarrow>
          (case toEpochMilli (mTimestamp d) of
             Inl e \<Rightarrow> Inl e
           | Inr ms \<Rightarrow>
               (case payload_loop new_Value (mPayload d) of
                  Inl e \<Rightarrow> Inl e
                | Inr es \<Rightarrow> rethrowAsRuntimeException (enqueue
                    \<lparr>je_uid = mUid d, je_timestampMs = ms, je_payloadId = mPayloadId d, je_payload = Some es\<rparr> flsh s))))"

text \<open>The calls for tests. The exception that \<open>rethrowAsRuntimeException\<close> throws leaves the method before its \<open>return false\<close>.\<close>

definition Sender_enableTestMode ::
  "(string \<Rightarrow> string \<Rightarrow> 's \<Rightarrow> api_exception + bool \<times> 's) \<Rightarrow> (string \<times> string) option \<Rightarrow> 's \<Rightarrow> api_exception + bool \<times> 's" where
  "Sender_enableTestMode service_enableTestMode component s =
     (case component of
        None \<Rightarrow> Inl NullPointerException
      | Some (packageName, className) \<Rightarrow> rethrowAsRuntimeException (service_enableTestMode packageName className s))"

definition Sender_disableTestMode :: "('s \<Rightarrow> api_exception + bool \<times> 's) \<Rightarrow> 's \<Rightarrow> api_exception + bool \<times> 's" where
  "Sender_disableTestMode service_disableTestMode s = rethrowAsRuntimeException (service_disableTestMode s)"

definition Sender_waitQueueFlushed :: "('s \<Rightarrow> api_exception + bool) \<Rightarrow> 's \<Rightarrow> api_exception + bool" where
  "Sender_waitQueueFlushed service_waitQueueFlushed s = rethrowAsRuntimeException (service_waitQueueFlushed s)"

subsection \<open>DynamicInstrumentationEventService\<close>

fun bundle_value_of :: "JavaValue \<Rightarrow> bundle_value" where
  "bundle_value_of (JStringValue None) = NullObject"
| "bundle_value_of (JStringValue (Some s)) = StringObject s"
| "bundle_value_of (JIntValue n) = IntegerObject n"

text \<open>The loop goes from the last entry to the first.\<close>

fun entries_loop :: "JavaEntry list \<Rightarrow> java_bundle \<Rightarrow> java_bundle" where
  "entries_loop [] b = b"
| "entries_loop (e # es) b = bundle_put (je_key e) (bundle_value_of (je_value e)) (entries_loop es b)"

definition convertEvent :: "JavaEvent \<Rightarrow> api_exception + DynamicInstrumentationEvent" where
  "convertEvent event =
     DynamicInstrumentationEvent_new (je_uid event) (Some (ofEpochMilli (je_timestampMs event))) (je_payloadId event)
       (Some (case je_payload event of None \<Rightarrow> [] | Some es \<Rightarrow> entries_loop es []))"

fun convert_loop :: "JavaEvent list \<Rightarrow> api_exception + DynamicInstrumentationEvent list" where
  "convert_loop [] = Inr []"
| "convert_loop (e # es) =
     (case convertEvent e of
        Inl x \<Rightarrow> Inl x
      | Inr d \<Rightarrow> (case convert_loop es of Inl x \<Rightarrow> Inl x | Inr ds \<Rightarrow> Inr (d # ds)))"

text \<open>\<open>onEvent\<close>: what the method of the consumer's developer is called with.\<close>

definition onEvent :: "bool \<Rightarrow> JavaEvent list \<Rightarrow> api_exception + DynamicInstrumentationEvent list" where
  "onEvent may_send evs = (if \<not> may_send then Inl ApiSecurityException else convert_loop evs)"

subsection \<open>From the sender to the consumer\<close>

definition sendable :: "DynamicInstrumentationEvent \<Rightarrow> bool" where
  "sendable d \<longleftrightarrow> OtherObject \<notin> snd ` set (mPayload d)
     \<and> - (2 ^ 63) \<le> mTimestamp d div 1000000 \<and> mTimestamp d div 1000000 < 2 ^ 63"

definition value_of :: "JavaValue \<Rightarrow> bundle_value \<Rightarrow> JavaValue" where
  "value_of new_Value v =
     (case v of StringObject s \<Rightarrow> JStringValue (Some s) | IntegerObject n \<Rightarrow> JIntValue n | _ \<Rightarrow> new_Value)"

lemma payload_loop_eq:
  "payload_loop nv b =
     (if OtherObject \<in> snd ` set b then Inl IllegalArgumentException
      else Inr (map (\<lambda>(key, v). \<lparr>je_key = key, je_value = value_of nv v\<rparr>) b))"
  by (induction nv b rule: payload_loop.induct) (auto simp: value_of_def split: bundle_value.splits)

lemma entries_loop_map_of:
  "map_of (entries_loop es []) = map_of (map (\<lambda>e. (je_key e, bundle_value_of (je_value e))) es)"
  by (induction es) (simp_all add: bundle_put_def update_conv')

lemma entries_loop_distinct: "distinct (map fst (entries_loop es []))"
  by (induction es) (simp_all add: bundle_put_def distinct_update)

text \<open>What the consumer is given for an event.\<close>

definition consumer_event :: "JavaEvent \<Rightarrow> DynamicInstrumentationEvent" where
  "consumer_event event =
     \<lparr>mUid = je_uid event, mTimestamp = ofEpochMilli (je_timestampMs event), mPayloadId = je_payloadId event,
      mPayload = (case je_payload event of None \<Rightarrow> [] | Some es \<Rightarrow> entries_loop es [])\<rparr>"

lemma onEvent_map: "onEvent True es = Inr (map consumer_event es)"
proof -
  have "convertEvent e = Inr (consumer_event e)" for e
    by (simp add: convertEvent_def DynamicInstrumentationEvent_new_def consumer_event_def)
  then have "convert_loop es = Inr (map consumer_event es)" by (induction es) simp_all
  then show ?thesis by (simp add: onEvent_def)
qed

lemma value_round_trip: "v \<noteq> OtherObject \<Longrightarrow> bundle_value_of (value_of (JStringValue None) v) = v"
  by (cases v) (simp_all add: value_of_def)

lemma bundle_round_trip:
  assumes "OtherObject \<notin> snd ` set b"
  shows "map_of (entries_loop (map (\<lambda>(key, v). \<lparr>je_key = key, je_value = value_of (JStringValue None) v\<rparr>) b) []) = map_of b"
proof -
  have "map (\<lambda>e. (je_key e, bundle_value_of (je_value e)))
      (map (\<lambda>(key, v). \<lparr>je_key = key, je_value = value_of (JStringValue None) v\<rparr>) b) = b"
    using assms by (induction b) (auto simp: value_round_trip image_iff)
  then show ?thesis by (simp add: entries_loop_map_of)
qed

lemma instant_round_trip:
  "toEpochMilli t = Inr ms \<Longrightarrow> ofEpochMilli ms = t - t mod 1000000"
  by (auto simp: toEpochMilli_def ofEpochMilli_def Let_def signed_of_int signed_take_bit_int_eq_self
      minus_mod_eq_div_mult split: if_splits)

text \<open>
  C33. An event of the framework API survives the way to the consumer. If its values are strings,
  integers or null and its time fits into 64 bits of milliseconds, the sender enqueues exactly one AIDL event,
  and the consumer that gets this event is given the same UID, payload ID and payload, and the time
  rounded down to the millisecond. Otherwise the sender throws an exception and enqueues nothing. This is
  for an AIDL union whose default is its first member, a null string.
\<close>

theorem event_round_trip:
  "if sendable d
   then \<exists>ev d'. sendEvent (JStringValue None) enqueue (Some d) flsh s = rethrowAsRuntimeException (enqueue ev flsh s)
     \<and> onEvent True [ev] = Inr [d'] \<and> mUid d' = mUid d \<and> mPayloadId d' = mPayloadId d
     \<and> map_of (mPayload d') = map_of (mPayload d) \<and> distinct (map fst (mPayload d'))
     \<and> mTimestamp d' = mTimestamp d - mTimestamp d mod 1000000
   else \<exists>e. \<forall>enqueue' :: JavaEvent \<Rightarrow> bool \<Rightarrow> 's \<Rightarrow> api_exception + 's.
     sendEvent (JStringValue None) enqueue' (Some d) flsh s = Inl e"
proof (cases "sendable d")
  case True
  then obtain ms where ms: "toEpochMilli (mTimestamp d) = Inr ms" and other: "OtherObject \<notin> snd ` set (mPayload d)"
    by (auto simp: sendable_def toEpochMilli_def)
  let ?es = "map (\<lambda>(key, v). \<lparr>je_key = key, je_value = value_of (JStringValue None) v\<rparr>) (mPayload d)"
  let ?ev = "\<lparr>je_uid = mUid d, je_timestampMs = ms, je_payloadId = mPayloadId d, je_payload = Some ?es\<rparr>"
  have "sendEvent (JStringValue None) enqueue (Some d) flsh s = rethrowAsRuntimeException (enqueue ?ev flsh s)"
    using ms other by (simp add: sendEvent_def payload_loop_eq)
  with True show ?thesis
    by (auto simp: onEvent_map consumer_event_def bundle_round_trip [OF other] instant_round_trip [OF ms]
        entries_loop_distinct intro!: exI [of _ ?ev])
next
  case False
  then have "sendEvent (JStringValue None) enqueue' (Some d) flsh s =
      Inl (case toEpochMilli (mTimestamp d) of Inl e \<Rightarrow> e | Inr _ \<Rightarrow> IllegalArgumentException)"
    for enqueue' :: "JavaEvent \<Rightarrow> bool \<Rightarrow> 's \<Rightarrow> api_exception + 's"
    by (auto simp: sendable_def sendEvent_def toEpochMilli_def payload_loop_eq Let_def split: sum.splits)
  with False show ?thesis by simp
qed

subsection \<open>From the daemon to the consumer\<close>

text \<open>The daemon's event as the consumer's process reads it from the parcel.\<close>

definition java_event :: "AidlEvent \<Rightarrow> JavaEvent" where
  "java_event ev =
     \<lparr>je_uid = ev_uid ev, je_timestampMs = ev_timestampMs ev, je_payloadId = ev_payloadId ev,
      je_payload = Some (map (\<lambda>e. \<lparr>je_key = entry_key e, je_value =
        (case entry_val e of StringValue s \<Rightarrow> JStringValue (Some s) | IntValue n \<Rightarrow> JIntValue n)\<rparr>) (ev_payload ev))\<rparr>"

definition daemon_value :: "AidlValue \<Rightarrow> bundle_value" where
  "daemon_value v = (case v of StringValue s \<Rightarrow> StringObject s | IntValue n \<Rightarrow> IntegerObject n)"

lemma daemon_event_arrives:
  "\<exists>ds. onEvent True (map java_event evs) = Inr ds \<and> list_all2 (\<lambda>ev d. mUid d = ev_uid ev
    \<and> mPayloadId d = ev_payloadId ev \<and> mTimestamp d = sint (ev_timestampMs ev) * 1000000
    \<and> map_of (mPayload d) = map_of (map (\<lambda>e. (entry_key e, daemon_value (entry_val e))) (ev_payload ev))) evs ds"
proof -
  have v: "bundle_value_of (case v of StringValue s \<Rightarrow> JStringValue (Some s) | IntValue n \<Rightarrow> JIntValue n) = daemon_value v"
    for v by (cases v) (simp_all add: daemon_value_def)
  have "onEvent True (map java_event evs) = Inr (map (\<lambda>ev. consumer_event (java_event ev)) evs)"
    by (simp add: onEvent_map comp_def)
  then show ?thesis
    by (simp add: list_all2_map2 list.rel_refl consumer_event_def java_event_def ofEpochMilli_def entries_loop_map_of comp_def v)
qed

text \<open>The keys of an event of the daemon are distinct, so that no entry hides another.\<close>

lemma daemon_payload_keys:
  "distinct (map entry_key (ev_payload (disabled_event uid now pkg cls caller)))"
  "distinct (map entry_key (ev_payload (bind_event now ipkg iaction icpkg iccls caller)))"
  "distinct (map entry_key (ev_payload (binder_event uid ms name code)))"
  "aidl_event_from e = Ok ev \<Longrightarrow> distinct (map entry_key (ev_payload ev))"
  by (auto simp: disabled_event_def bind_event_def binder_event_def aidl_event_from_def
      split: res.splits EventType.splits)

subsection \<open>Test mode\<close>

text \<open>The exceptions of the bridge service as its callers get them; \<open>createRelative\<close> builds the name of a component.\<close>

definition api_result :: "java_exception + 'a \<Rightarrow> api_exception + 'a" where
  "api_result r = (case r of Inl SecurityException \<Rightarrow> Inl ApiSecurityException | Inr x \<Rightarrow> Inr x)"

lemma test_mode_calls:
  "Sender_enableTestMode (\<lambda>pkg cls s. api_result (enableTestMode p (createRelative pkg cls) s)) (Some (pkg, cls)) s =
     (if has_permission p
      then Inr (True, s\<lparr>event_consumer := Some (createRelative pkg cls), flushTimeout := TEST_FLUSH_TIMEOUT\<rparr>)
      else Inl ApiSecurityException)"
  "Sender_disableTestMode (\<lambda>s. api_result (disableTestMode p s)) s =
     (if has_permission p then Inr (True, s\<lparr>event_consumer := None, flushTimeout := FLUSH_TIMEOUT\<rparr>) else Inl ApiSecurityException)"
  "Sender_waitQueueFlushed (\<lambda>s. api_result (waitQueueFlushed p s woken)) s =
     (if has_permission p then Inr (mEventBuffer s = [] \<or> mEventBuffer woken = []) else Inl ApiSecurityException)"
  by (simp_all add: Sender_enableTestMode_def Sender_disableTestMode_def Sender_waitQueueFlushed_def rethrowAsRuntimeException_def
      api_result_def enableTestMode_def disableTestMode_def waitQueueFlushed_def enforceCallingPermission_def)

end
