(* ===== verification/Native_Side.thy ===== *)
theory Native_Side
  imports Bpf_Map Processes
begin

section \<open>The C++ side of the interfaces\<close>

text \<open>
  \<open>ffi/bpf/bpf.cpp\<close> and \<open>ffi/activity_manager/activity_manager.cpp\<close>, the code behind the parameters \<^typ>\<open>bpf_env\<close>, \<^typ>\<open>running_api\<close> and
  \<^typ>\<open>observer_api\<close> of the Rust side. Below it are the system calls and the libraries of the platform, which are parameters
  in their turn; a system call gives its result and the value of \<open>errno\<close>. A handle is an option, \<^const>\<open>None\<close> for a null pointer.
  The descriptors that a function opens and closes on the way are listed in order; a \<open>unique_fd\<close> closes its descriptor
  when it goes out of scope.
\<close>

definition EINVAL :: int where "EINVAL = 22"

record perf_event_attr =
  attr_sample_period :: u64
  attr_wakeup_events :: u32
  attr_config1 :: string
  attr_config2 :: u64
  attr_type :: u32
  attr_exclude_kernel :: bool

record sys_env =
  BpfRingbufSized_Create :: "trace \<Rightarrow> string \<Rightarrow> nat \<Rightarrow> int"
  BpfRingbufSized_discard :: "trace \<Rightarrow> string \<Rightarrow> int"
  retrieveProgram :: "trace \<Rightarrow> string \<Rightarrow> int"
  read_pmu_type_file :: "trace \<Rightarrow> string option"
  sys_perf_event_open :: "trace \<Rightarrow> perf_event_attr \<Rightarrow> i32 \<Rightarrow> int"
  ioctl_set_bpf :: "trace \<Rightarrow> int \<Rightarrow> int \<Rightarrow> int"
  ioctl_enable :: "trace \<Rightarrow> int \<Rightarrow> int"
  mapRetrieveExclusiveRW :: "trace \<Rightarrow> string \<Rightarrow> int \<times> int"
  writeToMapEntry :: "trace \<Rightarrow> CKey \<Rightarrow> CValue \<Rightarrow> u64 \<Rightarrow> int \<times> int"
  findMapEntry :: "trace \<Rightarrow> CKey \<Rightarrow> (int \<times> int) \<times> CValue"
  deleteMapEntry :: "trace \<Rightarrow> CKey \<Rightarrow> int \<times> int"
  getFirstMapKey :: "trace \<Rightarrow> (int \<times> int) \<times> CKey"

subsection \<open>Ring buffers\<close>

text \<open>The error code of \<open>Create\<close>, 0 for success.\<close>

definition bpfRingBufCreate :: "sys_env \<Rightarrow> trace \<Rightarrow> string \<Rightarrow> nat \<Rightarrow> unit option" where
  "bpfRingBufCreate sys t mapPath valueSize =
     (if BpfRingbufSized_Create sys t mapPath valueSize \<noteq> 0 then None else Some ())"

definition bpfRingBufDiscard :: "sys_env \<Rightarrow> trace \<Rightarrow> string \<Rightarrow> int" where
  "bpfRingBufDiscard sys t mapPath =
     (let code = BpfRingbufSized_Create sys t mapPath 1 in
      if code \<noteq> 0 then (if code = ENOENT then 0 else - 1)
      else BpfRingbufSized_discard sys t mapPath)"

text \<open>Of an open ring buffer: \<open>wait\<close>, and the result of \<open>ConsumeAll\<close> with the items it called back with.\<close>

record 't ringbuf =
  ringbuf_wait :: "trace \<Rightarrow> i32 \<Rightarrow> bool"
  ringbuf_ConsumeAll :: "trace \<Rightarrow> nat option \<times> 't list"

definition bpfRingBufPoll :: "'t ringbuf option \<Rightarrow> trace \<Rightarrow> i32 \<Rightarrow> int \<times> 't list" where
  "bpfRingBufPoll handle t timeoutMs =
     (case handle of
        None \<Rightarrow> (- 1, [])
      | Some rb \<Rightarrow>
          if \<not> ringbuf_wait rb t timeoutMs then (0, [])
          else
            (case ringbuf_ConsumeAll rb t of
               (None, items) \<Rightarrow> (- 2, items)
             | (Some cnt, items) \<Rightarrow> (int cnt, items)))"

subsection \<open>Perf events\<close>

text \<open>\<open>strtol\<close> in base 10, cut to an \<open>int\<close>.\<close>

definition is_space :: "char \<Rightarrow> bool" where
  "is_space c \<longleftrightarrow> c = CHR '' '' \<or> (9 \<le> (of_char c :: nat) \<and> (of_char c :: nat) \<le> 13)"

definition is_digit :: "char \<Rightarrow> bool" where
  "is_digit c \<longleftrightarrow> 48 \<le> (of_char c :: nat) \<and> (of_char c :: nat) \<le> 57"

definition decimal :: "string \<Rightarrow> int" where
  "decimal s = foldl (\<lambda>n c. 10 * n + (int (of_char c) - 48)) 0 (takeWhile is_digit s)"

definition strtol :: "string \<Rightarrow> int" where
  "strtol s =
     (let s = dropWhile is_space s;
          v = (case s of [] \<Rightarrow> 0
               | c # cs \<Rightarrow> if c = CHR ''-'' then - decimal cs else if c = CHR ''+'' then decimal cs else decimal s) in
      max (- (2 ^ 63)) (min (2 ^ 63 - 1) v))"

datatype fd_event = FdOpened int | FdClosed int

definition bpfPerfEventOpen :: "sys_env \<Rightarrow> trace \<Rightarrow> string \<Rightarrow> i32 \<Rightarrow> i32 \<Rightarrow> string \<Rightarrow> int \<times> fd_event list" where
  "bpfPerfEventOpen sys t filename offs pid bpfProgramPath =
     (let bpfProgramFd = retrieveProgram sys t bpfProgramPath in
      if bpfProgramFd < 0 then (- 1, [])
      else
        (case read_pmu_type_file sys t of
           None \<Rightarrow> (- 1, [FdOpened bpfProgramFd, FdClosed bpfProgramFd])
         | Some typeStr \<Rightarrow>
             (let pmu_type = word_of_int (strtol typeStr) :: i32;
                  attr = \<lparr>attr_sample_period = 1, attr_wakeup_events = 1, attr_config1 = filename,
                    attr_config2 = scast offs, attr_type = pmu_type, attr_exclude_kernel = True\<rparr>;
                  perfEventFd = sys_perf_event_open sys t attr pid in
              if perfEventFd < 0 then (- 1, [FdOpened bpfProgramFd, FdClosed bpfProgramFd])
              else if ioctl_set_bpf sys t perfEventFd bpfProgramFd < 0 \<or> ioctl_enable sys t perfEventFd < 0 then
                (- 1, [FdOpened bpfProgramFd, FdOpened perfEventFd, FdClosed perfEventFd, FdClosed bpfProgramFd])
              else (perfEventFd, [FdOpened bpfProgramFd, FdOpened perfEventFd, FdClosed bpfProgramFd]))))"

subsection \<open>Map elements\<close>

definition neg_errno :: "int \<times> int \<Rightarrow> int" where
  "neg_errno r = (if fst r < 0 then - snd r else fst r)"

definition bpfMapOpenExclusiveRW :: "sys_env \<Rightarrow> trace \<Rightarrow> string \<Rightarrow> int" where
  "bpfMapOpenExclusiveRW sys t path =
     (let (map_fd, errno) = mapRetrieveExclusiveRW sys t path in if map_fd < 0 then - errno else 0)"

definition bpfMapUpdateElem :: "sys_env \<Rightarrow> unit option \<Rightarrow> trace \<Rightarrow> CKey \<Rightarrow> CValue \<Rightarrow> u64 \<Rightarrow> int" where
  "bpfMapUpdateElem sys handle t key v flgs =
     (if handle = None then - EINVAL else neg_errno (writeToMapEntry sys t key v flgs))"

definition bpfMapLookupElem :: "sys_env \<Rightarrow> unit option \<Rightarrow> trace \<Rightarrow> CKey \<Rightarrow> CValue \<Rightarrow> int \<times> CValue" where
  "bpfMapLookupElem sys handle t key out =
     (if handle = None then (- EINVAL, out)
      else (case findMapEntry sys t key of (r, v) \<Rightarrow> (neg_errno r, v)))"

definition bpfMapDeleteElem :: "sys_env \<Rightarrow> unit option \<Rightarrow> trace \<Rightarrow> CKey \<Rightarrow> int" where
  "bpfMapDeleteElem sys handle t key =
     (if handle = None then - EINVAL else neg_errno (deleteMapEntry sys t key))"

definition bpfMapGetFirstKey :: "sys_env \<Rightarrow> unit option \<Rightarrow> trace \<Rightarrow> CKey \<Rightarrow> int \<times> CKey" where
  "bpfMapGetFirstKey sys handle t out =
     (if handle = None then (- EINVAL, out)
      else (case getFirstMapKey sys t of (r, k) \<Rightarrow> (neg_errno r, k)))"

text \<open>Deleting a handle closes the descriptor that it owns; deleting a null pointer does nothing.\<close>

definition bpfMapClose :: "int option \<Rightarrow> fd_event list" where
  "bpfMapClose handle = (case handle of None \<Rightarrow> [] | Some map_fd \<Rightarrow> [FdClosed map_fd])"

definition bpfRingBufDestroy :: "int option \<Rightarrow> fd_event list" where
  "bpfRingBufDestroy handle = (case handle of None \<Rightarrow> [] | Some ring_fd \<Rightarrow> [FdClosed ring_fd])"

text \<open>The interface of the Rust side with this code behind it. The size of an item is that of its type.\<close>

definition native_env :: "sys_env \<Rightarrow> (string \<Rightarrow> nat) \<Rightarrow> bpf_env" where
  "native_env sys item_size =
     \<lparr>ring_create = \<lambda>t path. bpfRingBufCreate sys t path (item_size path) \<noteq> None,
      ring_discard = bpfRingBufDiscard sys,
      perf_event_open = \<lambda>t filename offs pid program. fst (bpfPerfEventOpen sys t filename offs pid program),
      map_open = bpfMapOpenExclusiveRW sys,
      map_update = bpfMapUpdateElem sys (Some ()),
      map_lookup = \<lambda>t key. bpfMapLookupElem sys (Some ()) t key (replicate 10 0),
      map_get_first_key = \<lambda>t. bpfMapGetFirstKey sys (Some ()) t (replicate 128 NUL),
      map_delete = bpfMapDeleteElem sys (Some ())\<rparr>"

abbreviation native_ring :: "'t ringbuf \<Rightarrow> 't ring" where
  "native_ring rb \<equiv> bpfRingBufPoll (Some rb)"

subsection \<open>The activity manager\<close>

text \<open>
  \<open>CheckApiAvailability\<close> looks for one function in \<open>libandroid.so\<close>, once; every wrapper then asks for it and for the API level, and
  has a value of its own otherwise.
\<close>

record dl_env =
  dlopen_libandroid :: bool
  dlsym_getRunningAppProcesses :: bool

definition CheckApiAvailability :: "dl_env \<Rightarrow> bool" where
  "CheckApiAvailability dl = (if dlopen_libandroid dl then dlsym_getRunningAppProcesses dl else False)"

definition guarded :: "dl_env \<Rightarrow> device \<Rightarrow> 'a \<Rightarrow> 'a \<Rightarrow> 'a" where
  "guarded dl d platform otherwise =
     (if CheckApiAvailability dl then (if api_level d \<ge> 37 then platform else otherwise) else otherwise)"

definition ffi_AActivityManager_getRunningAppProcesses ::
  "dl_env \<Rightarrow> device \<Rightarrow> (int \<times> 'l option) \<Rightarrow> 'l option \<Rightarrow> int \<times> 'l option" where
  "ffi_AActivityManager_getRunningAppProcesses dl d platform out = guarded dl d platform (- 1, out)"

definition ffi_AActivityManager_createProcessObserver :: "dl_env \<Rightarrow> device \<Rightarrow> bool \<Rightarrow> bool" where
  "ffi_AActivityManager_createProcessObserver dl d platform = guarded dl d platform False"

definition ffi_AActivityManager_registerProcessObserver :: "dl_env \<Rightarrow> device \<Rightarrow> int \<Rightarrow> int" where
  "ffi_AActivityManager_registerProcessObserver dl d platform = guarded dl d platform (- 1)"

definition ffi_RunningAppProcessInfoList_getSize :: "dl_env \<Rightarrow> device \<Rightarrow> RunningAppProcessInfo option list \<Rightarrow> nat" where
  "ffi_RunningAppProcessInfoList_getSize dl d infos = guarded dl d (length infos) 0"

definition ffi_RunningAppProcessInfoList_get ::
  "dl_env \<Rightarrow> device \<Rightarrow> RunningAppProcessInfo option list \<Rightarrow> nat \<Rightarrow> RunningAppProcessInfo option" where
  "ffi_RunningAppProcessInfoList_get dl d infos i =
     guarded dl d (if i < length infos then infos ! i else None) None"

definition ffi_ARunningAppProcessInfo_getPid :: "dl_env \<Rightarrow> device \<Rightarrow> RunningAppProcessInfo \<Rightarrow> i32" where
  "ffi_ARunningAppProcessInfo_getPid dl d info = guarded dl d (ri_pid info) (- 1)"

definition ffi_ARunningAppProcessInfo_getProcessName :: "dl_env \<Rightarrow> device \<Rightarrow> RunningAppProcessInfo \<Rightarrow> char list option" where
  "ffi_ARunningAppProcessInfo_getProcessName dl d info = guarded dl d (ri_process_name info) None"

definition ffi_ARunningAppProcessInfo_getUid :: "dl_env \<Rightarrow> device \<Rightarrow> RunningAppProcessInfo \<Rightarrow> u32" where
  "ffi_ARunningAppProcessInfo_getUid dl d info = guarded dl d (ri_uid info) (- 1)"

text \<open>Wrappers without a result change the platform's state \<open>h\<close> or leave it alone. The daemon does not call the last two.\<close>

definition ffi_AActivityManager_destroyProcessObserver :: "dl_env \<Rightarrow> device \<Rightarrow> ('h \<Rightarrow> 'h) \<Rightarrow> 'h \<Rightarrow> 'h" where
  "ffi_AActivityManager_destroyProcessObserver dl d platform h = guarded dl d (platform h) h"

definition ffi_AActivityManager_ProcessObserver_setOnProcessStarted :: "dl_env \<Rightarrow> device \<Rightarrow> ('h \<Rightarrow> 'h) \<Rightarrow> 'h \<Rightarrow> 'h" where
  "ffi_AActivityManager_ProcessObserver_setOnProcessStarted dl d platform h = guarded dl d (platform h) h"

definition ffi_AActivityManager_ProcessObserver_setOnForegroundActivitiesChanged :: "dl_env \<Rightarrow> device \<Rightarrow> ('h \<Rightarrow> 'h) \<Rightarrow> 'h \<Rightarrow> 'h" where
  "ffi_AActivityManager_ProcessObserver_setOnForegroundActivitiesChanged dl d platform h = guarded dl d (platform h) h"

definition ffi_AActivityManager_ProcessObserver_setOnForegroundServicesChanged :: "dl_env \<Rightarrow> device \<Rightarrow> ('h \<Rightarrow> 'h) \<Rightarrow> 'h \<Rightarrow> 'h" where
  "ffi_AActivityManager_ProcessObserver_setOnForegroundServicesChanged dl d platform h = guarded dl d (platform h) h"

definition ffi_AActivityManager_ProcessObserver_setOnProcessDied :: "dl_env \<Rightarrow> device \<Rightarrow> ('h \<Rightarrow> 'h) \<Rightarrow> 'h \<Rightarrow> 'h" where
  "ffi_AActivityManager_ProcessObserver_setOnProcessDied dl d platform h = guarded dl d (platform h) h"

definition ffi_AActivityManager_unregisterProcessObserver :: "dl_env \<Rightarrow> device \<Rightarrow> ('h \<Rightarrow> 'h) \<Rightarrow> 'h \<Rightarrow> 'h" where
  "ffi_AActivityManager_unregisterProcessObserver dl d platform h = guarded dl d (platform h) h"

definition ffi_AActivityManager_RunningAppProcessInfoList_destroy :: "dl_env \<Rightarrow> device \<Rightarrow> ('h \<Rightarrow> 'h) \<Rightarrow> 'h \<Rightarrow> 'h" where
  "ffi_AActivityManager_RunningAppProcessInfoList_destroy dl d platform h = guarded dl d (platform h) h"

definition ffi_ARunningAppProcessInfo_getImportance :: "dl_env \<Rightarrow> device \<Rightarrow> i32 \<Rightarrow> i32" where
  "ffi_ARunningAppProcessInfo_getImportance dl d platform = guarded dl d platform 1000"

definition ffi_ARunningAppProcessInfo_getPackageList :: "dl_env \<Rightarrow> device \<Rightarrow> string list option \<times> nat \<Rightarrow> string list option \<times> nat" where
  "ffi_ARunningAppProcessInfo_getPackageList dl d platform = guarded dl d platform (None, 0)"

text \<open>What the Rust side sees of a list: its size, its elements and their fields, each through its wrapper.\<close>

definition seen_infos :: "dl_env \<Rightarrow> device \<Rightarrow> RunningAppProcessInfo option list \<Rightarrow> RunningAppProcessInfo option list" where
  "seen_infos dl d infos =
     map (\<lambda>i. map_option (\<lambda>info. \<lparr>ri_process_name = ffi_ARunningAppProcessInfo_getProcessName dl d info,
            ri_pid = ffi_ARunningAppProcessInfo_getPid dl d info,
            ri_uid = ffi_ARunningAppProcessInfo_getUid dl d info\<rparr>)
          (ffi_RunningAppProcessInfoList_get dl d infos i))
       [0..<ffi_RunningAppProcessInfoList_getSize dl d infos]"

definition native_running_api :: "dl_env \<Rightarrow> device \<Rightarrow> running_api \<Rightarrow> running_api" where
  "native_running_api dl d platform t =
     (case ffi_AActivityManager_getRunningAppProcesses dl d (platform t) None of
        (status, infos) \<Rightarrow> (status, map_option (seen_infos dl d) infos))"

definition native_observer_api :: "dl_env \<Rightarrow> device \<Rightarrow> observer_api \<Rightarrow> observer_api" where
  "native_observer_api dl d platform =
     \<lparr>create_process_observer = \<lambda>t. ffi_AActivityManager_createProcessObserver dl d (create_process_observer platform t),
      register_process_observer = \<lambda>t. ffi_AActivityManager_registerProcessObserver dl d (register_process_observer platform t)\<rparr>"

subsection \<open>Descriptors\<close>

fun open_after :: "int multiset \<Rightarrow> fd_event list \<Rightarrow> int multiset" where
  "open_after A [] = A"
| "open_after A (FdOpened fd # es) = open_after (add_mset fd A) es"
| "open_after A (FdClosed fd # es) = open_after (A - {#fd#}) es"

text \<open>Every way out of the function leaves open the descriptor it returns, and no other.\<close>

lemma perf_event_open_fds:
  assumes "bpfPerfEventOpen sys t filename offs pid program = (r, es)"
  shows "open_after A es = (if r < 0 then A else add_mset r A)" and "r < 0 \<Longrightarrow> r = - 1"
  using assms by (auto simp: bpfPerfEventOpen_def Let_def add_mset_commute split: if_splits option.splits)

subsection \<open>The hash map behind the system calls\<close>

text \<open>What \<open>bpf(2)\<close> documents of a hash map: a system call fails with \<open>-1\<close> and an error number.\<close>

definition sys_hash_map :: "sys_env \<Rightarrow> (trace \<Rightarrow> CKey \<rightharpoonup> CValue) \<Rightarrow> bool" where
  "sys_hash_map sys view \<longleftrightarrow>
     (\<forall>t. finite (dom (view t)) \<and> (\<forall>k \<in> dom (view t). length k = 128))
   \<and> (\<forall>t. case getFirstMapKey sys t of (r, k) \<Rightarrow>
        if view t = Map.empty then r = (- 1, ENOENT) else fst r = 0 \<and> k \<in> dom (view t))
   \<and> (\<forall>t k. if k \<in> dom (view t) then fst (deleteMapEntry sys t k) = 0 else deleteMapEntry sys t k = (- 1, ENOENT))
   \<and> (\<forall>t k v f. let r = writeToMapEntry sys t k v f in
        (fst r = 0 \<or> fst r = - 1 \<and> 0 < snd r) \<and> (f = 1 \<and> fst r = 0 \<longrightarrow> k \<notin> dom (view t)))
   \<and> (\<forall>t e. \<not> touches_map e \<longrightarrow> view (t @ [e]) = view t)
   \<and> (\<forall>t k r. view (t @ [MapDelete k r]) = (if r = 0 then (view t)(k := None) else view t))
   \<and> (\<forall>t k v f r. length k = 128 \<longrightarrow> r = neg_errno (writeToMapEntry sys t k v f) \<longrightarrow>
        view (t @ [MapUpdate k v f r]) = (if r = 0 then (view t)(k \<mapsto> v) else view t))"

lemma sys_hash_mapD:
  assumes "sys_hash_map sys view"
  shows sys_finite: "finite (dom (view t))" and sys_key_length: "k \<in> dom (view t) \<Longrightarrow> length k = 128"
    and sys_first: "case getFirstMapKey sys t of (r, k) \<Rightarrow>
      if view t = Map.empty then r = (- 1, ENOENT) else fst r = 0 \<and> k \<in> dom (view t)"
    and sys_delete: "if k \<in> dom (view t) then fst (deleteMapEntry sys t k) = 0 else deleteMapEntry sys t k = (- 1, ENOENT)"
    and sys_write: "neg_errno (writeToMapEntry sys t k v f) = 0 \<Longrightarrow> f = 1 \<Longrightarrow> k \<notin> dom (view t)"
    and sys_other: "\<not> touches_map e \<Longrightarrow> view (t @ [e]) = view t"
    and sys_after_delete: "view (t @ [MapDelete k r]) = (if r = 0 then (view t)(k := None) else view t)"
    and sys_after_write: "length k = 128 \<Longrightarrow> r = neg_errno (writeToMapEntry sys t k v f) \<Longrightarrow>
      view (t @ [MapUpdate k v f r]) = (if r = 0 then (view t)(k \<mapsto> v) else view t)"
proof -
  note s = assms [unfolded sys_hash_map_def Let_def, THEN conjunct1] assms [unfolded sys_hash_map_def Let_def, THEN conjunct2]
  note s2 = s(2) [THEN conjunct1] and s3 = s(2) [THEN conjunct2]
  note s4 = s3 [THEN conjunct1] and s5 = s3 [THEN conjunct2]
  note s6 = s5 [THEN conjunct1] and s7 = s5 [THEN conjunct2]
  show "finite (dom (view t))" and "k \<in> dom (view t) \<Longrightarrow> length k = 128" using s(1) by blast+
  show "case getFirstMapKey sys t of (r, k) \<Rightarrow>
      if view t = Map.empty then r = (- 1, ENOENT) else fst r = 0 \<and> k \<in> dom (view t)" by (rule s2 [THEN spec])
  show "if k \<in> dom (view t) then fst (deleteMapEntry sys t k) = 0 else deleteMapEntry sys t k = (- 1, ENOENT)"
    by (rule s4 [THEN spec, THEN spec])
  show "k \<notin> dom (view t)" if "neg_errno (writeToMapEntry sys t k v f) = 0" "f = 1"
    using s6 [rule_format, of t k v f] that by (auto simp: neg_errno_def split: if_splits)
  show "\<not> touches_map e \<Longrightarrow> view (t @ [e]) = view t" using s7 by blast
  show "view (t @ [MapDelete k r]) = (if r = 0 then (view t)(k := None) else view t)" using s7 by blast
  show "length k = 128 \<Longrightarrow> r = neg_errno (writeToMapEntry sys t k v f) \<Longrightarrow>
      view (t @ [MapUpdate k v f r]) = (if r = 0 then (view t)(k \<mapsto> v) else view t)" using s7 by blast
qed

text \<open>The wrappers turn this into what the Rust side relies on.\<close>

lemma native_hash_map:
  assumes "sys_hash_map sys view"
  shows "kernel_hash_map (native_env sys item_size) view"
proof -
  have first: "case map_get_first_key (native_env sys item_size) t of (r, k) \<Rightarrow>
      (if view t = Map.empty then r = - ENOENT else r = 0 \<and> k \<in> dom (view t))" for t
    using sys_first [OF assms, of t] by (auto simp: native_env_def bpfMapGetFirstKey_def neg_errno_def split: prod.splits)
  have del: "map_delete (native_env sys item_size) t k = (if k \<in> dom (view t) then 0 else - ENOENT)" for t k
    using sys_delete [OF assms, of k t] by (auto simp: native_env_def bpfMapDeleteElem_def neg_errno_def split: if_splits)
  have upd: "map_update (native_env sys item_size) t k v f = neg_errno (writeToMapEntry sys t k v f)" for t k v f
    by (simp add: native_env_def bpfMapUpdateElem_def)
  show ?thesis
    unfolding kernel_hash_map_def upd
    using first del sys_finite [OF assms] sys_key_length [OF assms] sys_write [OF assms] sys_other [OF assms]
      sys_after_delete [OF assms] sys_after_write [OF assms]
    by (intro conjI allI impI ballI) simp_all
qed

text \<open>
  C17. Draining the filter map, down to the system calls. If the map behaves as \<open>bpf(2)\<close> documents it, and every key in it
  was written from a name that makes the round trip, \<open>drain\<close> over the C++ wrappers returns successfully
  and leaves the map empty; one iteration more than there are keys is enough.
\<close>

theorem native_drain_empties:
  assumes "sys_hash_map sys view" and "card (dom (view t)) < n"
    and "\<And>c. c \<in> dom (view t) \<Longrightarrow> \<exists>s. good_name s \<and> c = binder_to_c_key s"
  shows "\<exists>t'. drain n (native_env sys item_size) (h, t) = (Ok (), (h, t')) \<and> view t' = Map.empty"
  by (rule drain_clean_map [OF native_hash_map [OF assms(1)] assms(2)]) (metis assms(3) binder_from_to_key)

definition errno_of :: "int \<Rightarrow> int \<times> int" where
  "errno_of r = (if r < 0 then (- 1, - r) else (r, 0))"

definition example_sys :: "(CKey \<times> CValue) list \<Rightarrow> sys_env" where
  "example_sys m0 =
     \<lparr>BpfRingbufSized_Create = \<lambda>_ _ _. 0, BpfRingbufSized_discard = \<lambda>_ _. 0, retrieveProgram = \<lambda>_ _. 3,
      read_pmu_type_file = \<lambda>_. Some ''8'', sys_perf_event_open = \<lambda>_ _ _. 4, ioctl_set_bpf = \<lambda>_ _ _. 0,
      ioctl_enable = \<lambda>_ _. 0, mapRetrieveExclusiveRW = \<lambda>_ _. (5, 0),
      writeToMapEntry = \<lambda>t k v f. errno_of (map_update (example_kernel m0) t k v f),
      findMapEntry = \<lambda>t k. (case map_lookup (example_kernel m0) t k of (r, v) \<Rightarrow> (errno_of r, v)),
      deleteMapEntry = \<lambda>t k. errno_of (map_delete (example_kernel m0) t k),
      getFirstMapKey = \<lambda>t. (case map_get_first_key (example_kernel m0) t of (r, k) \<Rightarrow> (errno_of r, k))\<rparr>"

lemma neg_errno_of [simp]: "neg_errno (errno_of r) = r"
  by (simp add: neg_errno_def errno_of_def)

lemma example_sys_hash_map:
  assumes "list_all (\<lambda>(k, _). length k = 128) m0"
  shows "sys_hash_map (example_sys m0) (\<lambda>t. map_of (kernel_contents m0 t))"
proof -
  note k = example_kernel_hash_map [OF assms]
  have first: "case getFirstMapKey (example_sys m0) t of (r, k) \<Rightarrow>
      if map_of (kernel_contents m0 t) = Map.empty then r = (- 1, ENOENT)
      else fst r = 0 \<and> k \<in> dom (map_of (kernel_contents m0 t))" for t
    using kernel_first [OF k, of t] by (auto simp: example_sys_def errno_of_def ENOENT_def split: prod.splits if_splits)
  have del: "if k \<in> dom (map_of (kernel_contents m0 t)) then fst (deleteMapEntry (example_sys m0) t k) = 0
      else deleteMapEntry (example_sys m0) t k = (- 1, ENOENT)" for t k
    using kernel_delete [OF k, of t k] by (simp add: example_sys_def errno_of_def ENOENT_def)
  have upd: "let r = writeToMapEntry (example_sys m0) t k v f in (fst r = 0 \<or> fst r = - 1 \<and> 0 < snd r)
      \<and> (f = 1 \<and> fst r = 0 \<longrightarrow> k \<notin> dom (map_of (kernel_contents m0 t)))" for t k v f
    by (auto simp: example_sys_def errno_of_def example_kernel_def)
  have wr: "neg_errno (writeToMapEntry (example_sys m0) t k v f) = map_update (example_kernel m0) t k v f" for t k v f
    by (simp add: example_sys_def)
  show ?thesis
    unfolding sys_hash_map_def wr
    using first del upd kernel_finite [OF k] kernel_key_length [OF k] kernel_other [OF k]
      kernel_after_delete [OF k] kernel_after_update [OF k]
    by (intro conjI allI impI ballI) simp_all
qed

theorem native_drain_empties_witness:
  "\<exists>t'. drain 2 (native_env (example_sys [(binder_to_c_key ''a.IFoo'', [])]) (\<lambda>_. 8)) ((), []) = (Ok (), ((), t'))
     \<and> map_of (kernel_contents [(binder_to_c_key ''a.IFoo'', [])] t') = Map.empty"
proof (rule native_drain_empties [OF example_sys_hash_map])
  have good: "good_name ''a.IFoo''" by (simp add: good_name_def ascii_valid_utf8 ascii_def)
  show "list_all (\<lambda>(k, _). length k = 128) [(binder_to_c_key ''a.IFoo'', [])]" by (simp add: binder_to_c_key_length)
  show "card (dom (map_of (kernel_contents [(binder_to_c_key ''a.IFoo'', [])] []))) < 2"
    by (simp add: kernel_contents_step)
  show "\<exists>s. good_name s \<and> c = binder_to_c_key s"
    if "c \<in> dom (map_of (kernel_contents [(binder_to_c_key ''a.IFoo'', [])] []))" for c
    using that good by (auto simp: kernel_contents_step split: if_splits)
qed

subsection \<open>Polls and processes\<close>

text \<open>A poll gives the items that were consumed; when consuming fails, those that were already taken from the
  ring buffer are lost with the error.\<close>

lemma native_poll:
  "BpfRingBuffer_poll (native_ring rb) p ms (h, t) =
     (if \<not> ringbuf_wait rb t ms then (Ok [], (h, t @ [RingPoll p ms 0]))
      else case ringbuf_ConsumeAll rb t of
        (None, items) \<Rightarrow> (Err (Anyhow ''Failed to poll ring buffer. Error code: {}''), (h, t @ [RingPoll p ms (- 2)]))
      | (Some n, items) \<Rightarrow> (Ok items, (h, t @ [RingPoll p ms (int n)])))"
  by (simp add: BpfRingBuffer_poll_def bpfRingBufPoll_def split: prod.split option.split)

lemma seen_infos_available:
  assumes "CheckApiAvailability dl" and "api_level d \<ge> 37"
  shows "seen_infos dl d infos = infos"
proof -
  have "map_option (\<lambda>info. \<lparr>ri_process_name = ri_process_name info, ri_pid = ri_pid info, ri_uid = ri_uid info\<rparr>) x = x"
    for x :: "RunningAppProcessInfo option" by (cases x) simp_all
  with assms show ?thesis
    by (simp add: seen_infos_def guarded_def ffi_ARunningAppProcessInfo_getProcessName_def ffi_ARunningAppProcessInfo_getPid_def
        ffi_ARunningAppProcessInfo_getUid_def ffi_RunningAppProcessInfoList_get_def ffi_RunningAppProcessInfoList_getSize_def)
      (auto intro: nth_equalityI)
qed

text \<open>With the functions of the platform the wrappers add nothing; without them, both ways of finding a process
  report an error, and no object is created.\<close>

lemma native_available:
  assumes "CheckApiAvailability dl" and "api_level d \<ge> 37"
  shows "native_running_api dl d api = api" and "native_observer_api dl d obs = obs"
proof -
  have "map_option (seen_infos dl d) x = x" for x using seen_infos_available [OF assms] by (cases x) simp_all
  with assms show "native_running_api dl d api = api"
    by (auto simp: native_running_api_def ffi_AActivityManager_getRunningAppProcesses_def guarded_def fun_eq_iff split: prod.split)
  from assms show "native_observer_api dl d obs = obs"
    by (simp add: native_observer_api_def ffi_AActivityManager_createProcessObserver_def
        ffi_AActivityManager_registerProcessObserver_def guarded_def)
qed

lemma native_unavailable:
  assumes "\<not> CheckApiAvailability dl \<or> api_level d < 37"
  shows "get_running_process_pid_uid (native_running_api dl d api) target (h, t) =
      (Err (Anyhow ''Failed to get running app processes, status: {}''), (h, t @ [GetRunningProcesses (- 1)]))"
    and "ProcessObserver_register (native_observer_api dl d obs) (h, t) =
      (Err (Anyhow ''Failed to create process observer''), (h, t))"
  using assms
  by (auto simp: get_running_process_pid_uid_def native_running_api_def ffi_AActivityManager_getRunningAppProcesses_def
      guarded_def created_def ProcessObserver_register_def native_observer_api_def ffi_AActivityManager_createProcessObserver_def)

end
