(* ===== verification/Elf_Reader.thy ===== *)
theory Elf_Reader
  imports Bpf_Helpers
begin

section \<open>Reading the object files of the BPF programs\<close>

text \<open>
  The first half of \<open>bpfloader/UprobeStatsBpfLoad.cpp\<close>: sections, symbols and definitions of an ELF object. A function of
  the loader returns a code, 0 for success, and fills in a parameter: \<open>Val\<close> is the filled-in parameter of a successful call and \<open>Code\<close>
  any other code. \<open>Abort\<close> is the end of the process (\<open>abort()\<close>, or an exception that nobody catches), and \<open>Undefined\<close> is reached where
  C++ gives the program no meaning: an index or a string that runs out of its buffer. Memory is unlimited.

  The state of an \<open>ifstream\<close> is its \<open>failbit\<close>: every read is at a position that was set just before, and after one failure all later
  reads fail. Numbers in the file are little-endian.
\<close>

datatype 'a cpp = Val 'a | Code int | Abort | Undefined

record elf_stream =
  elf_bytes :: "char list"
  failbit :: bool

type_synonym ('s, 'a) cpp_fun = "'s \<Rightarrow> 'a cpp \<times> 's"

definition cpp_ret :: "'a \<Rightarrow> ('s, 'a) cpp_fun" where "cpp_ret x s = (Val x, s)"
definition cpp_code :: "int \<Rightarrow> ('s, 'a) cpp_fun" where "cpp_code c s = (Code c, s)"
definition cpp_undefined :: "('s, 'a) cpp_fun" where "cpp_undefined s = (Undefined, s)"
definition cpp_abort :: "('s, 'a) cpp_fun" where "cpp_abort s = (Abort, s)"

text \<open>\<open>if (ret) return ret;\<close>, and a call whose code is looked at.\<close>

definition cpp_bind :: "('s, 'a) cpp_fun \<Rightarrow> ('a \<Rightarrow> ('s, 'b) cpp_fun) \<Rightarrow> ('s, 'b) cpp_fun" where
  "cpp_bind m f s =
     (case m s of
        (Val x, s') \<Rightarrow> f x s'
      | (Code c, s') \<Rightarrow> (Code c, s')
      | (Abort, s') \<Rightarrow> (Abort, s')
      | (Undefined, s') \<Rightarrow> (Undefined, s'))"

definition attempt :: "('s, 'a) cpp_fun \<Rightarrow> ('s, int + 'a) cpp_fun" where
  "attempt m s =
     (case m s of
        (Val x, s') \<Rightarrow> (Val (Inr x), s')
      | (Code c, s') \<Rightarrow> (Val (Inl c), s')
      | (Abort, s') \<Rightarrow> (Abort, s')
      | (Undefined, s') \<Rightarrow> (Undefined, s'))"

definition at_index :: "'a list \<Rightarrow> nat \<Rightarrow> ('s, 'a) cpp_fun" where
  "at_index xs i = (if i < length xs then cpp_ret (xs ! i) else cpp_undefined)"

definition to_int :: "nat \<Rightarrow> int" where
  "to_int n = sint (of_nat n :: 32 word)"

subsection \<open>The layout of the file\<close>

definition field :: "char list \<Rightarrow> nat \<Rightarrow> nat \<Rightarrow> nat" where
  "field bs offs n = le_nat (take n (drop offs bs))"

record Elf64_Ehdr =
  e_shoff :: nat
  e_shentsize :: nat
  e_shnum :: nat
  e_shstrndx :: nat

record Elf64_Shdr =
  sh_name :: nat
  sh_type :: nat
  sh_offset :: nat
  sh_size :: nat

record Elf64_Sym =
  st_name :: nat
  st_info :: nat
  st_shndx :: nat
  st_value :: nat

definition Ehdr_of :: "char list \<Rightarrow> Elf64_Ehdr" where
  "Ehdr_of bs = \<lparr>e_shoff = field bs 40 8, e_shentsize = field bs 58 2, e_shnum = field bs 60 2, e_shstrndx = field bs 62 2\<rparr>"

definition Shdr_of :: "char list \<Rightarrow> Elf64_Shdr" where
  "Shdr_of bs = \<lparr>sh_name = field bs 0 4, sh_type = field bs 4 4, sh_offset = field bs 24 8, sh_size = field bs 32 8\<rparr>"

definition Sym_of :: "char list \<Rightarrow> Elf64_Sym" where
  "Sym_of bs = \<lparr>st_name = field bs 0 4, st_info = field bs 4 1, st_shndx = field bs 6 2, st_value = field bs 8 8\<rparr>"

text \<open>An array of \<open>k\<close> structures of \<open>n\<close> bytes.\<close>

definition array_of :: "nat \<Rightarrow> nat \<Rightarrow> (char list \<Rightarrow> 'a) \<Rightarrow> char list \<Rightarrow> 'a list" where
  "array_of n k f bs = map (\<lambda>i. f (take n (drop (i * n) bs))) [0..<k]"

text \<open>\<open>seekg(offs)\<close> and \<open>read(n)\<close> into a buffer of \<open>room\<close> bytes; \<open>code\<close> is returned when the read fails.\<close>

definition read_at :: "nat \<Rightarrow> nat \<Rightarrow> nat \<Rightarrow> int \<Rightarrow> ('s elf_stream_scheme, char list) cpp_fun" where
  "read_at offs n room code s =
     (if failbit s \<or> offs \<ge> 2 ^ 63 then (Code (- 1), s\<lparr>failbit := True\<rparr>)
      else if min n (length (elf_bytes s) - offs) > room then (Undefined, s)
      else if offs + n \<le> length (elf_bytes s) \<or> n = 0 then (Val (take n (drop offs (elf_bytes s))), s)
      else (Code code, s\<lparr>failbit := True\<rparr>))"

text \<open>A section of the file, into a vector that was resized for it.\<close>

definition read_section :: "Elf64_Shdr \<Rightarrow> ('s elf_stream_scheme, char list) cpp_fun" where
  "read_section sh = (if sh_size sh \<ge> 2 ^ 63 then cpp_abort else read_at (sh_offset sh) (sh_size sh) (sh_size sh) (- 1))"

subsection \<open>Sections\<close>

definition readElfHeader :: "('s elf_stream_scheme, Elf64_Ehdr) cpp_fun" where
  "readElfHeader = cpp_bind (read_at 0 64 64 (- 1)) (\<lambda>bs. cpp_ret (Ehdr_of bs))"

definition ENOMEM :: int where "ENOMEM = 12"

text \<open>Entries that the read did not reach keep the zeros of \<open>resize\<close>.\<close>

definition readSectionHeadersAll :: "('s elf_stream_scheme, Elf64_Shdr list) cpp_fun" where
  "readSectionHeadersAll =
     cpp_bind readElfHeader (\<lambda>eh.
     cpp_bind (read_at (e_shoff eh) (e_shnum eh * e_shentsize eh) (e_shnum eh * 64) (- ENOMEM)) (\<lambda>bs.
     cpp_ret (array_of 64 (e_shnum eh) Shdr_of (bs @ replicate (e_shnum eh * 64 - length bs) NUL))))"

definition readSectionByIdx :: "nat \<Rightarrow> ('s elf_stream_scheme, char list) cpp_fun" where
  "readSectionByIdx idx =
     cpp_bind readSectionHeadersAll (\<lambda>shTable. cpp_bind (at_index shTable idx) read_section)"

definition readSectionHeaderStrtab :: "('s elf_stream_scheme, char list) cpp_fun" where
  "readSectionHeaderStrtab = cpp_bind readElfHeader (\<lambda>eh. readSectionByIdx (e_shstrndx eh))"

text \<open>A C string in a buffer, from an offset on.\<close>

definition c_string_at :: "char list \<Rightarrow> nat \<Rightarrow> ('s, string) cpp_fun" where
  "c_string_at buf offs =
     (if NUL \<in> set (drop offs buf) then cpp_ret (takeWhile (\<lambda>c. c \<noteq> NUL) (drop offs buf)) else cpp_undefined)"

definition getSymName :: "nat \<Rightarrow> ('s elf_stream_scheme, string) cpp_fun" where
  "getSymName nameOff =
     cpp_bind readSectionHeaderStrtab (\<lambda>secStrTab.
     if to_int nameOff \<ge> to_int (length secStrTab) then cpp_code (- 1)
     else if to_int nameOff < 0 then cpp_undefined
     else c_string_at secStrTab nameOff)"

fun strcmp_buf :: "char list \<Rightarrow> string \<Rightarrow> bool option" where
  "strcmp_buf [] s = None"
| "strcmp_buf (c # cs) [] = Some (c = NUL)"
| "strcmp_buf (c # cs) (d # ds) = (if c = d then strcmp_buf cs ds else Some False)"

fun name_loop :: "string \<Rightarrow> char list \<Rightarrow> Elf64_Shdr list \<Rightarrow> ('s elf_stream_scheme, char list) cpp_fun" where
  "name_loop name secStrTab [] = cpp_code (- 2)"
| "name_loop name secStrTab (sh # shs) =
     (if secStrTab = [] \<and> sh_name sh = 0 then name_loop name secStrTab shs
      else case strcmp_buf (drop (sh_name sh) secStrTab) name of
        None \<Rightarrow> cpp_undefined
      | Some True \<Rightarrow> read_section sh
      | Some False \<Rightarrow> name_loop name secStrTab shs)"

definition readSectionByName :: "string \<Rightarrow> ('s elf_stream_scheme, char list) cpp_fun" where
  "readSectionByName name =
     cpp_bind readSectionHeadersAll (\<lambda>shTable.
     cpp_bind readSectionHeaderStrtab (\<lambda>secStrTab.
     name_loop name secStrTab shTable))"

definition readSectionUint :: "string \<Rightarrow> nat \<Rightarrow> ('s elf_stream_scheme, nat) cpp_fun" where
  "readSectionUint name defVal =
     cpp_bind (attempt (readSectionByName name)) (\<lambda>r. cpp_ret
       (case r of Inl _ \<Rightarrow> defVal | Inr theBytes \<Rightarrow> if length theBytes < 4 then defVal else field theBytes 0 4))"

fun type_loop :: "nat \<Rightarrow> Elf64_Shdr list \<Rightarrow> ('s elf_stream_scheme, char list) cpp_fun" where
  "type_loop ty [] = cpp_code (- 2)"
| "type_loop ty (sh # shs) = (if sh_type sh \<noteq> ty then type_loop ty shs else read_section sh)"

definition readSectionByType :: "nat \<Rightarrow> ('s elf_stream_scheme, char list) cpp_fun" where
  "readSectionByType ty = cpp_bind readSectionHeadersAll (type_loop ty)"

subsection \<open>Symbols\<close>

definition SHT_SYMTAB :: nat where "SHT_SYMTAB = 2"
definition STT_FUNC :: nat where "STT_FUNC = 2"

text \<open>\<open>std::sort\<close> leaves the order of symbols with the same value open; here it is that of the file.\<close>

definition readSymTab :: "bool \<Rightarrow> ('s elf_stream_scheme, Elf64_Sym list) cpp_fun" where
  "readSymTab srt =
     cpp_bind (readSectionByType SHT_SYMTAB) (\<lambda>secData.
     let data = array_of 24 (length secData div 24) Sym_of secData in
     cpp_ret (if srt then sort_key st_value data else data))"

fun section_loop :: "string \<Rightarrow> nat \<Rightarrow> Elf64_Shdr list \<Rightarrow> ('s elf_stream_scheme, nat option) cpp_fun" where
  "section_loop sectionName i [] = cpp_ret None"
| "section_loop sectionName i (sh # shs) =
     cpp_bind (getSymName (sh_name sh)) (\<lambda>name.
     if name = sectionName then cpp_ret (Some i) else section_loop sectionName (Suc i) shs)"

text \<open>The names found so far are in the parameter also when the loop ends with a code.\<close>

fun symbol_loop ::
  "nat option \<Rightarrow> nat \<Rightarrow> Elf64_Sym list \<Rightarrow> string list \<Rightarrow> ('s elf_stream_scheme, int \<times> string list) cpp_fun" where
  "symbol_loop symbolType sec_idx [] names = cpp_ret (0, names)"
| "symbol_loop symbolType sec_idx (sy # syms) names =
     (if (case symbolType of Some ty \<Rightarrow> st_info sy mod 16 \<noteq> ty | None \<Rightarrow> False) then symbol_loop symbolType sec_idx syms names
      else if st_shndx sy = sec_idx then
        cpp_bind (attempt (getSymName (st_name sy))) (\<lambda>r.
          case r of Inl c \<Rightarrow> cpp_ret (c, names) | Inr s \<Rightarrow> symbol_loop symbolType sec_idx syms (names @ [s]))
      else symbol_loop symbolType sec_idx syms names)"

definition getSectionSymNames ::
  "string \<Rightarrow> nat option \<Rightarrow> ('s elf_stream_scheme, int \<times> string list) cpp_fun" where
  "getSectionSymNames sectionName symbolType =
     cpp_bind (attempt (cpp_bind (readSymTab True) (\<lambda>symtab.
       cpp_bind readSectionHeadersAll (\<lambda>shTable.
       cpp_bind (section_loop sectionName 0 shTable) (\<lambda>sec_idx.
       case sec_idx of None \<Rightarrow> cpp_code (- 1) | Some i \<Rightarrow> cpp_ret (symtab, i)))))) (\<lambda>r.
     case r of
       Inl c \<Rightarrow> cpp_ret (c, [])
     | Inr (symtab, i) \<Rightarrow> symbol_loop symbolType i symtab [])"

definition getSymNameByIdx :: "nat \<Rightarrow> ('s elf_stream_scheme, string) cpp_fun" where
  "getSymNameByIdx idx =
     cpp_bind (readSymTab False) (\<lambda>symtab.
     if to_int idx \<ge> to_int (length symtab) then cpp_code (- 1)
     else if to_int idx < 0 then cpp_undefined
     else cpp_bind (at_index symtab idx) (\<lambda>sy. getSymName (st_name sy)))"

subsection \<open>Program types\<close>

type_synonym bpf_prog_type = int

definition BPF_PROG_TYPE_UNSPEC :: bpf_prog_type where "BPF_PROG_TYPE_UNSPEC = 0"
definition BPF_PROG_TYPE_SOCKET_FILTER :: bpf_prog_type where "BPF_PROG_TYPE_SOCKET_FILTER = 1"
definition BPF_PROG_TYPE_KPROBE :: bpf_prog_type where "BPF_PROG_TYPE_KPROBE = 2"
definition BPF_PROG_TYPE_TRACEPOINT :: bpf_prog_type where "BPF_PROG_TYPE_TRACEPOINT = 5"
definition BPF_PROG_TYPE_PERF_EVENT :: bpf_prog_type where "BPF_PROG_TYPE_PERF_EVENT = 7"

definition sectionNameTypes :: "(string \<times> bpf_prog_type) list" where
  "sectionNameTypes =
     [(''kprobe/'', BPF_PROG_TYPE_KPROBE), (''kretprobe/'', BPF_PROG_TYPE_KPROBE),
      (''perf_event/'', BPF_PROG_TYPE_PERF_EVENT), (''skfilter/'', BPF_PROG_TYPE_SOCKET_FILTER),
      (''tracepoint/'', BPF_PROG_TYPE_TRACEPOINT), (''uprobe/'', BPF_PROG_TYPE_KPROBE),
      (''uretprobe/'', BPF_PROG_TYPE_KPROBE)]"

text \<open>The type of FUSE programs is read from a file of the kernel, a parameter.\<close>

definition getSectionType :: "bpf_prog_type \<Rightarrow> string \<Rightarrow> bpf_prog_type" where
  "getSectionType fuse name =
     (case find (\<lambda>snt. prefix (fst snt) name) sectionNameTypes of
        Some snt \<Rightarrow> snd snt
      | None \<Rightarrow> if prefix ''fuse/'' name then fuse else BPF_PROG_TYPE_UNSPEC)"

fun allowed_loop :: "bpf_prog_type \<Rightarrow> bpf_prog_type \<Rightarrow> bpf_prog_type list \<Rightarrow> bool" where
  "allowed_loop fuse ty [] = False"
| "allowed_loop fuse ty (a # as) =
     (if a = BPF_PROG_TYPE_UNSPEC then (if ty = fuse then True else allowed_loop fuse ty as)
      else if ty = a then True else allowed_loop fuse ty as)"

definition IsAllowed :: "bpf_prog_type \<Rightarrow> bpf_prog_type \<Rightarrow> bpf_prog_type list option \<Rightarrow> bool" where
  "IsAllowed fuse ty allowed = (case allowed of None \<Rightarrow> True | Some as \<Rightarrow> allowed_loop fuse ty as)"

subsection \<open>Code sections\<close>

record bpf_prog_def =
  pd_uid :: nat
  pd_gid :: nat
  pd_min_kver :: nat
  pd_max_kver :: nat
  pd_optional :: bool

definition prog_def_of :: "char list \<Rightarrow> bpf_prog_def" where
  "prog_def_of bs = \<lparr>pd_uid = field bs 0 4, pd_gid = field bs 4 4, pd_min_kver = field bs 8 4,
     pd_max_kver = field bs 12 4, pd_optional = (field bs 16 1 \<noteq> 0)\<rparr>"

definition readProgDefs :: "('s elf_stream_scheme, bpf_prog_def list) cpp_fun" where
  "readProgDefs =
     cpp_bind (readSectionByName ''progs'') (\<lambda>pdData.
     if length pdData mod 92 \<noteq> 0 then cpp_code (- 1)
     else cpp_ret (array_of 92 (length pdData div 92) prog_def_of pdData))"

record codeSection =
  cs_type :: bpf_prog_type
  cs_name :: string
  cs_data :: "char list"
  cs_rel_data :: "char list"
  cs_prog_def :: "bpf_prog_def option"

definition slashes_to_underscores :: "string \<Rightarrow> string" where
  "slashes_to_underscores name = map (\<lambda>c. if c = CHR ''/'' then CHR ''_'' else c) name"

fun def_loop :: "string \<Rightarrow> nat \<Rightarrow> string list \<Rightarrow> bpf_prog_def list \<Rightarrow> ('s, bpf_prog_def option) cpp_fun" where
  "def_loop name j [] pd = cpp_ret None"
| "def_loop name j (n # ns) pd =
     (if n = name @ ''_def'' then cpp_bind (at_index pd j) (\<lambda>d. cpp_ret (Some d)) else def_loop name (Suc j) ns pd)"

text \<open>The section with the relocations is the one after the code, if it has the right name.\<close>

definition read_rel :: "nat \<Rightarrow> string \<Rightarrow> Elf64_Shdr list \<Rightarrow> ('s elf_stream_scheme, char list) cpp_fun" where
  "read_rel i oldName shTable =
     cpp_bind (at_index shTable (i + 1)) (\<lambda>sh.
     cpp_bind (getSymName (sh_name sh)) (\<lambda>name.
     if name = ''.rel'' @ oldName then readSectionByIdx (i + 1) else cpp_ret []))"

text \<open>One round of the loop; \<^const>\<open>None\<close> for the early return of the whole function.\<close>

definition code_section ::
  "bpf_prog_type \<Rightarrow> bpf_prog_type list option \<Rightarrow> Elf64_Shdr list \<Rightarrow> bpf_prog_def list \<Rightarrow> string list \<Rightarrow> nat
     \<Rightarrow> ('s elf_stream_scheme, codeSection list option) cpp_fun" where
  "code_section fuse allowed shTable pd progDefNames i =
     cpp_bind (at_index shTable i) (\<lambda>sh.
     cpp_bind (getSymName (sh_name sh)) (\<lambda>name.
     let ptype = getSectionType fuse name in
     if ptype = BPF_PROG_TYPE_UNSPEC then cpp_ret (Some [])
     else if \<not> IsAllowed fuse ptype allowed then cpp_code (- 1)
     else
       cpp_bind (readSectionByIdx i) (\<lambda>data.
       cpp_bind (getSectionSymNames name (Some STT_FUNC)) (\<lambda>(ret, csSymNames).
       if ret \<noteq> 0 then cpp_code ret
       else case csSymNames of
         [] \<Rightarrow> cpp_ret None
       | sy # _ \<Rightarrow>
           cpp_bind (def_loop sy 0 progDefNames pd) (\<lambda>prog_def.
           if data = [] then cpp_ret (Some [])
           else
             cpp_bind (read_rel i name shTable) (\<lambda>rel_data.
             cpp_ret (Some [\<lparr>cs_type = ptype, cs_name = slashes_to_underscores name, cs_data = data,
               cs_rel_data = rel_data, cs_prog_def = prog_def\<rparr>])))))))"

fun code_loop ::
  "bpf_prog_type \<Rightarrow> bpf_prog_type list option \<Rightarrow> Elf64_Shdr list \<Rightarrow> bpf_prog_def list \<Rightarrow> string list \<Rightarrow> nat list
     \<Rightarrow> codeSection list \<Rightarrow> ('s elf_stream_scheme, codeSection list) cpp_fun" where
  "code_loop fuse allowed shTable pd progDefNames [] cs = cpp_ret cs"
| "code_loop fuse allowed shTable pd progDefNames (i # is) cs =
     cpp_bind (code_section fuse allowed shTable pd progDefNames i) (\<lambda>r.
     case r of
       None \<Rightarrow> cpp_ret cs
     | Some new \<Rightarrow> code_loop fuse allowed shTable pd progDefNames is (cs @ new))"

definition readCodeSections ::
  "bpf_prog_type \<Rightarrow> bpf_prog_type list option \<Rightarrow> ('s elf_stream_scheme, codeSection list) cpp_fun" where
  "readCodeSections fuse allowed =
     cpp_bind readSectionHeadersAll (\<lambda>shTable.
     cpp_bind readProgDefs (\<lambda>pd.
     cpp_bind (getSectionSymNames ''progs'' None) (\<lambda>(ret, progDefNames).
     if pd \<noteq> [] \<and> ret \<noteq> 0 then cpp_code ret
     else code_loop fuse allowed shTable pd progDefNames [0..<length shTable] [])))"

subsection \<open>What a function leaves behind and what it gives\<close>

text \<open>
  \<^term>\<open>yields R Q m\<close>: the function \<open>m\<close> takes every state to one that is related to it by \<open>R\<close>, whatever the outcome, and what a
  successful call gives satisfies \<open>Q\<close>. For a relation that is reflexive and transitive the rules follow the structure of the code.
\<close>

definition yields :: "('s \<Rightarrow> 's \<Rightarrow> bool) \<Rightarrow> ('a \<Rightarrow> bool) \<Rightarrow> ('s, 'a) cpp_fun \<Rightarrow> bool" where
  "yields R Q m \<longleftrightarrow> (\<forall>s. R s (snd (m s)) \<and> (\<forall>x. fst (m s) = Val x \<longrightarrow> Q x))"

lemma yields_mono:
  assumes "yields R P m" and "\<And>s s'. R s s' \<Longrightarrow> S s s'" and "\<And>x. P x \<Longrightarrow> Q x"
  shows "yields S Q m"
  using assms by (auto simp: yields_def)

locale effects =
  fixes R :: "'s \<Rightarrow> 's \<Rightarrow> bool"
  assumes R_refl: "R s s"
    and R_trans: "R s t \<Longrightarrow> R t u \<Longrightarrow> R s u"
begin

lemma ret: "Q x \<Longrightarrow> yields R Q (cpp_ret x)"
  by (simp add: yields_def cpp_ret_def R_refl)

lemma stop: "yields R Q (cpp_code c)" "yields R Q cpp_undefined" "yields R Q cpp_abort"
  by (simp_all add: yields_def cpp_code_def cpp_undefined_def cpp_abort_def R_refl)

lemma bind:
  assumes m: "yields R P m" and f: "\<And>x. P x \<Longrightarrow> yields R Q (f x)"
  shows "yields R Q (cpp_bind m f)"
  unfolding yields_def
proof
  fix s
  obtain r t where ms: "m s = (r, t)" by (cases "m s")
  with m have R: "R s t" and P: "\<And>x. r = Val x \<Longrightarrow> P x"
    unfolding yields_def by (metis snd_conv, metis fst_conv)
  show "R s (snd (cpp_bind m f s)) \<and> (\<forall>x. fst (cpp_bind m f s) = Val x \<longrightarrow> Q x)"
  proof (cases r)
    case (Val x)
    with f [OF P] have "R t (snd (f x t)) \<and> (\<forall>y. fst (f x t) = Val y \<longrightarrow> Q y)" by (simp add: yields_def)
    with Val R show ?thesis by (auto simp: cpp_bind_def ms intro: R_trans)
  qed (simp_all add: cpp_bind_def ms R)
qed

lemma andThen: "yields R (\<lambda>_. True) m \<Longrightarrow> (\<And>x. yields R Q (f x)) \<Longrightarrow> yields R Q (cpp_bind m f)"
  by (rule bind)

lemma attempted: "yields R P m \<Longrightarrow> yields R (\<lambda>r. case r of Inl _ \<Rightarrow> True | Inr x \<Rightarrow> P x) (attempt m)"
  unfolding yields_def by (auto simp: attempt_def split: prod.splits cpp.splits) (metis fst_conv snd_conv)+

lemma tried: "yields R (\<lambda>_. True) m \<Longrightarrow> yields R (\<lambda>_. True) (attempt m)"
  by (rule yields_mono [OF attempted]) auto

lemma index: "(\<And>x. x \<in> set xs \<Longrightarrow> Q x) \<Longrightarrow> yields R Q (at_index xs i)"
  by (simp add: at_index_def ret stop)

lemma string: "(\<And>x. Q x) \<Longrightarrow> yields R Q (c_string_at buf offs)"
  by (simp add: c_string_at_def ret stop)

lemma branch: "(b \<Longrightarrow> yields R Q m) \<Longrightarrow> (\<not> b \<Longrightarrow> yields R Q m') \<Longrightarrow> yields R Q (if b then m else m')"
  by simp

end

text \<open>Reading changes nothing but the state of the stream.\<close>

definition same_file :: "'s elf_stream_scheme \<Rightarrow> 's elf_stream_scheme \<Rightarrow> bool" where
  "same_file s t \<longleftrightarrow> t = s \<or> t = s\<lparr>failbit := True\<rparr>"

interpretation reading: effects same_file
  by unfold_locales (auto simp: same_file_def)

abbreviation reads :: "('s elf_stream_scheme, 'a) cpp_fun \<Rightarrow> bool" where
  "reads \<equiv> yields same_file (\<lambda>_. True)"

lemmas reading_rules = reading.ret reading.stop reading.andThen reading.tried reading.index reading.string reading.branch

lemma reads_file: "reads (read_at offs n room code)" "reads (read_section sh)"
  by (auto simp: yields_def read_at_def read_section_def same_file_def cpp_abort_def)

lemma reads_sections:
  "reads readElfHeader" "reads readSectionHeadersAll" "reads (readSectionByIdx i)" "reads readSectionHeaderStrtab"
  "reads (getSymName n)"
  unfolding readElfHeader_def readSectionHeadersAll_def readSectionByIdx_def readSectionHeaderStrtab_def getSymName_def
  by (intro reading_rules reads_file TrueI)+

lemma reads_loops: "reads (name_loop name secStrTab shTable)" "reads (type_loop ty shTable)"
  by (induction shTable) (auto simp: reads_file reading.stop split: option.splits bool.splits)

lemma reads_by_name: "reads (readSectionByName name)" "reads (readSectionByType ty)"
  unfolding readSectionByName_def readSectionByType_def by (intro reading_rules reads_sections reads_loops)+

lemma reads_symtab: "reads (readSymTab srt)" "reads (getSymNameByIdx i)"
  unfolding readSymTab_def getSymNameByIdx_def Let_def
  by (intro reading_rules reads_by_name reads_sections TrueI)+

lemma reads_section_loop: "reads (section_loop sectionName i shTable)"
  by (induction shTable arbitrary: i) (auto intro!: reading_rules reads_sections)

lemma reads_symbol_loop: "reads (symbol_loop ty i syms names)"
  by (induction syms arbitrary: names)
    (auto intro!: reading_rules reads_sections split: sum.splits option.splits)

lemma reads_names: "reads (getSectionSymNames sectionName ty)"
  unfolding getSectionSymNames_def
  by (auto intro!: reading_rules reads_symtab reads_sections reads_section_loop reads_symbol_loop
      split: sum.splits option.splits prod.splits)

lemma reads_defs: "reads readProgDefs" "reads (def_loop name j names pd)" "reads (read_rel i oldName shTable)"
proof -
  show "reads readProgDefs" unfolding readProgDefs_def by (intro reading_rules reads_by_name TrueI)
  show "reads (def_loop name j names pd)" by (induction names arbitrary: j) (auto intro!: reading_rules)
  show "reads (read_rel i oldName shTable)" unfolding read_rel_def by (intro reading_rules reads_sections TrueI)
qed

text \<open>The type of every code section that is read was compared with the permitted ones.\<close>

definition section_allowed :: "bpf_prog_type \<Rightarrow> bpf_prog_type list option \<Rightarrow> codeSection \<Rightarrow> bool" where
  "section_allowed fuse allowed c \<longleftrightarrow> IsAllowed fuse (cs_type c) allowed"

lemma code_section_allowed:
  "yields same_file (\<lambda>r. case r of None \<Rightarrow> True | Some new \<Rightarrow> list_all (section_allowed fuse allowed) new)
     (code_section fuse allowed shTable pd names i)"
  unfolding code_section_def Let_def
  by (auto intro!: reading_rules reads_sections reads_names reads_defs simp: section_allowed_def split: prod.splits list.splits)

lemma code_loop_allowed:
  "list_all (section_allowed fuse allowed) cs
     \<Longrightarrow> yields same_file (list_all (section_allowed fuse allowed)) (code_loop fuse allowed shTable pd names is cs)"
  by (induction "is" arbitrary: cs)
    (auto intro!: reading.ret reading.bind [OF code_section_allowed] split: option.splits)

lemma readCodeSections_allowed:
  "yields same_file (list_all (section_allowed fuse allowed)) (readCodeSections fuse allowed)"
  unfolding readCodeSections_def
  by (auto intro!: reading_rules reads_sections reads_defs reads_names code_loop_allowed split: prod.splits)

text \<open>
  The guard of the relocations is \<open>i < entries\<close> where \<open>shTable[i + 1]\<close> is read: when the last section of a file holds
  code, the table is left, so a file whose last section is not empty code has no outcome that C++ defines.
\<close>

lemma last_code_section_not_read:
  assumes "Suc i = length shTable"
  shows "yields same_file (\<lambda>r. r = None \<or> r = Some []) (code_section fuse allowed shTable pd names i :: ('a elf_stream_scheme, _) cpp_fun)"
proof -
  have undef: "cpp_bind (read_rel i name shTable) f = cpp_undefined"
    for name and f :: "_ \<Rightarrow> ('a elf_stream_scheme, codeSection list option) cpp_fun"
    using assms by (simp add: read_rel_def at_index_def cpp_bind_def cpp_undefined_def fun_eq_iff)
  show ?thesis
    unfolding code_section_def Let_def undef
    by (auto intro!: reading_rules reads_sections reads_names reads_defs split: prod.splits list.splits)
qed

end
