(* ===== verification/Bpf_Loader.thy ===== *)
theory Bpf_Loader
  imports Elf_Reader Poll_Loop Processes
begin

section \<open>The loader of the BPF programs\<close>

text \<open>
  The second half of \<open>bpfloader/UprobeStatsBpfLoad.cpp\<close>: creating and pinning the maps of an object, resolving the references of
  its programs to them, loading and pinning the programs, for every object file of the module. The kernel and the file
  system are parameters, functions of the events so far; a system call gives its result or the negated error number.
  The directory of the objects and the prefix of the pinned files are those of \<open>locations\<close>. Log lines are left out.
\<close>

subsection \<open>Requests and events\<close>

record map_req =
  mr_type :: nat
  mr_key_size :: nat
  mr_value_size :: nat
  mr_max_entries :: nat
  mr_map_flags :: nat
  mr_name :: string

record prog_req =
  pr_type :: bpf_prog_type
  pr_kern_version :: nat
  pr_license :: string
  pr_insns :: "char list"
  pr_name :: string

datatype ld_event =
    LdMapCreate map_req int
  | LdPin string int int
  | LdChmod string nat int
  | LdChown string nat nat int
  | LdProgLoad prog_req int
  | LdMkdir string int
  | LdExec string

record map_info =
  mi_type :: int
  mi_key_size :: int
  mi_value_size :: int
  mi_max_entries :: int
  mi_map_flags :: int

record loader_env =
  kernelVersion :: nat
  page_size :: nat
  fuse_prog_type :: bpf_prog_type
  path_exists :: "ld_event list \<Rightarrow> string \<Rightarrow> bool"
  mapRetrieveRO :: "ld_event list \<Rightarrow> string \<Rightarrow> int"
  bpf_map_create :: "ld_event list \<Rightarrow> map_req \<Rightarrow> int"
  fd_map_info :: "ld_event list \<Rightarrow> int \<Rightarrow> map_info"
  bpfFdPin :: "ld_event list \<Rightarrow> int \<Rightarrow> string \<Rightarrow> int"
  sys_chmod :: "ld_event list \<Rightarrow> string \<Rightarrow> nat \<Rightarrow> int"
  sys_chown :: "ld_event list \<Rightarrow> string \<Rightarrow> nat \<Rightarrow> nat \<Rightarrow> int"
  retrievePinnedProgram :: "ld_event list \<Rightarrow> string \<Rightarrow> int"
  bpf_prog_load :: "ld_event list \<Rightarrow> prog_req \<Rightarrow> int"
  read_object :: "string \<Rightarrow> char list option"
  read_directory :: "string \<Rightarrow> string list option"
  sys_mkdir :: "ld_event list \<Rightarrow> string \<Rightarrow> int"

record loader_state = elf_stream +
  ld_events :: "ld_event list"

type_synonym 'a loader = "(loader_state, 'a) cpp_fun"

definition ld_call :: "(ld_event list \<Rightarrow> int) \<Rightarrow> (int \<Rightarrow> ld_event) \<Rightarrow> int loader" where
  "ld_call q e s = (let r = q (ld_events s) in (Val r, s\<lparr>ld_events := ld_events s @ [e r]\<rparr>))"

definition ld_ask :: "(ld_event list \<Rightarrow> 'a) \<Rightarrow> 'a loader" where
  "ld_ask q s = (Val (q (ld_events s)), s)"

text \<open>A call whose failure is returned.\<close>

definition ld_check :: "(ld_event list \<Rightarrow> int) \<Rightarrow> (int \<Rightarrow> ld_event) \<Rightarrow> unit loader" where
  "ld_check q e = cpp_bind (ld_call q e) (\<lambda>r. if r \<noteq> 0 then cpp_code r else cpp_ret ())"

subsection \<open>Names\<close>

definition after_last :: "char \<Rightarrow> string \<Rightarrow> string" where
  "after_last c s = rev (takeWhile (\<lambda>x. x \<noteq> c) (rev s))"

definition before_last :: "char \<Rightarrow> string \<Rightarrow> string" where
  "before_last c s = (if c \<in> set s then rev (tl (dropWhile (\<lambda>x. x \<noteq> c) (rev s))) else s)"

definition pathToObjName :: "string \<Rightarrow> string" where
  "pathToObjName path = before_last CHR ''@'' (before_last CHR ''.'' (after_last CHR ''/'' path))"

definition BPF_FS_PATH :: string where "BPF_FS_PATH = ''/sys/fs/bpf/''"

definition mapPinLoc :: "string \<Rightarrow> bool \<Rightarrow> string \<Rightarrow> string \<Rightarrow> string" where
  "mapPinLoc pre shared objName mapName =
     BPF_FS_PATH @ pre @ ''map_'' @ (if shared then [] else objName) @ ''_'' @ mapName"

definition progPinLoc :: "string \<Rightarrow> string \<Rightarrow> string \<Rightarrow> string" where
  "progPinLoc pre objName name = BPF_FS_PATH @ pre @ ''prog_'' @ objName @ ''_'' @ before_last CHR ''$'' name"

subsection \<open>Maps\<close>

record bpf_map_def =
  md_type :: nat
  md_key_size :: nat
  md_value_size :: nat
  md_max_entries :: nat
  md_map_flags :: nat
  md_zero :: nat
  md_gid :: nat
  md_mode :: nat
  md_min_kver :: nat
  md_max_kver :: nat
  md_shared :: bool
  md_uid :: nat

definition map_def_of :: "char list \<Rightarrow> bpf_map_def" where
  "map_def_of bs =
     \<lparr>md_type = field bs 0 4, md_key_size = field bs 4 4, md_value_size = field bs 8 4, md_max_entries = field bs 12 4,
      md_map_flags = field bs 16 4, md_zero = field bs 20 4, md_gid = field bs 24 4, md_mode = field bs 28 4,
      md_min_kver = field bs 40 4, md_max_kver = field bs 44 4, md_shared = (field bs 112 1 \<noteq> 0), md_uid = field bs 116 4\<rparr>"

definition BPF_MAP_TYPE_HASH :: nat where "BPF_MAP_TYPE_HASH = 1"
definition BPF_MAP_TYPE_DEVMAP :: nat where "BPF_MAP_TYPE_DEVMAP = 14"
definition BPF_MAP_TYPE_DEVMAP_HASH :: nat where "BPF_MAP_TYPE_DEVMAP_HASH = 25"
definition BPF_MAP_TYPE_RINGBUF :: nat where "BPF_MAP_TYPE_RINGBUF = 27"
definition BPF_F_RDONLY_PROG :: nat where "BPF_F_RDONLY_PROG = 128"
definition KVER :: "nat \<Rightarrow> nat \<Rightarrow> nat \<Rightarrow> nat" where "KVER a b c = a * 2 ^ 24 + b * 2 ^ 16 + c"
definition ENOTUNIQ :: int where "ENOTUNIQ = 76"
definition LD_EINVAL :: int where "LD_EINVAL = 22"

definition ring_entries :: "loader_env \<Rightarrow> nat \<Rightarrow> nat \<Rightarrow> nat" where
  "ring_entries env ty n = (if ty = BPF_MAP_TYPE_RINGBUF \<and> n < page_size env then page_size env else n)"

definition mapMatchesExpectations :: "loader_env \<Rightarrow> map_info \<Rightarrow> bpf_map_def \<Rightarrow> nat \<Rightarrow> bool" where
  "mapMatchesExpectations env fd mapDef ty =
     (let desired_map_flags = (if ty = BPF_MAP_TYPE_DEVMAP \<or> ty = BPF_MAP_TYPE_DEVMAP_HASH
            then to_int (or (md_map_flags mapDef) BPF_F_RDONLY_PROG) else to_int (md_map_flags mapDef)) in
      mi_type fd = to_int ty \<and> mi_key_size fd = to_int (md_key_size mapDef)
      \<and> mi_value_size fd = to_int (md_value_size mapDef)
      \<and> mi_max_entries fd = to_int (ring_entries env ty (md_max_entries mapDef))
      \<and> mi_map_flags fd = desired_map_flags)"

definition map_type :: "loader_env \<Rightarrow> bpf_map_def \<Rightarrow> nat" where
  "map_type env d =
     (if md_type d = BPF_MAP_TYPE_DEVMAP_HASH \<and> kernelVersion env < KVER 5 4 0 then BPF_MAP_TYPE_HASH else md_type d)"

definition map_request :: "loader_env \<Rightarrow> bpf_map_def \<Rightarrow> string \<Rightarrow> map_req" where
  "map_request env d name =
     \<lparr>mr_type = map_type env d, mr_key_size = md_key_size d, mr_value_size = md_value_size d,
      mr_max_entries = ring_entries env (map_type env d) (md_max_entries d), mr_map_flags = md_map_flags d,
      mr_name = take 15 name\<rparr>"

text \<open>One round of the loop, with the descriptor that is stored for the map (\<open>-1\<close> for one that is skipped).\<close>

definition create_map :: "loader_env \<Rightarrow> string \<Rightarrow> string \<Rightarrow> bpf_map_def \<Rightarrow> string \<Rightarrow> int loader" where
  "create_map env objName pre d name =
     (if md_zero d \<noteq> 0 then cpp_abort
      else if kernelVersion env < md_min_kver d then cpp_ret (- 1)
      else if kernelVersion env \<ge> md_max_kver d then cpp_ret (- 1)
      else
        let loc = mapPinLoc pre (md_shared d) objName name in
        cpp_bind (ld_ask (\<lambda>t. path_exists env t loc)) (\<lambda>reuse.
        cpp_bind (if reuse then ld_ask (\<lambda>t. mapRetrieveRO env t loc)
                  else ld_call (\<lambda>t. bpf_map_create env t (map_request env d name)) (LdMapCreate (map_request env d name))) (\<lambda>fd.
        if fd < 0 then cpp_code fd
        else
          cpp_bind (ld_ask (\<lambda>t. fd_map_info env t fd)) (\<lambda>info.
          if \<not> mapMatchesExpectations env info d (map_type env d) then cpp_code (- ENOTUNIQ)
          else if reuse then cpp_ret fd
          else
            cpp_bind (ld_check (\<lambda>t. bpfFdPin env t fd loc) (LdPin loc fd)) (\<lambda>_.
            cpp_bind (ld_check (\<lambda>t. sys_chmod env t loc (md_mode d)) (LdChmod loc (md_mode d))) (\<lambda>_.
            cpp_bind (ld_check (\<lambda>t. sys_chown env t loc (md_uid d) (md_gid d)) (LdChown loc (md_uid d) (md_gid d))) (\<lambda>_.
            cpp_ret fd)))))))"

fun maps_loop :: "loader_env \<Rightarrow> string \<Rightarrow> string \<Rightarrow> bpf_map_def list \<Rightarrow> nat \<Rightarrow> string list \<Rightarrow> int list loader" where
  "maps_loop env objName pre md i [] = cpp_ret []"
| "maps_loop env objName pre md i (name # names) =
     cpp_bind (at_index md i) (\<lambda>d.
     cpp_bind (create_map env objName pre d name) (\<lambda>fd.
     cpp_bind (maps_loop env objName pre md (Suc i) names) (\<lambda>fds.
     cpp_ret (fd # fds))))"

definition createMaps :: "loader_env \<Rightarrow> string \<Rightarrow> string \<Rightarrow> int list loader" where
  "createMaps env elfPath pre =
     cpp_bind (attempt (readSectionByName ''maps'')) (\<lambda>r.
     case r of
       Inl c \<Rightarrow> if c = - 2 then cpp_ret [] else cpp_code c
     | Inr mdData \<Rightarrow>
         if length mdData mod 120 \<noteq> 0 then cpp_code (- 1)
         else
           cpp_bind (getSectionSymNames ''maps'' None) (\<lambda>(ret, mapNames).
           if ret \<noteq> 0 then cpp_code ret
           else maps_loop env (pathToObjName elfPath) pre (array_of 120 (length mdData div 120) map_def_of mdData) 0 mapNames))"

subsection \<open>Relocation\<close>

record Elf64_Rel =
  r_offset :: nat
  r_info :: nat

definition Rel_of :: "char list \<Rightarrow> Elf64_Rel" where
  "Rel_of bs = \<lparr>r_offset = field bs 0 8, r_info = field bs 8 8\<rparr>"

text \<open>Of an instruction: its code in byte 0, the source register in the upper half of byte 1, the immediate value in bytes 4 to 7.\<close>

definition BPF_LD_IMM_DW :: char where "BPF_LD_IMM_DW = CHR 0x18"

definition applyRelo :: "char list \<Rightarrow> nat \<Rightarrow> int \<Rightarrow> ('s, char list) cpp_fun" where
  "applyRelo insns offs fd =
     (let insnIndex = to_int (offs div 8); p = nat insnIndex * 8 in
      if insnIndex < 0 \<or> length insns \<le> p then cpp_undefined
      else if insns ! p \<noteq> BPF_LD_IMM_DW then cpp_ret insns
      else if length insns < p + 8 then cpp_undefined
      else cpp_ret (take (p + 1) insns @ [char_of (byte_of (insns ! (p + 1)) mod 16 + 16)] @ take 2 (drop (p + 2) insns)
             @ le_bytes 4 (nat (fd mod 2 ^ 32)) @ drop (p + 8) insns))"

fun index_of :: "string list \<Rightarrow> string \<Rightarrow> nat option" where
  "index_of [] s = None"
| "index_of (x # xs) s = (if x = s then Some 0 else map_option Suc (index_of xs s))"

text \<open>The flag tells that the whole function returned.\<close>

fun rel_loop :: "string list \<Rightarrow> int list \<Rightarrow> Elf64_Rel list \<Rightarrow> char list \<Rightarrow> (bool \<times> char list) loader" where
  "rel_loop mapNames mapFds [] data = cpp_ret (False, data)"
| "rel_loop mapNames mapFds (rel # rels) data =
     cpp_bind (attempt (getSymNameByIdx (r_info rel div 2 ^ 32))) (\<lambda>r.
     case r of
       Inl _ \<Rightarrow> cpp_ret (True, data)
     | Inr symName \<Rightarrow>
         (case index_of mapNames symName of
            None \<Rightarrow> rel_loop mapNames mapFds rels data
          | Some j \<Rightarrow>
              cpp_bind (at_index mapFds j) (\<lambda>fd.
              cpp_bind (applyRelo data (r_offset rel) fd) (\<lambda>data.
              rel_loop mapNames mapFds rels data))))"

fun relo_sections :: "string list \<Rightarrow> int list \<Rightarrow> codeSection list \<Rightarrow> codeSection list loader" where
  "relo_sections mapNames mapFds [] = cpp_ret []"
| "relo_sections mapNames mapFds (c # cs) =
     cpp_bind (rel_loop mapNames mapFds (array_of 16 (length (cs_rel_data c) div 16) Rel_of (cs_rel_data c)) (cs_data c))
       (\<lambda>(returned, data).
     let c' = c\<lparr>cs_data := data\<rparr> in
     if returned then cpp_ret (c' # cs)
     else cpp_bind (relo_sections mapNames mapFds cs) (\<lambda>cs'. cpp_ret (c' # cs')))"

definition applyMapRelo :: "int list \<Rightarrow> codeSection list \<Rightarrow> codeSection list loader" where
  "applyMapRelo mapFds cs =
     cpp_bind (getSectionSymNames ''maps'' None) (\<lambda>(ret, mapNames).
     if ret \<noteq> 0 then cpp_ret cs else relo_sections mapNames mapFds cs)"

subsection \<open>Programs\<close>

definition prog_request :: "loader_env \<Rightarrow> string \<Rightarrow> codeSection \<Rightarrow> prog_req" where
  "prog_request env license c =
     \<lparr>pr_type = cs_type c, pr_kern_version = kernelVersion env, pr_license = license,
      pr_insns = take (8 * (length (cs_data c) div 8)) (cs_data c), pr_name = take 15 (cs_name c)\<rparr>"

definition load_program :: "loader_env \<Rightarrow> string \<Rightarrow> string \<Rightarrow> string \<Rightarrow> codeSection \<Rightarrow> unit loader" where
  "load_program env objName license pre c =
     (case cs_prog_def c of
        None \<Rightarrow> cpp_code (- LD_EINVAL)
      | Some d \<Rightarrow>
          if kernelVersion env < pd_min_kver d \<or> kernelVersion env \<ge> pd_max_kver d then cpp_ret ()
          else
            let loc = progPinLoc pre objName (cs_name c) in
            cpp_bind (ld_ask (\<lambda>t. path_exists env t loc)) (\<lambda>reuse.
            if reuse then
              cpp_bind (ld_ask (\<lambda>t. retrievePinnedProgram env t loc)) (\<lambda>fd. if fd < 0 then cpp_code (- 1) else cpp_ret ())
            else
              cpp_bind (ld_call (\<lambda>t. bpf_prog_load env t (prog_request env license c)) (LdProgLoad (prog_request env license c))) (\<lambda>fd.
              if fd < 0 then (if pd_optional d then cpp_ret () else cpp_code (- 1))
              else
                cpp_bind (ld_check (\<lambda>t. bpfFdPin env t fd loc) (LdPin loc fd)) (\<lambda>_.
                cpp_bind (ld_check (\<lambda>t. sys_chmod env t loc 288) (LdChmod loc 288)) (\<lambda>_.
                ld_check (\<lambda>t. sys_chown env t loc (pd_uid d) (pd_gid d)) (LdChown loc (pd_uid d) (pd_gid d)))))))"

fun programs_loop :: "loader_env \<Rightarrow> string \<Rightarrow> string \<Rightarrow> string \<Rightarrow> codeSection list \<Rightarrow> unit loader" where
  "programs_loop env objName license pre [] = cpp_ret ()"
| "programs_loop env objName license pre (c # cs) =
     cpp_bind (load_program env objName license pre c) (\<lambda>_. programs_loop env objName license pre cs)"

definition loadCodeSections :: "loader_env \<Rightarrow> string \<Rightarrow> codeSection list \<Rightarrow> string \<Rightarrow> string \<Rightarrow> unit loader" where
  "loadCodeSections env elfPath cs license pre =
     (if kernelVersion env = 0 then cpp_code (- LD_EINVAL)
      else programs_loop env (pathToObjName elfPath) license pre cs)"

subsection \<open>Objects\<close>

record Location =
  loc_dir :: string
  loc_prefix :: string
  allowedProgTypes :: "bpf_prog_type list option"

definition locations :: "Location list" where
  "locations = [\<lparr>loc_dir = ''/apex/com.android.uprobestats/etc/bpf/uprobestats/'', loc_prefix = ''uprobestats/'',
     allowedProgTypes = Some [BPF_PROG_TYPE_KPROBE]\<rparr>]"

text \<open>\<open>loadProg\<close> after the question whether the object is critical; that section and the license are printed as C strings.\<close>

definition load_object :: "loader_env \<Rightarrow> string \<Rightarrow> Location \<Rightarrow> char list option \<Rightarrow> unit loader" where
  "load_object env elfPath location critical =
     cpp_bind (readSectionByName ''license'') (\<lambda>license.
     cpp_bind (case critical of None \<Rightarrow> cpp_ret [] | Some text \<Rightarrow> c_string_at text 0) (\<lambda>_.
     cpp_bind (c_string_at license 0) (\<lambda>license.
     cpp_bind (readCodeSections (fuse_prog_type env) (allowedProgTypes location)) (\<lambda>cs.
     cpp_bind (createMaps env elfPath (loc_prefix location)) (\<lambda>mapFds.
     cpp_bind (applyMapRelo mapFds cs) (\<lambda>cs.
     loadCodeSections env elfPath cs license (loc_prefix location)))))))"

definition loadProg :: "loader_env \<Rightarrow> string \<Rightarrow> Location \<Rightarrow> (int \<times> bool) loader" where
  "loadProg env elfPath location s =
     (case read_object env elfPath of
        None \<Rightarrow> (Val (- 1, False), s)
      | Some bs \<Rightarrow>
          cpp_bind (attempt (readSectionByName ''critical'')) (\<lambda>crit.
          let critical = (case crit of Inl _ \<Rightarrow> None | Inr text \<Rightarrow> Some text) in
          cpp_bind (attempt (load_object env elfPath location critical)) (\<lambda>r.
          cpp_ret (case r of Inl c \<Rightarrow> c | Inr _ \<Rightarrow> 0, critical \<noteq> None)))
          (s\<lparr>elf_bytes := bs, failbit := False\<rparr>))"

fun objects_loop :: "loader_env \<Rightarrow> Location \<Rightarrow> string list \<Rightarrow> int \<Rightarrow> int loader" where
  "objects_loop env location [] retVal = cpp_ret retVal"
| "objects_loop env location (name # names) retVal =
     (if \<not> suffix ''.o'' name then objects_loop env location names retVal
      else cpp_bind (loadProg env (loc_dir location @ name) location) (\<lambda>(ret, critical).
        objects_loop env location names (if ret \<noteq> 0 \<and> critical then ret else retVal)))"

definition loadAllElfObjects :: "loader_env \<Rightarrow> Location \<Rightarrow> int loader" where
  "loadAllElfObjects env location =
     (case read_directory env (loc_dir location) of
        None \<Rightarrow> cpp_ret 0
      | Some names \<Rightarrow> objects_loop env location names 0)"

definition EEXIST :: int where "EEXIST = 17"

definition createSysFsBpfSubDir :: "loader_env \<Rightarrow> string \<Rightarrow> int loader" where
  "createSysFsBpfSubDir env pre =
     (if pre = [] then cpp_ret 0
      else cpp_bind (ld_call (\<lambda>t. sys_mkdir env t (BPF_FS_PATH @ pre)) (LdMkdir (BPF_FS_PATH @ pre))) (\<lambda>r.
        if r \<noteq> 0 \<and> r \<noteq> - EEXIST then cpp_ret r else cpp_ret 0))"

fun createBpfFsSubDirectories :: "loader_env \<Rightarrow> Location list \<Rightarrow> bool loader" where
  "createBpfFsSubDirectories env [] = cpp_ret False"
| "createBpfFsSubDirectories env (l # ls) =
     cpp_bind (createSysFsBpfSubDir env (loc_prefix l)) (\<lambda>r.
     if r \<noteq> 0 then cpp_ret True else createBpfFsSubDirectories env ls)"

fun legacyBpfLoader :: "loader_env \<Rightarrow> Location list \<Rightarrow> unit loader" where
  "legacyBpfLoader env [] = cpp_ret ()"
| "legacyBpfLoader env (l # ls) = cpp_bind (loadAllElfObjects env l) (\<lambda>_. legacyBpfLoader env ls)"

definition load_all :: "loader_env \<Rightarrow> unit loader" where
  "load_all env =
     cpp_bind (createBpfFsSubDirectories env locations) (\<lambda>failed.
     if failed then cpp_ret () else legacyBpfLoader env locations)"

definition platformBpfLoader :: string where "platformBpfLoader = ''/system/bin/bpfloader''"

text \<open>The exit code in case \<open>execve\<close> returns.\<close>

definition loader_main :: "loader_env \<Rightarrow> int loader" where
  "loader_main env =
     cpp_bind (load_all env) (\<lambda>_.
     cpp_bind (ld_call (\<lambda>_. - 1) (\<lambda>_. LdExec platformBpfLoader)) (\<lambda>_. cpp_ret 1))"

definition loader_start :: loader_state where
  "loader_start = \<lparr>elf_bytes = [], failbit = False, ld_events = []\<rparr>"

subsection \<open>What the loader may do\<close>

definition adds_only :: "(ld_event \<Rightarrow> bool) \<Rightarrow> loader_state \<Rightarrow> loader_state \<Rightarrow> bool" where
  "adds_only P s t \<longleftrightarrow> (\<exists>es. ld_events t = ld_events s @ es \<and> list_all P es)"

interpretation loading: effects "adds_only P" for P
proof unfold_locales
  show "adds_only P s s" for s by (simp add: adds_only_def)
  show "adds_only P s t \<Longrightarrow> adds_only P t u \<Longrightarrow> adds_only P s u" for s t u
    unfolding adds_only_def by (elim exE conjE) (simp add: list_all_append)
qed

lemmas loading_rules = loading.ret loading.stop loading.andThen loading.tried loading.index loading.string loading.branch

lemma reading_adds_nothing: "yields same_file Q m \<Longrightarrow> yields (adds_only P) Q m"
  by (erule yields_mono) (auto simp: same_file_def adds_only_def)

lemmas reads_nothing = reads_by_name [THEN reading_adds_nothing] reads_names [THEN reading_adds_nothing]
  reads_symtab [THEN reading_adds_nothing]

lemma asks: "yields (adds_only P) (\<lambda>_. True) (ld_ask q)"
  by (simp add: yields_def ld_ask_def adds_only_def)

lemma calls: "(\<And>r. P (e r)) \<Longrightarrow> yields (adds_only P) (\<lambda>_. True) (ld_call q e)"
  by (auto simp: yields_def ld_call_def adds_only_def Let_def)

lemma checks: "(\<And>r. P (e r)) \<Longrightarrow> yields (adds_only P) (\<lambda>_. True) (ld_check q e)"
  unfolding ld_check_def by (intro loading_rules calls TrueI)

text \<open>
  Programs are of type \<open>kprobe\<close>, and the file system is changed below the directory of the module only.
\<close>

definition MODULE_DIR :: string where
  "MODULE_DIR = ''/sys/fs/bpf/uprobestats/''"

definition confined :: "ld_event \<Rightarrow> bool" where
  "confined e =
     (case e of
        LdMapCreate _ _ \<Rightarrow> True
      | LdPin path _ _ \<Rightarrow> prefix MODULE_DIR path
      | LdChmod path _ _ \<Rightarrow> prefix MODULE_DIR path
      | LdChown path _ _ _ \<Rightarrow> prefix MODULE_DIR path
      | LdProgLoad req _ \<Rightarrow> pr_type req = BPF_PROG_TYPE_KPROBE
      | LdMkdir path _ \<Rightarrow> path = MODULE_DIR
      | LdExec path \<Rightarrow> path = platformBpfLoader)"

abbreviation confines :: "'a loader \<Rightarrow> bool" where
  "confines \<equiv> yields (adds_only confined) (\<lambda>_. True)"

lemma pins_below: "prefix MODULE_DIR (mapPinLoc ''uprobestats/'' sh obj name)" "prefix MODULE_DIR (progPinLoc ''uprobestats/'' obj name)"
  by (simp_all add: MODULE_DIR_def mapPinLoc_def progPinLoc_def BPF_FS_PATH_def)

lemma confines_maps: "confines (maps_loop env objName ''uprobestats/'' md i names)"
proof (induction names arbitrary: i)
  case (Cons name names)
  have "confines (create_map env objName ''uprobestats/'' d name)" for d
    unfolding create_map_def Let_def
    by (auto intro!: loading_rules asks calls checks simp: confined_def pins_below)
  with Cons show ?case by (auto intro!: loading_rules)
qed (simp add: loading.ret)

lemma confines_createMaps: "confines (createMaps env elfPath ''uprobestats/'')"
  unfolding createMaps_def
  by (auto intro!: loading_rules confines_maps reads_nothing split: sum.splits prod.splits)

text \<open>Relocation changes the code of a section, and nothing else of it.\<close>

lemma applyRelo_adds_nothing: "yields (adds_only P) (\<lambda>_. True) (applyRelo insns offs fd)"
  by (simp add: applyRelo_def Let_def loading.ret loading.stop)

lemma rel_loop_adds_nothing: "yields (adds_only P) (\<lambda>_. True) (rel_loop mapNames mapFds rels data)"
  by (induction rels arbitrary: data)
    (auto intro!: loading_rules reads_nothing applyRelo_adds_nothing split: sum.splits option.splits)

lemma relo_sections_same_types:
  "yields (adds_only P) (\<lambda>cs'. map cs_type cs' = map cs_type cs) (relo_sections mapNames mapFds cs)"
proof (induction cs)
  case (Cons c cs)
  then show ?case
    by (auto intro!: loading.ret loading.andThen [OF rel_loop_adds_nothing] loading.bind [OF Cons.IH] simp: Let_def split: prod.splits)
qed (simp add: loading.ret)

lemma applyMapRelo_same_types:
  "yields (adds_only P) (\<lambda>cs'. map cs_type cs' = map cs_type cs) (applyMapRelo mapFds cs)"
  unfolding applyMapRelo_def
  by (auto intro!: loading.ret loading.andThen [OF reads_nothing(3)] relo_sections_same_types split: prod.splits)

definition kprobe_section :: "codeSection \<Rightarrow> bool" where
  "kprobe_section c \<longleftrightarrow> cs_type c = BPF_PROG_TYPE_KPROBE"

lemma confines_programs:
  "list_all kprobe_section cs \<Longrightarrow> confines (programs_loop env objName license ''uprobestats/'' cs)"
proof (induction cs)
  case (Cons c cs)
  then have "confines (load_program env objName license ''uprobestats/'' c)"
    unfolding load_program_def Let_def
    by (auto intro!: loading_rules asks calls checks simp: confined_def pins_below kprobe_section_def prog_request_def split: option.splits)
  with Cons show ?case by (auto intro!: loading_rules)
qed (simp add: loading.ret)

lemma kprobe_sections_read:
  "yields (adds_only P) (list_all kprobe_section) (readCodeSections fuse (Some [BPF_PROG_TYPE_KPROBE]))"
  by (rule yields_mono [OF readCodeSections_allowed [THEN reading_adds_nothing]])
    (auto simp: section_allowed_def kprobe_section_def IsAllowed_def BPF_PROG_TYPE_KPROBE_def BPF_PROG_TYPE_UNSPEC_def
      list_all_iff split: if_splits)

lemma kprobe_sections_relocated:
  "list_all kprobe_section cs \<Longrightarrow> yields (adds_only P) (list_all kprobe_section) (applyMapRelo mapFds cs)"
  by (rule yields_mono [OF applyMapRelo_same_types])
    (auto simp: kprobe_section_def list_all_length dest: map_eq_imp_length_eq, metis length_map nth_map)

lemma confines_sections:
  assumes "list_all kprobe_section cs"
  shows "confines (cpp_bind (applyMapRelo mapFds cs) (\<lambda>cs. loadCodeSections env elfPath cs license ''uprobestats/''))"
  by (rule loading.bind [OF kprobe_sections_relocated [OF assms]])
    (simp add: loadCodeSections_def loading.stop confines_programs)

lemma confines_load_object:
  assumes "loc_prefix l = ''uprobestats/''" and "allowedProgTypes l = Some [BPF_PROG_TYPE_KPROBE]"
  shows "confines (load_object env elfPath l critical)"
proof -
  have "confines (case critical of None \<Rightarrow> cpp_ret [] | Some text \<Rightarrow> c_string_at text 0)"
    by (auto intro!: loading.ret loading.string split: option.splits)
  then show ?thesis
    unfolding load_object_def assms
    by (intro loading.andThen [OF reads_nothing(1)] loading.andThen [OF loading.string] loading.andThen [OF confines_createMaps]
        loading.bind [OF kprobe_sections_read] confines_sections)
      (rule loading.andThen, assumption, intro loading.andThen [OF loading.string] loading.andThen [OF confines_createMaps]
        loading.bind [OF kprobe_sections_read] confines_sections TrueI, assumption)
qed

lemma confines_loadProg:
  assumes "loc_prefix l = ''uprobestats/''" and "allowedProgTypes l = Some [BPF_PROG_TYPE_KPROBE]"
  shows "confines (loadProg env elfPath l)"
proof (cases "read_object env elfPath")
  case None
  then show ?thesis by (simp add: yields_def loadProg_def loading.R_refl)
next
  case (Some bs)
  let ?body = "cpp_bind (attempt (readSectionByName ''critical'')) (\<lambda>crit.
      let critical = (case crit of Inl _ \<Rightarrow> None | Inr text \<Rightarrow> Some text) in
      cpp_bind (attempt (load_object env elfPath l critical)) (\<lambda>r.
      cpp_ret (case r of Inl c \<Rightarrow> c | Inr _ \<Rightarrow> 0, critical \<noteq> None)))"
  have "confines ?body"
    unfolding Let_def
    by (intro loading.andThen loading.tried reads_nothing loading.ret confines_load_object assms TrueI)
  then have "adds_only confined (s\<lparr>elf_bytes := bs, failbit := False\<rparr>) (snd (loadProg env elfPath l s))" for s
    by (simp add: yields_def loadProg_def Some)
  then show ?thesis by (simp add: yields_def adds_only_def)
qed

lemma confines_objects:
  assumes "loc_prefix l = ''uprobestats/''" and "allowedProgTypes l = Some [BPF_PROG_TYPE_KPROBE]"
  shows "confines (objects_loop env l names retVal)"
  by (induction names arbitrary: retVal)
    (auto intro!: loading.ret loading.andThen [OF confines_loadProg [OF assms]] split: prod.splits)

lemma confines_load_all: "confines (load_all env)"
proof -
  have "confines (createBpfFsSubDirectories env locations)"
    by (auto intro!: loading_rules calls
        simp: locations_def createSysFsBpfSubDir_def confined_def MODULE_DIR_def BPF_FS_PATH_def)
  moreover have "confines (legacyBpfLoader env locations)"
    by (auto intro!: loading_rules confines_objects simp: locations_def loadAllElfObjects_def split: option.splits)
  ultimately show ?thesis
    unfolding load_all_def by (auto intro!: loading_rules)
qed

text \<open>
  C14. Whatever the object files of the module contain and however the kernel answers, every program that the loader asks the kernel
  to load is of type \<open>BPF_PROG_TYPE_KPROBE\<close>, it creates no directory but \<open>/sys/fs/bpf/uprobestats/\<close>, and every file that it pins or whose
  mode or owner it changes has a path that begins with that directory's. This is said of runs up to the point, if there is one, where
  C++ leaves the behaviour undefined, which ends the model.
\<close>

theorem loader_confined: "list_all confined (ld_events (snd (loader_main env loader_start)))"
proof -
  have "confines (loader_main env)"
    unfolding loader_main_def
    by (intro loading.andThen confines_load_all calls loading.ret TrueI) (simp add: confined_def)
  then have "adds_only confined loader_start (snd (loader_main env loader_start))" by (simp add: yields_def)
  then show ?thesis by (simp add: adds_only_def loader_start_def)
qed

subsection \<open>What a successful load leaves behind\<close>

definition program_installed :: "loader_env \<Rightarrow> string \<Rightarrow> string \<Rightarrow> string \<Rightarrow> codeSection \<Rightarrow> ld_event list \<Rightarrow> ld_event list \<Rightarrow> bool" where
  "program_installed env objName license pre c before new =
     (let loc = progPinLoc pre objName (cs_name c); d = the (cs_prog_def c) in
      (\<exists>es. prefix es new \<and> path_exists env (before @ es) loc \<and> retrievePinnedProgram env (before @ es) loc \<ge> 0)
      \<or> (\<exists>fd. {LdProgLoad (prog_request env license c) fd, LdPin loc fd 0, LdChmod loc 288 0,
                LdChown loc (pd_uid d) (pd_gid d) 0} \<subseteq> set new \<and> fd \<ge> 0))"

lemma program_installed_later:
  "program_installed env objName license pre c b new \<Longrightarrow> program_installed env objName license pre c b (new @ later)"
  unfolding program_installed_def Let_def by (auto intro: prefix_prefix)

lemma program_installed_earlier:
  "program_installed env objName license pre c (b @ old) new \<Longrightarrow> program_installed env objName license pre c b (old @ new)"
  unfolding program_installed_def Let_def
  by (elim disjE exE) (metis append.assoc prefix_def, auto)

lemma load_program_adds: "yields (adds_only (\<lambda>_. True)) (\<lambda>_. True) (load_program env objName license pre c)"
  unfolding load_program_def Let_def by (auto intro!: loading_rules asks calls checks split: option.splits)

lemma load_program_installs:
  assumes "load_program env objName license pre c s = (Val (), s')"
    and "cs_prog_def c = Some d" and "pd_min_kver d \<le> kernelVersion env" "kernelVersion env < pd_max_kver d" and "\<not> pd_optional d"
  shows "\<exists>new. ld_events s' = ld_events s @ new \<and> program_installed env objName license pre c (ld_events s) new"
  using assms
  by (auto simp: load_program_def Let_def program_installed_def cpp_bind_def ld_ask_def ld_call_def ld_check_def cpp_ret_def cpp_code_def
      split: if_splits)

lemma bind_Val: "cpp_bind m f s = (Val y, s') \<Longrightarrow> \<exists>x t. m s = (Val x, t) \<and> f x t = (Val y, s')"
  by (auto simp: cpp_bind_def split: prod.splits cpp.splits)

lemma programs_loop_adds: "yields (adds_only (\<lambda>_. True)) (\<lambda>_. True) (programs_loop env objName license pre cs)"
  by (induction cs) (auto intro!: loading.ret loading.andThen [OF load_program_adds])

lemma yields_adds: "yields (adds_only P) Q m \<Longrightarrow> m s = (r, s') \<Longrightarrow> \<exists>new. ld_events s' = ld_events s @ new"
  by (metis adds_only_def snd_conv yields_def)

lemma programs_loop_installs:
  assumes "programs_loop env objName license pre cs s = (Val (), s')"
    and "c \<in> set cs" and d: "cs_prog_def c = Some d" "pd_min_kver d \<le> kernelVersion env" "kernelVersion env < pd_max_kver d" "\<not> pd_optional d"
  shows "\<exists>new. ld_events s' = ld_events s @ new \<and> program_installed env objName license pre c (ld_events s) new"
  using assms(1,2)
proof (induction cs arbitrary: s)
  case (Cons a cs)
  from bind_Val [OF Cons.prems(1) [unfolded programs_loop.simps]] obtain t where
    a: "load_program env objName license pre a s = (Val (), t)"
    and rest: "programs_loop env objName license pre cs t = (Val (), s')" by auto
  obtain old where old: "ld_events t = ld_events s @ old" using yields_adds [OF load_program_adds a] by blast
  show ?case
  proof (cases "c = a")
    case True
    obtain later where "ld_events s' = ld_events t @ later" using yields_adds [OF programs_loop_adds rest] by blast
    moreover obtain new where "ld_events t = ld_events s @ new" "program_installed env objName license pre c (ld_events s) new"
      using load_program_installs [OF a] d True by blast
    ultimately show ?thesis by (auto intro: program_installed_later)
  next
    case False
    with Cons.IH [OF rest] Cons.prems(2) obtain new where
      "ld_events s' = ld_events t @ new" "program_installed env objName license pre c (ld_events t) new" by auto
    with old show ?thesis by (auto dest: program_installed_earlier)
  qed
qed simp

text \<open>An environment where every call succeeds, and a section with a mandatory program.\<close>

definition example_loader :: loader_env where
  "example_loader =
     \<lparr>kernelVersion = KVER 6 1 0, page_size = 4096, fuse_prog_type = 0, path_exists = (\<lambda>_ _. False), mapRetrieveRO = (\<lambda>_ _. - 2),
      bpf_map_create = (\<lambda>_ _. 5), fd_map_info = (\<lambda>_ _. \<lparr>mi_type = 27, mi_key_size = 0, mi_value_size = 0, mi_max_entries = 4096, mi_map_flags = 0\<rparr>),
      bpfFdPin = (\<lambda>_ _ _. 0), sys_chmod = (\<lambda>_ _ _. 0), sys_chown = (\<lambda>_ _ _ _. 0), retrievePinnedProgram = (\<lambda>_ _. - 2),
      bpf_prog_load = (\<lambda>_ _. 6), read_object = (\<lambda>_. None), read_directory = (\<lambda>_. None), sys_mkdir = (\<lambda>_ _. 0)\<rparr>"

definition example_def :: bpf_prog_def where
  "example_def = \<lparr>pd_uid = 1000, pd_gid = 1000, pd_min_kver = 0, pd_max_kver = 2 ^ 32 - 1, pd_optional = False\<rparr>"

definition example_section :: codeSection where
  "example_section =
     \<lparr>cs_type = BPF_PROG_TYPE_KPROBE, cs_name = ''uprobe_exec_transact_internal'', cs_data = CHR 0x95 # replicate 7 NUL, cs_rel_data = [],
      cs_prog_def = Some example_def\<rparr>"

text \<open>
  C18. When the loading of an object's code sections succeeds, every mandatory program whose kernel range covers the running kernel is in
  place: either its pin existed at some moment of the run and could be opened, or exactly the section's instructions, with its type and license, were
  loaded, and the descriptor that the kernel gave for it was pinned at the program's path, readable for owner and group only and owned
  as its definition says.
\<close>

theorem programs_installed:
  assumes "loadCodeSections env elfPath cs license pre s = (Val (), s')" and "c \<in> set cs" and "cs_prog_def c = Some d"
    and "pd_min_kver d \<le> kernelVersion env" and "kernelVersion env < pd_max_kver d" and "\<not> pd_optional d"
  shows "\<exists>new. ld_events s' = ld_events s @ new
     \<and> program_installed env (pathToObjName elfPath) license pre c (ld_events s) new"
  using programs_loop_installs assms by (simp add: loadCodeSections_def cpp_code_def split: if_splits)

lemma example_load:
  "loadCodeSections example_loader ''/apex/com.android.uprobestats/etc/bpf/uprobestats/Binder.o'' [example_section] ''GPL'' ''uprobestats/'' loader_start =
     (Val (), loader_start\<lparr>ld_events :=
       (let loc = ''/sys/fs/bpf/uprobestats/prog_Binder_uprobe_exec_transact_internal'' in
        [LdProgLoad (prog_request example_loader ''GPL'' example_section) 6, LdPin loc 6 0, LdChmod loc 288 0, LdChown loc 1000 1000 0])\<rparr>)"
  by (simp add: loadCodeSections_def example_loader_def example_section_def example_def_def load_program_def cpp_bind_def ld_ask_def
      ld_call_def ld_check_def cpp_ret_def progPinLoc_def pathToObjName_def before_last_def after_last_def BPF_FS_PATH_def KVER_def
      loader_start_def Let_def)

theorem programs_installed_witness:
  "\<exists>new. ld_events (snd (loadCodeSections example_loader ''/apex/com.android.uprobestats/etc/bpf/uprobestats/Binder.o'' [example_section] ''GPL''
       ''uprobestats/'' loader_start)) = new
     \<and> program_installed example_loader ''Binder'' ''GPL'' ''uprobestats/'' example_section [] new"
proof -
  have "pathToObjName ''/apex/com.android.uprobestats/etc/bpf/uprobestats/Binder.o'' = ''Binder''"
    by (simp add: pathToObjName_def before_last_def after_last_def)
  moreover have "ld_events loader_start = []" by (simp add: loader_start_def)
  ultimately show ?thesis
    using programs_installed [OF example_load, of example_section example_def]
    by (simp add: example_load) (simp add: example_section_def example_def_def example_loader_def KVER_def)
qed

text \<open>The same for maps: a map that the running kernel is to have is the one that was pinned before, or was created as its definition says and pinned.\<close>

definition map_in_range :: "loader_env \<Rightarrow> bpf_map_def \<Rightarrow> bool" where
  "map_in_range env d \<longleftrightarrow> md_min_kver d \<le> kernelVersion env \<and> kernelVersion env < md_max_kver d"

definition map_installed ::
  "loader_env \<Rightarrow> string \<Rightarrow> string \<Rightarrow> bpf_map_def \<Rightarrow> string \<Rightarrow> int \<Rightarrow> ld_event list \<Rightarrow> ld_event list \<Rightarrow> bool" where
  "map_installed env objName pre d name fd before new =
     (let loc = mapPinLoc pre (md_shared d) objName name in
      fd \<ge> 0 \<and> (\<exists>es. prefix es new \<and> mapMatchesExpectations env (fd_map_info env (before @ es) fd) d (map_type env d))
      \<and> ((\<exists>es. prefix es new \<and> path_exists env (before @ es) loc \<and> mapRetrieveRO env (before @ es) loc = fd)
         \<or> {LdMapCreate (map_request env d name) fd, LdPin loc fd 0, LdChmod loc (md_mode d) 0, LdChown loc (md_uid d) (md_gid d) 0} \<subseteq> set new))"

lemma map_installed_later:
  "map_installed env objName pre d name fd b new \<Longrightarrow> map_installed env objName pre d name fd b (new @ later)"
  unfolding map_installed_def Let_def by (auto intro: prefix_prefix)

lemma map_installed_earlier:
  "map_installed env objName pre d name fd (b @ old) new \<Longrightarrow> map_installed env objName pre d name fd b (old @ new)"
  unfolding map_installed_def Let_def
  by (elim conjE exE disjE; intro conjI) (auto, (metis append.assoc prefix_def same_prefix_prefix)+)

lemma create_map_adds: "yields (adds_only (\<lambda>_. True)) (\<lambda>_. True) (create_map env objName pre d name)"
  unfolding create_map_def Let_def by (auto intro!: loading_rules asks calls checks)

lemma maps_loop_adds: "yields (adds_only (\<lambda>_. True)) (\<lambda>_. True) (maps_loop env objName pre md i names)"
  by (induction names arbitrary: i) (auto intro!: loading_rules create_map_adds)

lemma create_map_installs:
  assumes "create_map env objName pre d name s = (Val fd, s')" and "map_in_range env d"
  shows "\<exists>new. ld_events s' = ld_events s @ new \<and> map_installed env objName pre d name fd (ld_events s) new"
  using assms
  by (auto simp: create_map_def map_in_range_def Let_def map_installed_def cpp_bind_def ld_ask_def ld_call_def ld_check_def cpp_ret_def
      cpp_code_def cpp_abort_def intro: exI [of _ "[]"] split: if_splits)
    (rule exI [of _ "[LdMapCreate (map_request env d name) (bpf_map_create env (ld_events s) (map_request env d name))]"], simp)

lemma maps_loop_installs:
  assumes "maps_loop env objName pre md i names s = (Val fds, s')"
  shows "length fds = length names \<and> (\<exists>new. ld_events s' = ld_events s @ new \<and> (\<forall>j < length names. map_in_range env (md ! (i + j))
    \<longrightarrow> map_installed env objName pre (md ! (i + j)) (names ! j) (fds ! j) (ld_events s) new))"
  using assms
proof (induction names arbitrary: i s fds)
  case (Cons name names)
  from bind_Val [OF Cons.prems [unfolded maps_loop.simps]] obtain fd fds' t where i: "i < length md"
    and one: "create_map env objName pre (md ! i) name s = (Val fd, t)"
    and rest: "maps_loop env objName pre md (Suc i) names t = (Val fds', s')" and fds: "fds = fd # fds'"
    by (auto simp: at_index_def cpp_ret_def cpp_undefined_def dest!: bind_Val split: if_splits)
  obtain old where old: "ld_events t = ld_events s @ old" using yields_adds [OF create_map_adds one] by blast
  from Cons.IH [OF rest] obtain new where len: "length fds' = length names" and new: "ld_events s' = ld_events t @ new"
    and ih: "\<And>j. j < length names \<Longrightarrow> map_in_range env (md ! (Suc i + j))
      \<Longrightarrow> map_installed env objName pre (md ! (Suc i + j)) (names ! j) (fds' ! j) (ld_events t) new" by blast
  have "map_installed env objName pre (md ! (i + j)) ((name # names) ! j) (fds ! j) (ld_events s) (old @ new)"
    if "j < Suc (length names)" "map_in_range env (md ! (i + j))" for j
  proof (cases j)
    case 0
    with that(2) create_map_installs [OF one] old show ?thesis by (auto simp: fds intro: map_installed_later)
  next
    case (Suc k)
    with that ih [of k] old show ?thesis by (simp add: fds map_installed_earlier)
  qed
  with len new old fds show ?case by auto
qed (simp add: cpp_ret_def)

text \<open>
  A failure is logged and no more, also that of an object that is marked critical: no error code of an object reaches \<open>main\<close>, which
  goes on to the platform's loader.
\<close>

definition no_code :: "('s, 'a) cpp_fun \<Rightarrow> bool" where
  "no_code m \<longleftrightarrow> (\<forall>s c. fst (m s) \<noteq> Code c)"

lemma no_code_rules:
  "no_code (cpp_ret x)" "no_code (attempt m)" "no_code (ld_call q e)"
  "no_code m \<Longrightarrow> (\<And>x. no_code (f x)) \<Longrightarrow> no_code (cpp_bind m f)"
  by (auto simp: no_code_def cpp_ret_def attempt_def ld_call_def cpp_bind_def Let_def split: prod.splits cpp.splits) (metis fst_conv)+

lemma no_code_objects: "no_code (objects_loop env l names retVal)"
proof (induction names arbitrary: retVal)
  case (Cons name names)
  have "no_code (loadProg env path l)" for path
  proof -
    have "no_code (cpp_bind (attempt (readSectionByName ''critical'')) (\<lambda>crit.
        let critical = (case crit of Inl _ \<Rightarrow> None | Inr text \<Rightarrow> Some text) in
        cpp_bind (attempt (load_object env path l critical)) (\<lambda>r. cpp_ret (case r of Inl c \<Rightarrow> c | Inr _ \<Rightarrow> 0, critical \<noteq> None))))"
      unfolding Let_def by (intro no_code_rules)
    then show ?thesis by (simp add: no_code_def loadProg_def split: option.splits)
  qed
  then show ?case by (auto intro!: no_code_rules Cons.IH split: prod.splits)
qed (simp add: no_code_rules)

lemma no_code_load_all: "no_code (load_all env)"
  by (auto intro!: no_code_rules no_code_objects
      simp: load_all_def locations_def createSysFsBpfSubDir_def loadAllElfObjects_def split: option.splits)

lemma loader_hands_over:
  "case loader_main env s of (Val r, t) \<Rightarrow> r = 1 \<and> last (ld_events t) = LdExec platformBpfLoader | (Code _, _) \<Rightarrow> False | _ \<Rightarrow> True"
  using no_code_load_all [of env]
  by (auto simp: loader_main_def cpp_bind_def ld_call_def cpp_ret_def no_code_def split: prod.splits cpp.splits) (metis fst_conv)

subsection \<open>Relocation\<close>

text \<open>The instruction at the place of the relocation loads the descriptor; nothing else of the code changes.\<close>

lemma applyRelo_patches:
  assumes "p = 8 * i" "i < 2 ^ 31" "p + 8 \<le> length insns" "insns ! p = BPF_LD_IMM_DW" "0 \<le> fd" "fd < 2 ^ 31"
  shows "\<exists>insns'. applyRelo insns p fd s = (Val insns', s) \<and> length insns' = length insns
    \<and> field insns' (p + 4) 4 = nat fd \<and> byte_of (insns' ! (p + 1)) div 16 = 1
    \<and> (\<forall>j < length insns. j \<noteq> p + 1 \<and> (j < p + 4 \<or> p + 8 \<le> j) \<longrightarrow> insns' ! j = insns ! j)"
proof -
  have idx: "to_int i = int i"
    using assms(2) sint_of_int_in_range [where 'n = 32 and v = "int i"] by (simp add: to_int_def)
  let ?b = "char_of (byte_of (insns ! (p + 1)) mod 16 + 16) :: char"
  let ?new = "take (p + 1) insns @ [?b] @ take 2 (drop (p + 2) insns) @ le_bytes 4 (nat fd) @ drop (p + 8) insns"
  have "fd mod 2 ^ 32 = fd" using assms(5,6) by simp
  then have "applyRelo insns p fd s = (Val ?new, s)"
    using assms by (simp add: applyRelo_def idx Let_def cpp_ret_def mult.commute)
  moreover have "length ?new = length insns" using assms(3) by simp
  moreover have "field ?new (p + 4) 4 = nat fd"
    using assms(3,5,6) by (simp add: field_def del: le_bytes.simps)
  moreover have "byte_of (?new ! (p + 1)) div 16 = 1"
  proof -
    have "(n + 16) mod 256 div 16 = 1" if "n < 16" for n :: nat using that by simp
    then have "(byte_of (insns ! (p + 1)) mod 16 + 16) mod 256 div 16 = 1" by simp
    moreover have "?new ! (p + 1) = ?b" using assms(3) by (simp add: nth_append)
    ultimately show ?thesis by (simp only: of_char_of)
  qed
  moreover have "?new ! j = insns ! j" if "j < length insns" "j \<noteq> p + 1" "j < p + 4 \<or> p + 8 \<le> j" for j
    using that assms(3) by (auto simp: nth_append nth_Cons' simp del: le_bytes.simps intro!: arg_cong [where f = "(!) insns"])
  ultimately show ?thesis by blast
qed

end
