(* ===== verification/Bpf_Objects.thy ===== *)
theory Bpf_Objects
  imports Bpf_Loader Task_Runner
begin

section \<open>The object files of the module and the paths of the daemon\<close>

text \<open>
  What the files of \<open>bpf_progs/\<close> declare with the macros of \<open>bpf_helpers.h\<close>: the sections of their programs
  (\<open>DEFINE_BPF_PROG\<close>) and their maps with the type (\<open>DEFINE_BPF_MAP_EXT\<close>, \<open>DEFINE_BPF_RINGBUF_EXT\<close>), all of them private. The loader computes from
  these names where it pins programs and maps; the daemon has the paths as constants.
\<close>

record bpf_object =
  obj_file :: string
  obj_progs :: "string list"
  obj_maps :: "(string \<times> nat) list"

definition Accessibility_o :: bpf_object where
  "Accessibility_o =
     \<lparr>obj_file = ''Accessibility.o'', obj_progs = [''uprobe/grant_runtime_permission'', ''uprobe/dispatch_gesture''],
      obj_maps = [(''output_buf'', BPF_MAP_TYPE_RINGBUF)]\<rparr>"

definition ArtTest_o :: bpf_object where
  "ArtTest_o =
     \<lparr>obj_file = ''ArtTest.o'', obj_progs = [''uprobe/update_device_idle_temp_allowlist'', ''uprobe/start_activity_as_user''],
      obj_maps = [(''output_buf_aot'', BPF_MAP_TYPE_RINGBUF), (''output_buf_jit'', BPF_MAP_TYPE_RINGBUF)]\<rparr>"

definition Binder_o :: bpf_object where
  "Binder_o =
     \<lparr>obj_file = ''Binder.o'', obj_progs = [''uprobe/exec_transact_internal''],
      obj_maps = [(''interfaces'', BPF_MAP_TYPE_HASH), (''output_buf'', BPF_MAP_TYPE_RINGBUF)]\<rparr>"

definition BitmapAllocation_o :: bpf_object where
  "BitmapAllocation_o =
     \<lparr>obj_file = ''BitmapAllocation.o'',
      obj_progs = [''uprobe/bitmap_constructor_heap'', ''uprobe/bitmap_creation'', ''uprobe/bitmap_creation_for_snapshot'',
        ''uprobe/apply_free_function'', ''uprobe/activity_perform_start'', ''uprobe/create_scaled_bitmap''],
      obj_maps = [(''output_buf'', BPF_MAP_TYPE_RINGBUF), (''active_bitmaps'', BPF_MAP_TYPE_HASH), (''output'', BPF_MAP_TYPE_RINGBUF)]\<rparr>"

definition DisruptiveApp_o :: bpf_object where
  "DisruptiveApp_o =
     \<lparr>obj_file = ''DisruptiveApp.o'', obj_progs = [''uprobe/bind_service_locked'', ''uprobe/set_component_enabled_setting''],
      obj_maps = [(''BindServiceLocked_output_buf'', BPF_MAP_TYPE_RINGBUF),
        (''ComponentEnabledSetting_output_buf'', BPF_MAP_TYPE_RINGBUF)]\<rparr>"

definition GenericInstrumentation_o :: bpf_object where
  "GenericInstrumentation_o =
     \<lparr>obj_file = ''GenericInstrumentation.o'',
      obj_progs = [''uprobe/call_detail'', ''uprobe/call_timestamp'', ''uprobe/call_timestamp_1'', ''uprobe/call_timestamp_2'',
        ''uprobe/call_timestamp_3'', ''uprobe/call_timestamp_4'', ''uprobe/call_timestamp_5''],
      obj_maps = [(''call_detail_buf'', BPF_MAP_TYPE_RINGBUF), (''call_timestamp_buf'', BPF_MAP_TYPE_RINGBUF)]\<rparr>"

definition ProcessManagement_o :: bpf_object where
  "ProcessManagement_o =
     \<lparr>obj_file = ''ProcessManagement.o'',
      obj_progs = [''uprobe/set_uid_temp_allowlist_state'', ''uprobe/update_device_idle_temp_allowlist'', ''uprobe/set_pid'',
        ''uprobe/make_active'', ''uprobe/on_process_active''],
      obj_maps = [(''output_buf'', BPF_MAP_TYPE_RINGBUF), (''update_device_idle_temp_allowlist_records'', BPF_MAP_TYPE_RINGBUF),
        (''process_change_output_buf'', BPF_MAP_TYPE_RINGBUF)]\<rparr>"

definition module_objects :: "bpf_object list" where
  "module_objects = [BitmapAllocation_o, GenericInstrumentation_o, ProcessManagement_o, DisruptiveApp_o, Binder_o, ArtTest_o, Accessibility_o]"

text \<open>Where the loader pins what these files declare, in the order of \<open>locations\<close>.\<close>

definition prog_pins :: "string list" where
  "prog_pins = concat (map (\<lambda>l. concat (map (\<lambda>ob. map (\<lambda>sec.
     progPinLoc (loc_prefix l) (pathToObjName (loc_dir l @ obj_file ob)) (slashes_to_underscores sec)) (obj_progs ob)) module_objects)) locations)"

definition map_pins :: "nat \<Rightarrow> string list" where
  "map_pins ty = concat (map (\<lambda>l. concat (map (\<lambda>ob. map (\<lambda>(name, _).
     mapPinLoc (loc_prefix l) False (pathToObjName (loc_dir l @ obj_file ob)) name)
       (filter (\<lambda>(_, t). t = ty) (obj_maps ob))) module_objects)) locations)"

lemmas object_defs = module_objects_def Accessibility_o_def ArtTest_o_def Binder_o_def BitmapAllocation_o_def DisruptiveApp_o_def
  GenericInstrumentation_o_def ProcessManagement_o_def

lemmas pin_defs = object_defs locations_def progPinLoc_def mapPinLoc_def pathToObjName_def before_last_def after_last_def
  slashes_to_underscores_def BPF_FS_PATH_def

lemma prog_pins_eval: "prog_pins = map prefix_bpf
    [''prog_BitmapAllocation_uprobe_bitmap_constructor_heap'', ''prog_BitmapAllocation_uprobe_bitmap_creation'',
     ''prog_BitmapAllocation_uprobe_bitmap_creation_for_snapshot'', ''prog_BitmapAllocation_uprobe_apply_free_function'',
     ''prog_BitmapAllocation_uprobe_activity_perform_start'', ''prog_BitmapAllocation_uprobe_create_scaled_bitmap'',
     ''prog_GenericInstrumentation_uprobe_call_detail'', ''prog_GenericInstrumentation_uprobe_call_timestamp'',
     ''prog_GenericInstrumentation_uprobe_call_timestamp_1'', ''prog_GenericInstrumentation_uprobe_call_timestamp_2'',
     ''prog_GenericInstrumentation_uprobe_call_timestamp_3'', ''prog_GenericInstrumentation_uprobe_call_timestamp_4'',
     ''prog_GenericInstrumentation_uprobe_call_timestamp_5'', ''prog_ProcessManagement_uprobe_set_uid_temp_allowlist_state'',
     ''prog_ProcessManagement_uprobe_update_device_idle_temp_allowlist'', ''prog_ProcessManagement_uprobe_set_pid'',
     ''prog_ProcessManagement_uprobe_make_active'', ''prog_ProcessManagement_uprobe_on_process_active'',
     ''prog_DisruptiveApp_uprobe_bind_service_locked'', ''prog_DisruptiveApp_uprobe_set_component_enabled_setting'',
     ''prog_Binder_uprobe_exec_transact_internal'', ''prog_ArtTest_uprobe_update_device_idle_temp_allowlist'',
     ''prog_ArtTest_uprobe_start_activity_as_user'', ''prog_Accessibility_uprobe_grant_runtime_permission'',
     ''prog_Accessibility_uprobe_dispatch_gesture'']"
  by (simp add: prog_pins_def pin_defs prefix_bpf_def BPF_DIR_def)

lemma ring_pins_eval: "map_pins BPF_MAP_TYPE_RINGBUF = map prefix_bpf
    [''map_BitmapAllocation_output_buf'', ''map_BitmapAllocation_output'', ''map_GenericInstrumentation_call_detail_buf'',
     ''map_GenericInstrumentation_call_timestamp_buf'', ''map_ProcessManagement_output_buf'',
     ''map_ProcessManagement_update_device_idle_temp_allowlist_records'', ''map_ProcessManagement_process_change_output_buf'',
     ''map_DisruptiveApp_BindServiceLocked_output_buf'', ''map_DisruptiveApp_ComponentEnabledSetting_output_buf'',
     ''map_Binder_output_buf'', ''map_ArtTest_output_buf_aot'', ''map_ArtTest_output_buf_jit'', ''map_Accessibility_output_buf'']"
  by (simp add: map_pins_def pin_defs prefix_bpf_def BPF_DIR_def BPF_MAP_TYPE_RINGBUF_def BPF_MAP_TYPE_HASH_def)

lemma hash_pins_eval: "map_pins BPF_MAP_TYPE_HASH = map prefix_bpf [''map_BitmapAllocation_active_bitmaps'', ''map_Binder_interfaces'']"
  by (simp add: map_pins_def pin_defs prefix_bpf_def BPF_DIR_def BPF_MAP_TYPE_RINGBUF_def BPF_MAP_TYPE_HASH_def)

lemmas pins_eval = prog_pins_eval ring_pins_eval hash_pins_eval

text \<open>The paths under which the handlers are registered.\<close>

lemma register_handler_keys: "fst ` set (register_handler fuel env hdl ring m) = insert (MAP_PATH hdl) (fst ` set m)"
  by (simp add: register_handler_def hm_insert_def dom_map_of_conv_image_fst [symmetric] update_conv')

lemma handler_paths:
  "MAP_PATH (BitmapAllocationHandlerV0_dict w0 ()) = prefix_bpf ''map_BitmapAllocation_output''"
  "MAP_PATH (BitmapAllocationHandlerV1_dict clk w1) = prefix_bpf ''map_BitmapAllocation_output''"
  "MAP_PATH (CallTimestampHandler w ()) = prefix_bpf ''map_GenericInstrumentation_call_timestamp_buf''"
  "MAP_PATH (CallResultHandler w ()) = prefix_bpf ''map_GenericInstrumentation_call_detail_buf''"
  "MAP_PATH (SetUidTempAllowlistStateRecordHandler w ()) = prefix_bpf ''map_ProcessManagement_output_buf''"
  "MAP_PATH (UpdateDeviceIdleTempAllowlistRecordHandler w ()) =
     prefix_bpf ''map_ProcessManagement_update_device_idle_temp_allowlist_records''"
  "MAP_PATH (BinderTransactionHandler d clk b w ()) = prefix_bpf ''map_Binder_output_buf''"
  "MAP_PATH (AccessibilityHandler_dict d b wa) = prefix_bpf ''map_Accessibility_output_buf''"
  "MAP_PATH (ComponentEnabledSettingHandler d clk b wd ()) = prefix_bpf ''map_DisruptiveApp_ComponentEnabledSetting_output_buf''"
  "MAP_PATH (BindServiceLockedHandler d clk b wd ()) = prefix_bpf ''map_DisruptiveApp_BindServiceLocked_output_buf''"
  "MAP_PATH (AotHandler dbg hs w ()) = prefix_bpf ''map_ArtTest_output_buf_aot''"
  "MAP_PATH (JitHandler hs w ()) = prefix_bpf ''map_ArtTest_output_buf_jit''"
  by (simp_all add: BitmapAllocationHandlerV0_dict_def BitmapAllocationHandlerV1_dict_def CallTimestampHandler_def CallResultHandler_def
      SetUidTempAllowlistStateRecordHandler_def UpdateDeviceIdleTempAllowlistRecordHandler_def BinderTransactionHandler_def
      AccessibilityHandler_dict_def ComponentEnabledSettingHandler_def BindServiceLockedHandler_def AotHandler_def JitHandler_def
      prefix_bpf_def BPF_DIR_def)

lemma registry_paths_pinned: "fst ` set (HANDLER_REGISTRY fuel env) \<subseteq> set (map_pins BPF_MAP_TYPE_RINGBUF)"
  unfolding HANDLER_REGISTRY_def Let_def
  by (simp add: register_handler_keys handler_paths ring_pins_eval)

text \<open>
  C15. The loader and the daemon agree on the file system: every path under which a handler can be registered, whatever the flags, every map whose
  path has a value in the atoms, and the map that process lookup polls is the pin of a ring buffer of one of the module's objects; the binder
  filter is the pin of a hash map; every program that the atoms or process lookup name is the pin of a program. No two of these pins are
  the same.
\<close>

theorem daemon_paths_pinned:
  "fst ` set (HANDLER_REGISTRY fuel env) \<union> prefix_bpf ` (fst ` set map_path_arms \<union> {BPF_MAP_PROCESS_MANAGEMENT})
     \<subseteq> set (map_pins BPF_MAP_TYPE_RINGBUF)
   \<and> BM_MAP_PATH BinderInterfaceBpfMap \<in> set (map_pins BPF_MAP_TYPE_HASH)
   \<and> prefix_bpf ` (fst ` set program_arms \<union> {BPF_PROG_PROCESS_MANAGEMENT_MAKE_ACTIVE, BPF_PROG_PROCESS_MANAGEMENT_ON_PROCESS_ACTIVE})
     \<subseteq> set prog_pins
   \<and> distinct (prog_pins @ map_pins BPF_MAP_TYPE_RINGBUF @ map_pins BPF_MAP_TYPE_HASH)"
proof (intro conjI)
  have "prefix_bpf ` (fst ` set map_path_arms \<union> {BPF_MAP_PROCESS_MANAGEMENT}) \<subseteq> set (map_pins BPF_MAP_TYPE_RINGBUF)"
    by (simp add: ring_pins_eval map_path_arms_def BPF_MAP_PROCESS_MANAGEMENT_def)
  then show "fst ` set (HANDLER_REGISTRY fuel env) \<union> prefix_bpf ` (fst ` set map_path_arms \<union> {BPF_MAP_PROCESS_MANAGEMENT})
     \<subseteq> set (map_pins BPF_MAP_TYPE_RINGBUF)" using registry_paths_pinned by blast
  show "BM_MAP_PATH BinderInterfaceBpfMap \<in> set (map_pins BPF_MAP_TYPE_HASH)"
    by (simp add: hash_pins_eval BinderInterfaceBpfMap_def prefix_bpf_def BPF_DIR_def)
  show "prefix_bpf ` (fst ` set program_arms \<union> {BPF_PROG_PROCESS_MANAGEMENT_MAKE_ACTIVE, BPF_PROG_PROCESS_MANAGEMENT_ON_PROCESS_ACTIVE})
     \<subseteq> set prog_pins"
    by (simp add: prog_pins_eval program_arms_def BPF_PROG_PROCESS_MANAGEMENT_MAKE_ACTIVE_def
        BPF_PROG_PROCESS_MANAGEMENT_ON_PROCESS_ACTIVE_def)
  show "distinct (prog_pins @ map_pins BPF_MAP_TYPE_RINGBUF @ map_pins BPF_MAP_TYPE_HASH)"
    by (simp add: pins_eval prefix_bpf_def)
qed

end
