(* ===== verification/Daemon.thy ===== *)
theory Daemon
  imports Task_Runner Processes
begin

section \<open>The service and the daemon\<close>

text \<open>
  \<open>android/uprobestats_service.rs\<close> and \<open>uprobestats.rs\<close>. Every call of \<open>startTasks\<close> spawns a thread that goes
  through four steps: it resolves its configuration, takes its maps under the lock, executes the
  task, and gives the maps back under the lock. \<open>thread_step\<close> is one such step of one thread,
  \<open>service_step\<close> the interleaving of all of them. A thread that panics while it holds the lock poisons
  it, and \<open>lock().unwrap()\<close> panics on a poisoned lock. Below SDK level 37 there is one task
  and no thread (\<open>handle_tasks\<close>).
\<close>

subsection \<open>Resolving on a device\<close>

record service_env =
  s_daemon :: daemon_env
  s_process :: process_env
  s_parse :: "char list \<Rightarrow> UprobestatsConfig option"
  s_config_file :: "trace \<Rightarrow> char list option"
  s_register :: "trace \<Rightarrow> bool"

text \<open>Step 1 of \<open>android/task.rs\<close>.\<close>

definition task_resolve_config ::
  "nat \<Rightarrow> service_env \<Rightarrow> char list \<Rightarrow> ('h st, ConfigError + ResolvedTask) io" where
  "task_resolve_config fuel env config_bytes =
     resolve_config (e_flags (s_daemon env)) (s_parse env) config_bytes
       (is_user_build (e_device (s_daemon env)))
       (resolve_process fuel (s_process env)) (resolve_offsets (s_process env))"

definition config_error_report :: "ConfigError \<Rightarrow> ('h st, unit) io" where
  "config_error_report e =
     write_internal_error ErrorTypeConfigParseFailed
       (case ConfigError_task_id e of Some i \<Rightarrow> i | None \<Rightarrow> - 1) None None 0"

definition conflict_report :: "ResolvedTask \<Rightarrow> ('h st, unit) io" where
  "conflict_report task = write_internal_error ErrorTypeTaskConflict (rt_id task) None None 0"

subsection \<open>The threads of the service\<close>

datatype service_thread =
    Received "char list"
  | Resolved ResolvedTask
  | Running ResolvedTask
  | Executed ResolvedTask
  | Finished
  | Panicked

record service_state =
  active :: GlobalState
  poisoned :: bool
  world :: trace
  threads :: "service_thread list"

definition service_start :: service_state where
  "service_start = \<lparr>active = None, poisoned = False, world = [], threads = []\<rparr>"

definition startTasks :: "char list \<Rightarrow> service_state \<Rightarrow> service_state" where
  "startTasks config s =
     s\<lparr>world := world s @ [InvocationWrite InvocationTypeStartTasksReceived],
       threads := threads s @ [Received config]\<rparr>"

text \<open>A thread with its next state, under the lock or not. Running out of fuel leaves it where it is.\<close>

definition thread_resolve :: "nat \<Rightarrow> service_env \<Rightarrow> char list \<Rightarrow> service_state \<Rightarrow> service_thread \<times> service_state" where
  "thread_resolve fuel env config s =
     (case task_resolve_config fuel env config ((), world s) of
        (Ok (Inr task), (_, t)) \<Rightarrow> (Resolved task, s\<lparr>world := t\<rparr>)
      | (Ok (Inl e), (_, t)) \<Rightarrow> (Finished, s\<lparr>world := snd (snd (config_error_report e ((), t)))\<rparr>)
      | (NoFuel, (_, t)) \<Rightarrow> (Received config, s\<lparr>world := t\<rparr>)
      | (_, (_, t)) \<Rightarrow> (Panicked, s\<lparr>world := t\<rparr>))"

definition thread_update :: "ResolvedTask \<Rightarrow> service_state \<Rightarrow> service_thread \<times> service_state" where
  "thread_update task s =
     (if poisoned s then (Panicked, s)
      else case update_polled_bpf_maps task (active s, world s) of
        (Ok _, (a, t)) \<Rightarrow> (Running task, s\<lparr>active := a, world := t\<rparr>)
      | (Err _, (a, t)) \<Rightarrow> (Finished, s\<lparr>active := a, world := snd (snd (conflict_report task ((), t)))\<rparr>)
      | (_, (a, t)) \<Rightarrow> (Panicked, s\<lparr>active := a, world := t, poisoned := True\<rparr>))"

definition thread_execute :: "nat \<Rightarrow> service_env \<Rightarrow> ResolvedTask \<Rightarrow> service_state \<Rightarrow> service_thread \<times> service_state" where
  "thread_execute fuel env task s =
     (case execute fuel (s_daemon env) task ((), world s) of
        (Panic _, (_, t)) \<Rightarrow> (Panicked, s\<lparr>world := t\<rparr>)
      | (NoFuel, (_, t)) \<Rightarrow> (Running task, s\<lparr>world := t\<rparr>)
      | (_, (_, t)) \<Rightarrow> (Executed task, s\<lparr>world := t\<rparr>))"

definition thread_cleanup :: "ResolvedTask \<Rightarrow> service_state \<Rightarrow> service_thread \<times> service_state" where
  "thread_cleanup task s =
     (if poisoned s then (Panicked, s)
      else case cleanup_polled_bpf_maps task (active s, world s) of
        (Panic _, (a, t)) \<Rightarrow> (Panicked, s\<lparr>active := a, world := t, poisoned := True\<rparr>)
      | (_, (a, t)) \<Rightarrow> (Finished, s\<lparr>active := a, world := t\<rparr>))"

fun thread_step :: "nat \<Rightarrow> service_env \<Rightarrow> service_thread \<Rightarrow> service_state \<Rightarrow> service_thread \<times> service_state" where
  "thread_step fuel env (Received config) s = thread_resolve fuel env config s"
| "thread_step fuel env (Resolved task) s = thread_update task s"
| "thread_step fuel env (Running task) s = thread_execute fuel env task s"
| "thread_step fuel env (Executed task) s = thread_cleanup task s"
| "thread_step fuel env th s = (th, s)"

definition run_thread_at :: "nat \<Rightarrow> service_env \<Rightarrow> nat \<Rightarrow> service_state \<Rightarrow> service_state" where
  "run_thread_at fuel env i s =
     (if i < length (threads s)
      then case thread_step fuel env (threads s ! i) s of (th, s') \<Rightarrow> s'\<lparr>threads := (threads s)[i := th]\<rparr>
      else s)"

inductive service_step :: "nat \<Rightarrow> service_env \<Rightarrow> service_state \<Rightarrow> service_state \<Rightarrow> bool" for fuel env where
  start: "service_step fuel env s (startTasks config s)"
| run: "i < length (threads s) \<Longrightarrow> service_step fuel env s (run_thread_at fuel env i s)"

inductive reachable :: "nat \<Rightarrow> service_env \<Rightarrow> service_state \<Rightarrow> bool" for fuel env where
  init: "reachable fuel env service_start"
| step: "reachable fuel env s \<Longrightarrow> service_step fuel env s s' \<Longrightarrow> reachable fuel env s'"

inductive_cases service_stepE [consumes 1, case_names start run]: "service_step fuel env s s'"

subsection \<open>The daemon\<close>

definition file_path_to_bytes :: "service_env \<Rightarrow> ('h st, char list) io" where
  "file_path_to_bytes env =
     io_bind (ext_call (s_config_file env) (\<lambda>_. ReadConfigFile)) (\<lambda>content.
     lift_res (ok_or content (Anyhow ''Failed to open file: {e}'')))"

definition handle_tasks :: "nat \<Rightarrow> service_env \<Rightarrow> (GlobalState st, unit) io" where
  "handle_tasks fuel env =
     (if \<not> is_at_least_cinnamon_bun (e_device (s_daemon env)) then
        io_bind (file_path_to_bytes env) (\<lambda>config_bytes.
        io_bind (task_resolve_config fuel env config_bytes) (\<lambda>resolved.
          case resolved of
            Inl e \<Rightarrow> io_then (config_error_report e) (fail (Anyhow ''ConfigError''))
          | Inr task \<Rightarrow>
              io_then (on_err (update_polled_bpf_maps task)
                 (\<lambda>e. io_then (conflict_report task) (fail e)))
              (io_then (execute fuel (s_daemon env) task)
                 (cleanup_polled_bpf_maps task))))
      else
        io_bind (ext_call (s_register env) RegisterService) (\<lambda>ok.
        lift_res (ensure ok (Anyhow ''register_lazy_service''))))"

definition main_impl :: "nat \<Rightarrow> service_env \<Rightarrow> (GlobalState st, unit) io" where
  "main_impl fuel env =
     io_then (emit (InvocationWrite InvocationTypeServiceStarted)) (handle_tasks fuel env)"

text \<open>The exit code of the process, \<^const>\<open>None\<close> when it has not ended (or was aborted by a panic).\<close>

definition main_exit_code :: "nat \<Rightarrow> service_env \<Rightarrow> int option" where
  "main_exit_code fuel env =
     (case fst (main_impl fuel env (None, [])) of Ok _ \<Rightarrow> Some 0 | Err _ \<Rightarrow> Some 1 | _ \<Rightarrow> None)"

subsection \<open>The set of polled maps\<close>

abbreviation maps_of :: "ResolvedTask \<Rightarrow> string set" where
  "maps_of task \<equiv> set (bpf_map_paths task)"

definition polled :: "GlobalState \<Rightarrow> string set" where
  "polled a = (case a of None \<Rightarrow> {} | Some active_state \<Rightarrow> polled_bpf_maps active_state)"

lemma update_polled_run:
  "update_polled_bpf_maps task (a, t) =
     (if maps_of task \<inter> polled a = {}
      then (Ok (), (Some \<lparr>polled_bpf_maps = polled a \<union> maps_of task\<rparr>, t))
      else (Err (Anyhow ''BPF maps already in use: {:?}''), (a, t)))"
  by (cases a) (simp_all add: update_polled_bpf_maps_def polled_def ActiveState_new_def Let_def)

lemma fold_remove: "fold (\<lambda>p s. s - {p}) ps A = A - set ps"
  by (induction ps arbitrary: A) auto

lemma cleanup_polled_run:
  "cleanup_polled_bpf_maps task (a, t) =
     (case a of
        None \<Rightarrow> (Panic ''cleanup_active_maps called with no active state. This should never happen.'', (None, t))
      | Some _ \<Rightarrow> (Ok (), (if polled a \<subseteq> maps_of task then None
                          else Some \<lparr>polled_bpf_maps = polled a - maps_of task\<rparr>, t)))"
  by (cases a) (simp_all add: cleanup_polled_bpf_maps_def polled_def fold_remove Let_def Diff_eq_empty_iff)

text \<open>
  What the service relies on: a task takes its maps only if they are free, and gives exactly them back.
  The lemmas are about any number of holders, of which one acts.
\<close>

definition exclusive :: "'m set list \<Rightarrow> bool" where
  "exclusive hs \<longleftrightarrow> (\<forall>i < length hs. \<forall>j < length hs. i \<noteq> j \<longrightarrow> hs ! i \<inter> hs ! j = {})"

definition others :: "nat \<Rightarrow> 'm set list \<Rightarrow> 'm set" where
  "others i hs = \<Union> {hs ! j |j. j < length hs \<and> j \<noteq> i}"

lemma exclusive_update:
  assumes "exclusive hs" and "M \<inter> others i hs = {}"
  shows "exclusive (hs[i := M])"
  unfolding exclusive_def
proof (intro allI impI)
  fix a b assume ab: "a < length (hs[i := M])" "b < length (hs[i := M])" "a \<noteq> b"
  have M: "M \<inter> hs ! j = {}" if "j < length hs" "j \<noteq> i" for j
    using assms(2) that unfolding others_def by blast
  show "hs[i := M] ! a \<inter> hs[i := M] ! b = {}"
    using ab assms(1) M [of a] M [of b] by (cases "a = i"; cases "b = i") (auto simp: exclusive_def)
qed

lemma Union_update: "i < length hs \<Longrightarrow> \<Union> (set (hs[i := M])) = M \<union> others i hs"
  by (auto simp: others_def set_conv_nth nth_list_update split: if_splits)

lemma Union_others: "i < length hs \<Longrightarrow> \<Union> (set hs) = hs ! i \<union> others i hs"
  using Union_update [of i hs "hs ! i"] by simp

lemma exclusive_others: "exclusive hs \<Longrightarrow> i < length hs \<Longrightarrow> hs ! i \<inter> others i hs = {}"
  by (auto simp: exclusive_def others_def)

locale map_registry =
  fixes maps :: "'t \<Rightarrow> 'm set"
    and used :: "'g \<Rightarrow> 'm set"
    and claim :: "'t \<Rightarrow> 'g \<Rightarrow> 'g option"
    and release :: "'t \<Rightarrow> 'g \<Rightarrow> 'g option"
  assumes claim_free: "claim t g = Some g' \<Longrightarrow> maps t \<inter> used g = {}"
    and claim_adds: "claim t g = Some g' \<Longrightarrow> used g' = used g \<union> maps t"
    and release_removes: "release t g = Some g' \<Longrightarrow> used g' = used g - maps t"
begin

lemma claim_exclusive:
  assumes "exclusive hs" and "\<Union> (set hs) \<subseteq> used g" and "claim t g = Some g'" and "i < length hs" and "hs ! i = {}"
  shows "exclusive (hs[i := maps t])" and "\<Union> (set (hs[i := maps t])) \<subseteq> used g'"
    and "used g = \<Union> (set hs) \<Longrightarrow> used g' = \<Union> (set (hs[i := maps t]))"
proof -
  note split = Union_update [OF assms(4), of "maps t"] Union_others [OF assms(4)]
  show "exclusive (hs[i := maps t])"
    by (rule exclusive_update [OF assms(1)]) (use claim_free [OF assms(3)] assms(2) split(2) in blast)
  show "\<Union> (set (hs[i := maps t])) \<subseteq> used g'"
    and "used g = \<Union> (set hs) \<Longrightarrow> used g' = \<Union> (set (hs[i := maps t]))"
    using split assms(2,5) claim_adds [OF assms(3)] by auto
qed

lemma drop_exclusive:
  assumes "exclusive hs" and "i < length hs"
  shows "exclusive (hs[i := {}])" and "\<Union> (set hs) \<subseteq> used g \<Longrightarrow> \<Union> (set (hs[i := {}])) \<subseteq> used g"
  using assms exclusive_update [of hs "{}" i] Union_update [of i hs "{}"] Union_others [OF assms(2)] by auto

lemma release_exclusive:
  assumes "exclusive hs" and "\<Union> (set hs) \<subseteq> used g" and "release t g = Some g'" and "i < length hs" and "hs ! i = maps t"
  shows "\<Union> (set (hs[i := {}])) \<subseteq> used g'" and "used g = \<Union> (set hs) \<Longrightarrow> used g' = \<Union> (set (hs[i := {}]))"
proof -
  note split = Union_update [OF assms(4), of "{}"] Union_others [OF assms(4)]
  have o: "others i hs \<inter> maps t = {}" using exclusive_others [OF assms(1,4)] assms(5) by blast
  moreover have "others i hs \<subseteq> used g" using split(2) assms(2) by blast
  ultimately show "\<Union> (set (hs[i := {}])) \<subseteq> used g'"
    unfolding split(1) release_removes [OF assms(3)] by blast
  assume "used g = \<Union> (set hs)"
  then have "used g = maps t \<union> others i hs" using split(2) assms(5) by simp
  with o show "used g' = \<Union> (set (hs[i := {}]))"
    unfolding split(1) release_removes [OF assms(3)] by blast
qed

end

definition claim_maps :: "ResolvedTask \<Rightarrow> GlobalState \<Rightarrow> GlobalState option" where
  "claim_maps task a = (case update_polled_bpf_maps task (a, []) of (Ok _, (a', _)) \<Rightarrow> Some a' | _ \<Rightarrow> None)"

definition release_maps :: "ResolvedTask \<Rightarrow> GlobalState \<Rightarrow> GlobalState option" where
  "release_maps task a = (case cleanup_polled_bpf_maps task (a, []) of (Ok _, (a', _)) \<Rightarrow> Some a' | _ \<Rightarrow> None)"

lemma claim_maps_Some_iff:
  "claim_maps task a = Some a' \<longleftrightarrow>
     maps_of task \<inter> polled a = {} \<and> a' = Some \<lparr>polled_bpf_maps = polled a \<union> maps_of task\<rparr>"
  by (auto simp: claim_maps_def update_polled_run)

lemma release_maps_Some_iff:
  "release_maps task a = Some a' \<longleftrightarrow> a \<noteq> None
     \<and> a' = (if polled a \<subseteq> maps_of task then None else Some \<lparr>polled_bpf_maps = polled a - maps_of task\<rparr>)"
  by (cases a) (auto simp: release_maps_def cleanup_polled_run)

interpretation registry: map_registry maps_of polled claim_maps release_maps
  by unfold_locales (auto simp: claim_maps_Some_iff release_maps_Some_iff polled_def split: if_splits option.splits)

text \<open>The steps that touch the registry, in its terms.\<close>

lemma thread_update_eq:
  "thread_update task s =
     (if poisoned s then (Panicked, s)
      else case claim_maps task (active s) of
        Some a \<Rightarrow> (Running task, s\<lparr>active := a\<rparr>)
      | None \<Rightarrow> (Finished, s\<lparr>world := snd (snd (conflict_report task ((), world s)))\<rparr>))"
  by (cases s) (simp add: thread_update_def update_polled_run claim_maps_def)

lemma thread_cleanup_eq:
  "thread_cleanup task s =
     (if poisoned s then (Panicked, s)
      else case release_maps task (active s) of
        Some a \<Rightarrow> (Finished, s\<lparr>active := a\<rparr>)
      | None \<Rightarrow> (Panicked, s\<lparr>poisoned := True\<rparr>))"
  by (cases s; cases "active s") (simp_all add: thread_cleanup_def cleanup_polled_run release_maps_def)

subsection \<open>Invariants of the service\<close>

lemma reachable_induct [consumes 1, case_names init start run]:
  assumes "reachable fuel env s" and "P service_start"
    and "\<And>s config. reachable fuel env s \<Longrightarrow> P s \<Longrightarrow> P (startTasks config s)"
    and "\<And>s i th s'. reachable fuel env s \<Longrightarrow> P s \<Longrightarrow> i < length (threads s) \<Longrightarrow>
           thread_step fuel env (threads s ! i) s = (th, s') \<Longrightarrow> P (s'\<lparr>threads := (threads s)[i := th]\<rparr>)"
  shows "P s"
  using assms(1)
proof induction
  case (step s s')
  from step.hyps(2) show ?case
  proof (cases rule: service_stepE)
    case (run i)
    obtain th s1 where th: "thread_step fuel env (threads s ! i) s = (th, s1)"
      by (cases "thread_step fuel env (threads s ! i) s")
    with run show ?thesis using assms(4) [OF step.hyps(1) step.IH _ th] by (simp add: run_thread_at_def)
  qed (use step assms(3) in blast)
qed (rule assms(2))

text \<open>The maps a thread holds, and its task.\<close>

fun held_maps :: "service_thread \<Rightarrow> string set" where
  "held_maps (Running task) = maps_of task"
| "held_maps (Executed task) = maps_of task"
| "held_maps _ = {}"

fun thread_task :: "service_thread \<Rightarrow> ResolvedTask option" where
  "thread_task (Resolved task) = Some task"
| "thread_task (Running task) = Some task"
| "thread_task (Executed task) = Some task"
| "thread_task _ = None"

text \<open>A step leaves the registry alone, claims, releases, or loses what the thread held.\<close>

lemma thread_step_cases:
  assumes "thread_step fuel env th s = (th', s')"
  obtains (quiet) "active s' = active s" and "poisoned s' = poisoned s" and "held_maps th' = held_maps th"
    | (claims) task where "th = Resolved task" and "th' = Running task" and "\<not> poisoned s"
        and "poisoned s' = poisoned s" and "claim_maps task (active s) = Some (active s')"
    | (releases) task where "th = Executed task" and "th' = Finished" and "\<not> poisoned s"
        and "poisoned s' = poisoned s" and "release_maps task (active s) = Some (active s')"
    | (loses) "active s' = active s" and "th' = Panicked" and "poisoned s' \<or> (\<exists>task. th = Running task)"
        and "poisoned s \<longrightarrow> poisoned s'" and "\<exists>task. th \<in> {Running task, Executed task}"
proof (cases th)
  case (Received config)
  with assms quiet show thesis
    by (auto simp: thread_resolve_def split: prod.splits res.splits sum.splits)
next
  case (Resolved task)
  with assms quiet claims show thesis by (auto simp: thread_update_eq split: if_splits option.splits)
next
  case (Running task)
  with assms quiet loses show thesis by (auto simp: thread_execute_def split: prod.splits res.splits)
next
  case (Executed task)
  with assms releases loses show thesis by (auto simp: thread_cleanup_eq split: if_splits option.splits)
qed (use assms quiet in auto)

abbreviation holders :: "service_state \<Rightarrow> string set list" where
  "holders s \<equiv> map held_maps (threads s)"

lemma startTasks_simps [simp]:
  "active (startTasks c s) = active s" "poisoned (startTasks c s) = poisoned s"
  "threads (startTasks c s) = threads s @ [Received c]"
  by (simp_all add: startTasks_def)

lemma service_start_simps [simp]:
  "active service_start = None" "poisoned service_start = False" "threads service_start = []"
  by (simp_all add: service_start_def)

lemma exclusive_append_empty: "exclusive hs \<Longrightarrow> exclusive (hs @ [{}])"
  by (auto simp: exclusive_def nth_append)

lemma exclusive_Nil [simp]: "exclusive []"
  by (simp add: exclusive_def)

lemma reachable_exclusive:
  "reachable fuel env s \<Longrightarrow>
     exclusive (holders s) \<and> (\<not> poisoned s \<longrightarrow> \<Union> (set (holders s)) \<subseteq> polled (active s))"
proof (induction rule: reachable_induct)
  case (run s i th s')
  let ?hs = "holders s"
  have i: "i < length ?hs" "?hs ! i = held_maps (threads s ! i)" using run.hyps(2) by simp_all
  from run.hyps(3) have "exclusive (?hs[i := held_maps th])
      \<and> (\<not> poisoned s' \<longrightarrow> \<Union> (set (?hs[i := held_maps th])) \<subseteq> polled (active s'))"
  proof (cases rule: thread_step_cases)
    case quiet
    then have "?hs[i := held_maps th] = ?hs" using i by (simp add: list_update_same_conv)
    note eq = this
    show ?thesis unfolding quiet(1,2) eq by (rule run.IH)
  next
    case (claims task)
    have e: "?hs ! i = {}" using i(2) claims(1) by simp
    have IH: "exclusive ?hs" "\<Union> (set ?hs) \<subseteq> polled (active s)" using run.IH claims(3) by blast+
    show ?thesis
      using registry.claim_exclusive(1,2) [OF IH claims(5) i(1) e] unfolding claims(2) held_maps.simps by blast
  next
    case (releases task)
    have e: "?hs ! i = maps_of task" using i(2) releases(1) by simp
    have IH: "exclusive ?hs" "\<Union> (set ?hs) \<subseteq> polled (active s)" using run.IH releases(3) by blast+
    show ?thesis
      using registry.release_exclusive(1) [OF IH releases(5) i(1) e] registry.drop_exclusive(1) [OF IH(1) i(1)]
      unfolding releases(2) held_maps.simps by blast
  next
    case loses
    have IH: "exclusive ?hs" "\<not> poisoned s' \<Longrightarrow> \<Union> (set ?hs) \<subseteq> polled (active s)"
      using run.IH loses(4) by blast+
    show ?thesis
      using registry.drop_exclusive [OF IH(1) i(1)] IH(2) unfolding loses(1,2) held_maps.simps by blast
  qed
  then show ?case by (simp add: map_update)
qed (auto simp: exclusive_append_empty)

text \<open>
  C2. Exclusive access to the maps. In every reachable state of the service, whatever was started in
  whatever order and whichever threads have failed, two tasks that run at the same time (from the
  moment their maps are taken until they are given back) have no map in common.
\<close>

theorem running_tasks_disjoint:
  assumes "reachable fuel env s" and "i < length (threads s)" and "j < length (threads s)" and "i \<noteq> j"
    and "threads s ! i \<in> {Running task, Executed task}" and "threads s ! j \<in> {Running task', Executed task'}"
  shows "maps_of task \<inter> maps_of task' = {}"
proof -
  have "held_maps (threads s ! i) = maps_of task" "held_maps (threads s ! j) = maps_of task'"
    using assms(5,6) by auto
  then show ?thesis
    using reachable_exclusive [OF assms(1)] assms(2-4) unfolding exclusive_def by (metis length_map nth_map)
qed

subsection \<open>The tasks of the service\<close>

text \<open>What the resolver guarantees of a task, with the largest duration a configuration can ask for.\<close>

definition task_wf :: "ResolvedTask \<Rightarrow> bool" where
  "task_wf task \<longleftrightarrow> distinct (bpf_map_paths task) \<and> 0 < rt_duration task
     \<and> rt_duration task \<le> from_secs (2 ^ 31 - 1) \<and> list_all (\<lambda>p. prefix BPF_DIR p) (bpf_map_paths task)"

lemma task_resolve_config_wf:
  assumes "task_resolve_config fuel env config s = (Ok (Inr task), s')"
  shows "task_wf task"
proof -
  from assms [unfolded task_resolve_config_def] obtain cfg tid where
    "resolve_single_task (e_flags (s_daemon env)) (resolve_process fuel (s_process env))
       (resolve_offsets (s_process env)) cfg tid s = (Ok task, s')"
    by (rule resolve_config_Inr)
  from resolve_single_task_Ok [OF this] obtain secs where
    secs: "0 < sint (secs :: i32)" "rt_duration task = from_secs (nat (sint secs))"
    and maps: "maps_of task = prefix_bpf ` set (bpf_maps cfg)" "distinct (bpf_map_paths task)"
    by blast
  note secs
  moreover have "nat (sint secs) \<le> 2 ^ 31 - 1" using sint_lt [of secs] by simp
  ultimately have "rt_duration task \<le> from_secs (2 ^ 31 - 1)" "0 < rt_duration task"
    unfolding from_secs_def by (simp_all only: mult_le_mono)
  with maps show ?thesis by (auto simp: task_wf_def list_all_iff prefix_bpf_def)
qed

lemma thread_step_task:
  assumes "thread_step fuel env th s = (th', s')" and "thread_task th' = Some task"
  shows "thread_task th = Some task
    \<or> (\<exists>config t. th = Received config \<and> task_resolve_config fuel env config ((), world s) = (Ok (Inr task), ((), t)))"
proof (cases th)
  case (Received config)
  with assms show ?thesis by (auto simp: thread_resolve_def split: prod.splits res.splits sum.splits)
qed (use assms in \<open>auto simp: thread_update_eq thread_execute_def thread_cleanup_eq
    split: if_splits option.splits prod.splits res.splits\<close>)

lemma reachable_tasks:
  assumes "\<And>config t task s'. task_resolve_config fuel env config ((), t) = (Ok (Inr task), s') \<Longrightarrow> P task"
  shows "reachable fuel env s \<Longrightarrow> th \<in> set (threads s) \<Longrightarrow> thread_task th = Some task \<Longrightarrow> P task"
proof (induction arbitrary: th task rule: reachable_induct)
  case (run s i th' s')
  show ?case
  proof (cases "th \<in> set (threads s)")
    case False
    with run.prems(1) have "th = th'" using set_update_subset_insert [of "threads s" i th'] by auto
    with thread_step_task [OF run.hyps(3)] run.prems(2) run.IH [OF nth_mem [OF run.hyps(2)]] assms
    show ?thesis by blast
  qed (use run in blast)
qed auto

subsection \<open>Threads come to an end\<close>

text \<open>Both clocks advance, the filter map is a bounded hash map, and the fuel is enough for any task.\<close>

definition live_env :: "nat \<Rightarrow> service_env \<Rightarrow> bool" where
  "live_env fuel env \<longleftrightarrow> ticking (e_clock (s_daemon env)) \<and> ticking (p_clock (s_process env))
     \<and> (\<exists>view. filter_kernel fuel (e_bpf (s_daemon env)) view) \<and> ((2 ^ 31 - 1) * 1000 + 1) * 1000000 < fuel"

lemma live_fuel:
  assumes "live_env fuel env" and "d \<le> from_secs (2 ^ 31 - 1)"
  shows "(as_millis d + 1) * 1000000 < fuel"
proof -
  have "as_millis d \<le> as_millis (from_secs (2 ^ 31 - 1))" using assms(2) unfolding as_millis_def by (rule div_le_mono)
  also have "\<dots> = (2 ^ 31 - 1) * 1000" by (simp add: as_millis_def from_secs_def)
  finally have "(as_millis d + 1) * 1000000 \<le> ((2 ^ 31 - 1) * 1000 + 1) * 1000000" by (intro mult_le_mono1 add_le_mono1)
  also have "\<dots> < fuel" using assms(1) by (simp only: live_env_def)
  finally show ?thesis .
qed

lemma execute_live:
  assumes "live_env fuel env" and "task_wf task"
  shows "\<exists>s'. execute fuel (s_daemon env) task s = (Ok (), s')"
proof -
  obtain view where "filter_kernel fuel (e_bpf (s_daemon env)) view" using assms(1) by (auto simp: live_env_def)
  moreover have "ticking (e_clock (s_daemon env))" using assms(1) by (simp add: live_env_def)
  moreover have "rt_duration task \<le> from_secs (2 ^ 31 - 1)" using assms(2) by (simp add: task_wf_def)
  ultimately show ?thesis by (intro execute_Ok live_fuel [OF assms(1)])
qed

lemma io_returns_collect: "(\<And>x. io_returns (f x)) \<Longrightarrow> io_returns (collect_io f xs)"
  by (induction xs) (auto intro!: io_returns_intros)

lemma io_returns_resolve_offsets: "io_returns (resolve_offsets env process desc)"
proof -
  have "io_returns (retry_offsets api target descriptor 0 backoff)" for api target descriptor backoff
    unfolding io_returns_def
  proof
    fix s :: "'b st"
    obtain h t where s: "s = (h, t)" by (cases s)
    obtain r h' t' where run: "retry_offsets api target descriptor 0 backoff (h, t) = (r, (h', t'))"
      by (cases "retry_offsets api target descriptor 0 backoff (h, t)") auto
    from retry_offsets_run [OF this] run s show "returns (fst (retry_offsets api target descriptor 0 backoff s))"
      by (auto split: if_splits)
  qed
  then show ?thesis
    by (auto simp: resolve_offsets_def to_target_process_def to_method_descriptor_def
        get_executable_method_file_offsets_with_retry_def
        intro!: io_returns_intros io_returns_managers io_returns_case_sum)
qed

lemma io_returns_resolve_probes: "io_returns (resolve_probes fl (resolve_offsets env) process probes)"
  by (auto simp: resolve_probes_def resolve_probe_def Let_def binder_filters_return
      intro!: io_returns_collect io_returns_intros io_returns_resolve_offsets)

lemma io_returns_resolve_single_task:
  assumes "\<And>target sel dur s. dur \<le> from_secs (2 ^ 31 - 1) \<Longrightarrow> returns (fst (rproc target sel dur s))"
  shows "io_returns (resolve_single_task fl rproc (resolve_offsets env) task tid)"
proof -
  have rproc: "io_returns (rproc target sel dur)" if "resolve_duration task = Ok dur" for target sel dur
  proof -
    from that obtain secs :: i32 where "dur = from_secs (nat (sint secs))" by (auto simp: resolve_duration_Ok_iff)
    moreover have "nat (sint secs) \<le> 2 ^ 31 - 1" using sint_lt [of secs] by simp
    ultimately have "dur \<le> from_secs (2 ^ 31 - 1)" unfolding from_secs_def by (simp only: mult_le_mono)
    with assms show ?thesis by (simp add: io_returns_def)
  qed
  from resolve_task_checks_return(3) [of task] consider dur where "resolve_duration task = Ok dur"
    | e where "resolve_duration task = Err e" by (auto simp: returns_iff)
  then show ?thesis
  proof cases
    case (1 dur)
    then show ?thesis
      unfolding resolve_single_task_def 1
      by (auto simp: Let_def intro!: io_returns_bind io_returns_pure resolve_task_checks_return(2)
          io_returns_resolve_probes rproc [OF 1])
  next
    case (2 e)
    then show ?thesis
      unfolding resolve_single_task_def 2
      by (auto intro!: io_returns_bind io_returns_pure resolve_task_checks_return(2))
  qed
qed

lemma wrap_returns: "io_returns m \<Longrightarrow> \<exists>x s'. wrap_config_err w m s = (Ok x, s')"
proof -
  assume "io_returns m"
  then have "returns (fst (m s))" by (simp add: io_returns_def)
  then show ?thesis by (cases "m s"; cases "fst (m s)") (auto simp: wrap_config_err_def io_simps)
qed

lemma resolve_live:
  fixes s :: "'h st"
  assumes "live_env fuel env"
  shows "\<exists>x s'. task_resolve_config fuel env config s = (Ok x, s')"
proof -
  have "returns (fst (resolve_process fuel (s_process env) target sel dur s))" if "dur \<le> from_secs (2 ^ 31 - 1)"
    for target sel dur and s :: "'h st"
  proof -
    have "ticking (p_clock (s_process env))" using assms by (simp add: live_env_def)
    then have "io_returns (resolve_process fuel (s_process env) target sel dur :: ('h st, ResolvedProcess) io)"
      by (rule io_returns_resolve_process [OF _ live_fuel [OF assms that]])
    then show ?thesis unfolding io_returns_def by blast
  qed
  then have single: "io_returns (resolve_single_task fl (resolve_process fuel (s_process env))
      (resolve_offsets (s_process env)) task tid :: ('h st, ResolvedTask) io)" for fl task tid
    by (rule io_returns_resolve_single_task)
  show ?thesis
  proof (cases "s_parse env config")
    case (Some cfg)
    show ?thesis
    proof (cases "\<exists>task. tasks cfg = [task]")
      case True
      then obtain task where t: "tasks cfg = [task]" by blast
      show ?thesis
        using Some t resolve_task_checks_return(1) [of cfg "is_user_build (e_device (s_daemon env))" True]
          wrap_returns [OF single]
        by (cases "is_allowed cfg (is_user_build (e_device (s_daemon env))) True")
          (auto simp: task_resolve_config_def resolve_config_def read_config_from_bytes_def wrap_config_err_res
            resolve_allowed_def Let_def)
    qed (use Some in \<open>auto simp: task_resolve_config_def resolve_config_def read_config_from_bytes_def
        wrap_config_err_res split: list.split\<close>)
  qed (auto simp: task_resolve_config_def resolve_config_def read_config_from_bytes_def wrap_config_err_res)
qed

text \<open>The steps that a thread still has to take.\<close>

fun rank :: "service_thread \<Rightarrow> nat" where
  "rank (Received _) = 4"
| "rank (Resolved _) = 3"
| "rank (Running _) = 2"
| "rank (Executed _) = 1"
| "rank _ = 0"

lemma thread_progress:
  assumes "live_env fuel env" and "\<And>task. thread_task th = Some task \<Longrightarrow> task_wf task"
    and "thread_step fuel env th s = (th', s')"
  shows "rank th' \<le> rank th - 1"
proof (cases th)
  case (Received config)
  obtain x t where "task_resolve_config fuel env config ((), world s) = (Ok x, ((), t))"
    using resolve_live [OF assms(1), of config "((), world s)"] by auto
  with Received assms(3) show ?thesis by (cases x) (auto simp: thread_resolve_def)
next
  case (Running task)
  obtain t where "execute fuel (s_daemon env) task ((), world s) = (Ok (), ((), t))"
    using execute_live [OF assms(1) assms(2), of task "((), world s)"] Running by auto
  with Running assms(3) show ?thesis by (auto simp: thread_execute_def)
qed (use assms(3) in \<open>auto simp: thread_update_eq thread_cleanup_eq split: if_splits option.splits\<close>)

definition run_schedule :: "nat \<Rightarrow> service_env \<Rightarrow> nat list \<Rightarrow> service_state \<Rightarrow> service_state" where
  "run_schedule fuel env turns s = fold (run_thread_at fuel env) turns s"

lemma thread_step_threads: "thread_step fuel env th s = (th', s') \<Longrightarrow> threads s' = threads s"
  by (cases th) (auto simp: thread_resolve_def thread_update_eq thread_execute_def thread_cleanup_eq
      split: if_splits option.splits prod.splits res.splits sum.splits)

lemma run_thread_at_length [simp]: "length (threads (run_thread_at fuel env i s)) = length (threads s)"
  by (simp add: run_thread_at_def split: prod.split)

lemma run_schedule_reachable: "reachable fuel env s \<Longrightarrow> reachable fuel env (run_schedule fuel env turns s)"
  unfolding run_schedule_def
proof (induction turns arbitrary: s)
  case (Cons i turns)
  have "reachable fuel env (run_thread_at fuel env i s)"
    using Cons.prems reachable.step [OF Cons.prems service_step.run, of i] by (cases "i < length (threads s)")
      (simp_all add: run_thread_at_def)
  then show ?case using Cons.IH by simp
qed simp

lemma rank_after:
  assumes "live_env fuel env"
  shows "reachable fuel env s \<Longrightarrow> i < length (threads s) \<Longrightarrow>
    rank (threads (run_schedule fuel env turns s) ! i) \<le> rank (threads s ! i) - count_list turns i"
proof (induction turns arbitrary: s)
  case (Cons j turns)
  let ?s = "run_thread_at fuel env j s"
  have reach: "reachable fuel env ?s"
    using run_schedule_reachable [OF Cons.prems(1), of "[j]"] by (simp add: run_schedule_def)
  have "rank (threads ?s ! i) \<le> rank (threads s ! i) - (if i = j then 1 else 0)"
  proof (cases "i = j")
    case True
    obtain th s' where th: "thread_step fuel env (threads s ! i) s = (th, s')"
      by (cases "thread_step fuel env (threads s ! i) s")
    have "rank th \<le> rank (threads s ! i) - 1"
      by (rule thread_progress [OF assms _ th])
        (rule reachable_tasks [OF task_resolve_config_wf Cons.prems(1) nth_mem [OF Cons.prems(2)]])
    with th True Cons.prems(2) show ?thesis by (simp add: run_thread_at_def)
  qed (simp add: run_thread_at_def split: prod.split)
  then show ?case using Cons.IH [OF reach] Cons.prems(2) by (auto simp: run_schedule_def)
qed (simp add: run_schedule_def)

text \<open>
  C12. Every task ends. Take any reachable state and any schedule of the threads: a thread that gets
  four turns in it is then finished (or has panicked), whatever the other threads do in between,
  if the clocks advance and the filter map is bounded.
\<close>

theorem four_turns_suffice:
  assumes "live_env fuel env" and "reachable fuel env s" and "i < length (threads s)" and "4 \<le> count_list turns i"
  shows "threads (run_schedule fuel env turns s) ! i \<in> {Finished, Panicked}"
proof -
  have "rank (threads s ! i) \<le> 4" by (cases "threads s ! i") auto
  then have "rank (threads (run_schedule fuel env turns s) ! i) = 0"
    using rank_after [OF assms(1-3), of turns] assms(4) by simp
  then show ?thesis by (cases "threads (run_schedule fuel env turns s) ! i") auto
qed

subsection \<open>No thread panics while every task has a map\<close>

definition maps_required :: "service_env \<Rightarrow> bool" where
  "maps_required env \<longleftrightarrow> (\<forall>bytes config task. s_parse env bytes = Some config \<longrightarrow>
     task \<in> set (tasks config) \<longrightarrow> bpf_maps task \<noteq> [])"

lemma resolved_has_maps:
  assumes "maps_required env" and "task_resolve_config fuel env config s = (Ok (Inr task), s')"
  shows "maps_of task \<noteq> {}"
proof -
  from assms(2) [unfolded task_resolve_config_def] obtain cfg tid where
    p: "s_parse env config = Some \<lparr>tasks = [cfg]\<rparr>" and
    "resolve_single_task (e_flags (s_daemon env)) (resolve_process fuel (s_process env))
       (resolve_offsets (s_process env)) cfg tid s = (Ok task, s')"
    by (rule resolve_config_Inr)
  from resolve_single_task_Ok [OF this(2)] have "maps_of task = prefix_bpf ` set (bpf_maps cfg)" by blast
  moreover from assms(1) p have "bpf_maps cfg \<noteq> []" by (auto simp: maps_required_def)
  ultimately show ?thesis by simp
qed

definition service_ok :: "service_state \<Rightarrow> bool" where
  "service_ok s \<longleftrightarrow> \<not> poisoned s \<and> Panicked \<notin> set (threads s)
     \<and> polled (active s) = \<Union> (set (holders s)) \<and> (active s = None \<longleftrightarrow> polled (active s) = {})"

lemma no_panic:
  assumes "live_env fuel env" and "\<And>task. thread_task th = Some task \<Longrightarrow> task_wf task"
    and "thread_step fuel env th s = (th', s')" and "\<not> poisoned s" and "th \<noteq> Panicked"
    and "(\<exists>task. th = Executed task) \<longrightarrow> active s \<noteq> None"
  shows "th' \<noteq> Panicked" and "\<not> poisoned s'"
proof -
  have "th' \<noteq> Panicked \<and> \<not> poisoned s'"
  proof (cases th)
    case (Received config)
    obtain x t where "task_resolve_config fuel env config ((), world s) = (Ok x, ((), t))"
      using resolve_live [OF assms(1), of config "((), world s)"] by auto
    with Received assms(3,4) show ?thesis by (cases x) (auto simp: thread_resolve_def)
  next
    case (Running task)
    obtain t where "execute fuel (s_daemon env) task ((), world s) = (Ok (), ((), t))"
      using execute_live [OF assms(1) assms(2), of task "((), world s)"] Running by auto
    with Running assms(3,4) show ?thesis by (auto simp: thread_execute_def)
  next
    case (Executed task)
    with assms(6) have "release_maps task (active s) \<noteq> None" by (cases "active s") (auto simp: release_maps_def cleanup_polled_run)
    with Executed assms(3,4) show ?thesis by (auto simp: thread_cleanup_eq)
  qed (use assms(3-5) in \<open>auto simp: thread_update_eq split: if_splits option.splits\<close>)
  then show "th' \<noteq> Panicked" and "\<not> poisoned s'" by blast+
qed

lemma reachable_ok:
  assumes "live_env fuel env" and "maps_required env"
  shows "reachable fuel env s \<Longrightarrow> service_ok s"
proof (induction rule: reachable_induct)
  case (run s i th s')
  let ?hs = "holders s" and ?th = "threads s ! i"
  have i: "i < length ?hs" "?hs ! i = held_maps ?th" using run.hyps(2) by simp_all
  note excl = conjunct1 [OF reachable_exclusive [OF run.hyps(1)]]
  have task: "task_wf task \<and> maps_of task \<noteq> {}" if "thread_task ?th = Some task" for task
    by (rule reachable_tasks [OF _ run.hyps(1) nth_mem [OF run.hyps(2)] that])
      (use task_resolve_config_wf resolved_has_maps [OF assms(2)] in blast)
  have ok: "\<not> poisoned s" "?th \<noteq> Panicked" "polled (active s) = \<Union> (set ?hs)"
    "active s = None \<longleftrightarrow> polled (active s) = {}"
    using run.IH nth_mem [OF run.hyps(2)] unfolding service_ok_def by metis+
  have act: "(\<exists>task. ?th = Executed task) \<longrightarrow> active s \<noteq> None"
    using ok(3,4) task i Union_others [OF i(1)] by auto
  have calm: "th \<noteq> Panicked" "\<not> poisoned s'"
    by (rule no_panic [OF assms(1) _ run.hyps(3) ok(1,2) act]; use task in blast)+
  from run.hyps(3) have "polled (active s') = \<Union> (set (?hs[i := held_maps th]))
      \<and> (active s' = None \<longleftrightarrow> polled (active s') = {})"
  proof (cases rule: thread_step_cases)
    case quiet
    then have eq: "?hs[i := held_maps th] = ?hs" using i by (simp add: list_update_same_conv)
    show ?thesis unfolding quiet(1) eq using ok(3,4) by blast
  next
    case (claims task')
    have e: "?hs ! i = {}" using i(2) claims(1) by simp
    have eq: "polled (active s') = \<Union> (set (?hs[i := held_maps th]))"
      unfolding claims(2) held_maps.simps
      by (rule registry.claim_exclusive(3) [OF excl equalityD2 [OF ok(3)] claims(5) i(1) e ok(3)])
    have "active s' \<noteq> None" "polled (active s') \<noteq> {}"
      using claims(5) task [of task'] claims(1) by (auto simp: claim_maps_Some_iff polled_def)
    then show ?thesis by (intro conjI [OF eq]) simp
  next
    case (releases task')
    have e: "?hs ! i = maps_of task'" using i(2) releases(1) by simp
    have eq: "polled (active s') = \<Union> (set (?hs[i := held_maps th]))"
      unfolding releases(2) held_maps.simps
      by (rule registry.release_exclusive(2) [OF excl equalityD2 [OF ok(3)] releases(5) i(1) e ok(3)])
    have "active s' = None \<longleftrightarrow> polled (active s') = {}"
      using releases(5) by (auto simp: release_maps_Some_iff polled_def)
    then show ?thesis by (rule conjI [OF eq])
  qed (use calm in blast)
  moreover have "Panicked \<notin> set ((threads s)[i := th])"
    using run.IH calm(1) set_update_subset_insert [of "threads s" i th] unfolding service_ok_def by blast
  ultimately show ?case using calm(2) by (simp add: service_ok_def map_update)
qed (auto simp: service_ok_def polled_def)

lemma reachable_running_iff:
  assumes "maps_required env" and "reachable fuel env s" and "th \<in> set (threads s)"
  shows "held_maps th = {} \<longleftrightarrow> (\<forall>task. th \<noteq> Running task \<and> th \<noteq> Executed task)"
proof -
  have "maps_of task \<noteq> {}" if "thread_task th = Some task" for task
    by (rule reachable_tasks [OF resolved_has_maps [OF assms(1)] assms(2,3) that])
  then show ?thesis by (cases th) auto
qed

text \<open>
  C3. No thread of the service panics. If every task of every configuration has a map, the clocks advance and the
  filter map is bounded, then in no reachable state is the lock poisoned or has a thread of the service panicked: in
  particular the panic of \<open>cleanup_polled_bpf_maps\<close> cannot happen. The set of polled maps consists of the
  maps of the running tasks, and the state is \<open>None\<close> exactly when no task runs, so that the service may
  be stopped then and only then.
\<close>

theorem service_never_panics:
  assumes "live_env fuel env" and "maps_required env" and "reachable fuel env s"
  shows "\<not> poisoned s \<and> Panicked \<notin> set (threads s) \<and> polled (active s) = \<Union> (set (holders s))
    \<and> (active s = None \<longleftrightarrow> (\<forall>th \<in> set (threads s). \<forall>task. th \<noteq> Running task \<and> th \<noteq> Executed task))"
proof -
  note ok = reachable_ok [OF assms, unfolded service_ok_def]
  have "\<Union> (set (holders s)) = {} \<longleftrightarrow> (\<forall>th \<in> set (threads s). held_maps th = {})" by auto
  also have "\<dots> \<longleftrightarrow> (\<forall>th \<in> set (threads s). \<forall>task. th \<noteq> Running task \<and> th \<noteq> Executed task)"
    using reachable_running_iff [OF assms(2,3)] by blast
  finally show ?thesis using ok by simp
qed

subsection \<open>A task without a map\<close>

lemma run_threads_at:
  "i < length (threads s) \<Longrightarrow> thread_step fuel env (threads s ! i) s = (th, s') \<Longrightarrow>
     run_thread_at fuel env i s = s'\<lparr>threads := (threads s)[i := th]\<rparr>"
  by (simp add: run_thread_at_def)

text \<open>
  A task that the resolver has no reason to reject, whatever its list of maps is: the guardrail allows it, its duration is
  positive, every map that it has is enabled, and its process and its probes can be resolved at any time.
\<close>

definition acceptable_task :: "nat \<Rightarrow> service_env \<Rightarrow> Task \<Rightarrow> bool" where
  "acceptable_task fuel env k \<longleftrightarrow>
     is_allowed \<lparr>tasks = [k]\<rparr> (is_user_build (e_device (s_daemon env))) True = Ok True
     \<and> (\<exists>n. duration_seconds k = Some n \<and> 0 < sint n)
     \<and> list_all (is_bpf_file_enabled (e_flags (s_daemon env))) (bpf_maps k)
     \<and> (\<forall>dur t. \<exists>p s'. resolve_process fuel (s_process env) (target_process_name k)
          (tps_value_or_default (case target_process_selection k of Some v \<Rightarrow> v | None \<Rightarrow> 0)) dur ((), t) = (Ok p, s'))
     \<and> (\<forall>p t. \<exists>ps s'. resolve_probes (e_flags (s_daemon env)) (resolve_offsets (s_process env)) p (probe_configs k)
          ((), t) = (Ok ps, s'))"

lemma acceptable_resolves:
  assumes "s_parse env config = Some \<lparr>tasks = [k]\<rparr>" and "acceptable_task fuel env k"
  shows "\<exists>task t'. task_resolve_config fuel env config ((), t) = (Ok (Inr task), ((), t'))
    \<and> maps_of task = prefix_bpf ` set (bpf_maps k)"
proof -
  let ?fl = "e_flags (s_daemon env)" and ?sel = "tps_value_or_default (case target_process_selection k of Some v \<Rightarrow> v | None \<Rightarrow> 0)"
  let ?tid = "case task_id k of Some i \<Rightarrow> i | None \<Rightarrow> 0"
  note ok = assms(2) [unfolded acceptable_task_def]
  from ok obtain d where d: "resolve_duration k = Ok d" by (auto simp: resolve_duration_Ok_iff)
  have m: "collect_res (resolve_map_path ?fl) (bpf_maps k) = Ok (map prefix_bpf (bpf_maps k))"
    using ok by (intro collect_res_total) (auto simp: resolve_map_path_def list_all_iff)
  from ok obtain p t1 where p: "resolve_process fuel (s_process env) (target_process_name k) ?sel d ((), t) = (Ok p, ((), t1))"
    by force
  from ok obtain ps t2 where ps: "resolve_probes ?fl (resolve_offsets (s_process env)) p (probe_configs k) ((), t1) = (Ok ps, ((), t2))"
    by force
  define task where "task = \<lparr>rt_id = ?tid, rt_duration = d, resolved_process = p, bpf_map_paths = remdups (map prefix_bpf (bpf_maps k)),
      statsd_logging_config = task_statsd_logging_config k, resolved_probes = ps\<rparr>"
  have "resolve_single_task ?fl (resolve_process fuel (s_process env)) (resolve_offsets (s_process env)) k ?tid ((), t)
      = (Ok task, ((), t2))"
    by (simp add: resolve_single_task_def m d io_bind_def p ps task_def)
  then have "task_resolve_config fuel env config ((), t) = (Ok (Inr task), ((), t2))"
    using assms(1) ok by (simp add: task_resolve_config_def resolve_config_def read_config_from_bytes_def
        wrap_config_err_res resolve_allowed_def wrap_config_err_Inr Let_def)
  moreover have "maps_of task = prefix_bpf ` set (bpf_maps k)" by (simp add: task_def)
  ultimately show ?thesis by blast
qed

lemma empty_task_run:
  assumes "live_env fuel env" and "task_wf t1" and "task_wf t2" and "bpf_map_paths t1 = []"
    and "active s = None" and "\<not> poisoned s" and "threads s = [Resolved t1, Resolved t2, Resolved t3]"
  shows "poisoned (run_schedule fuel env [0, 1, 0, 1, 1, 0, 2] s)
    \<and> threads (run_schedule fuel env [0, 1, 0, 1, 1, 0, 2] s) = [Panicked, Finished, Panicked]"
proof -
  have exec: "\<exists>t'. execute fuel (s_daemon env) task ((), t) = (Ok (), ((), t'))" if "task_wf task" for task t
    using execute_live [OF assms(1) that, of "((), t)"] by auto
  obtain w3 where w3: "execute fuel (s_daemon env) t1 ((), world s) = (Ok (), ((), w3))" using exec [OF assms(2)] by blast
  obtain w4 where w4: "execute fuel (s_daemon env) t2 ((), w3) = (Ok (), ((), w4))" using exec [OF assms(3)] by blast
  let ?run = "run_thread_at fuel env"
  have "?run 0 s = s\<lparr>active := Some \<lparr>polled_bpf_maps = {}\<rparr>, threads := [Running t1, Resolved t2, Resolved t3]\<rparr>"
    using assms(4-7) by (simp add: run_thread_at_def thread_update_eq claim_maps_def update_polled_run polled_def)
  moreover have "?run 1 (s\<lparr>active := Some \<lparr>polled_bpf_maps = {}\<rparr>, threads := [Running t1, Resolved t2, Resolved t3]\<rparr>)
      = s\<lparr>active := Some \<lparr>polled_bpf_maps = maps_of t2\<rparr>, threads := [Running t1, Running t2, Resolved t3]\<rparr>"
    using assms(6) by (simp add: run_thread_at_def thread_update_eq claim_maps_def update_polled_run polled_def)
  moreover have "?run 0 (s\<lparr>active := Some \<lparr>polled_bpf_maps = maps_of t2\<rparr>, threads := [Running t1, Running t2, Resolved t3]\<rparr>)
      = s\<lparr>active := Some \<lparr>polled_bpf_maps = maps_of t2\<rparr>, world := w3, threads := [Executed t1, Running t2, Resolved t3]\<rparr>"
    by (simp add: run_thread_at_def thread_execute_def w3)
  moreover have "?run 1 (s\<lparr>active := Some \<lparr>polled_bpf_maps = maps_of t2\<rparr>, world := w3, threads := [Executed t1, Running t2, Resolved t3]\<rparr>)
      = s\<lparr>active := Some \<lparr>polled_bpf_maps = maps_of t2\<rparr>, world := w4, threads := [Executed t1, Executed t2, Resolved t3]\<rparr>"
    by (simp add: run_thread_at_def thread_execute_def w4)
  moreover have "?run 1 (s\<lparr>active := Some \<lparr>polled_bpf_maps = maps_of t2\<rparr>, world := w4, threads := [Executed t1, Executed t2, Resolved t3]\<rparr>)
      = s\<lparr>active := None, world := w4, threads := [Executed t1, Finished, Resolved t3]\<rparr>"
    using assms(6) by (simp add: run_thread_at_def thread_cleanup_eq release_maps_def cleanup_polled_run polled_def)
  moreover have "?run 0 (s\<lparr>active := None, world := w4, threads := [Executed t1, Finished, Resolved t3]\<rparr>)
      = s\<lparr>active := None, world := w4, poisoned := True, threads := [Panicked, Finished, Resolved t3]\<rparr>"
    using assms(6) by (simp add: run_thread_at_def thread_cleanup_eq release_maps_def cleanup_polled_run)
  moreover have "?run 2 (s\<lparr>active := None, world := w4, poisoned := True, threads := [Panicked, Finished, Resolved t3]\<rparr>)
      = s\<lparr>active := None, world := w4, poisoned := True, threads := [Panicked, Finished, Panicked]\<rparr>"
    by (simp add: run_thread_at_def thread_update_eq numeral_2_eq_2)
  ultimately have "run_schedule fuel env [0, 1, 0, 1, 1, 0, 2] s
      = s\<lparr>active := None, world := w4, poisoned := True, threads := [Panicked, Finished, Panicked]\<rparr>"
    by (simp only: run_schedule_def fold_simps)
  then show ?thesis by simp
qed

text \<open>
  C26. A task without maps can stop the service. Three tasks are started that the guardrail allows and that have a positive
  duration, a process and probes that can be resolved, and enabled maps, if any: the first configures no map. The resolver
  accepts all three. When the first task
  runs while the second comes and goes, the second's cleanup empties the set of polled maps and so
  removes the active state, and the cleanup of the first then panics with the lock held. The lock is
  poisoned, and the third task panics when it takes the lock. The schedule is given turn by
  turn, and the state it ends in is a reachable one. The clocks advance, the
  filter map is a bounded hash map, and the fuel is enough.
\<close>

theorem empty_task_poisons:
  assumes "live_env fuel env"
    and "s_parse env c1 = Some \<lparr>tasks = [k1]\<rparr>" and "s_parse env c2 = Some \<lparr>tasks = [k2]\<rparr>"
    and "s_parse env c3 = Some \<lparr>tasks = [k3]\<rparr>"
    and "acceptable_task fuel env k1" and "acceptable_task fuel env k2" and "acceptable_task fuel env k3"
    and "bpf_maps k1 = []"
  shows "let s = run_schedule fuel env [0, 1, 2, 0, 1, 0, 1, 1, 0, 2]
        (startTasks c3 (startTasks c2 (startTasks c1 service_start))) in
     reachable fuel env s \<and> poisoned s \<and> threads s = [Panicked, Finished, Panicked]"
proof -
  let ?s = "startTasks c3 (startTasks c2 (startTasks c1 service_start))" and ?run = "run_thread_at fuel env"
  obtain t1 w1 where 1: "task_resolve_config fuel env c1 ((), world ?s) = (Ok (Inr t1), ((), w1))" and m1: "maps_of t1 = {}"
    using acceptable_resolves [OF assms(2,5), of "world ?s"] assms(8) by auto
  obtain t2 w2 where 2: "task_resolve_config fuel env c2 ((), w1) = (Ok (Inr t2), ((), w2))"
    using acceptable_resolves [OF assms(3,6)] by blast
  obtain t3 w3 where 3: "task_resolve_config fuel env c3 ((), w2) = (Ok (Inr t3), ((), w3))"
    using acceptable_resolves [OF assms(4,7)] by blast
  let ?r = "?run 2 (?run 1 (?run 0 ?s))"
  have r: "active ?r = None" "\<not> poisoned ?r" "threads ?r = [Resolved t1, Resolved t2, Resolved t3]"
    by (simp_all add: run_thread_at_def thread_resolve_def 1 2 3 numeral_2_eq_2)
  have "run_schedule fuel env [0, 1, 2, 0, 1, 0, 1, 1, 0, 2] ?s = run_schedule fuel env [0, 1, 0, 1, 1, 0, 2] ?r"
    by (simp add: run_schedule_def)
  moreover have "poisoned (run_schedule fuel env [0, 1, 0, 1, 1, 0, 2] ?r)
      \<and> threads (run_schedule fuel env [0, 1, 0, 1, 1, 0, 2] ?r) = [Panicked, Finished, Panicked]"
    using empty_task_run [OF assms(1) task_resolve_config_wf [OF 1] task_resolve_config_wf [OF 2] _ r] m1 by simp
  moreover have "reachable fuel env (run_schedule fuel env [0, 1, 2, 0, 1, 0, 1, 1, 0, 2] ?s)"
    by (intro run_schedule_reachable reachable.step [OF _ service_step.start] reachable.init)
  ultimately show ?thesis by (simp add: Let_def)
qed

subsection \<open>One task below SDK level 37\<close>

text \<open>Neither resolving nor executing a task touches the global state.\<close>

definition same_self :: "'h st \<Rightarrow> 'h st \<Rightarrow> bool" where
  "same_self s s' \<longleftrightarrow> fst s' = fst s"

interpretation own: io_preorder same_self
  by unfold_locales (auto simp: same_self_def)

lemma own_prim: "io_steps same_self (ext_call q e)" "io_steps same_self (emit e')"
  by (auto simp: io_steps_def same_self_def ext_call_def emit_def)

lemmas own_intros = own.steps_intros own_prim

lemma own_bpf:
  "io_steps same_self (bpf_perf_event_open env p offs pid prog)" "io_steps same_self (OwnedFd_drop fd)"
  "io_steps same_self (Timer_new clk dur)" "io_steps same_self (BpfRingBuffer_new env p)"
  "io_steps same_self BpfRingBuffer_drop" "io_steps same_self (BpfRingBuffer_poll ring p ms)"
  "io_steps same_self (remaining_millis clk tm)" "io_steps same_self (get_pid pa name)"
  "io_steps same_self (bpf_ring_buffer_discard env p)" "io_steps same_self (BpfMapAccessor_new m env)"
  "io_steps same_self (BpfMapAccessor_put m env k v fl)" "io_steps same_self BpfMapAccessor_drop"
  by (auto simp: bpf_defs Timer_new_def remaining_millis_def get_pid_def Let_def intro!: own_intros split: prod.split)

lemma own_drain: "io_steps same_self (drain n env)"
  by (induction n) (auto simp: bpf_defs intro!: own_intros split: prod.split)

lemma own_execute: "io_steps same_self (execute fuel env task)"
proof (rule execute_steps [OF own.io_preorder_axioms])
  show "io_steps same_self (setup_binder_filters fuel (e_bpf env) False (resolved_probes task))"
  proof -
    have "io_steps same_self (setup_binder_filters fuel (e_bpf env) opened probes)" for opened probes
      by (induction probes arbitrary: opened)
        (auto simp: write_binder_transaction_filter_to_binder_bpf_map_def drain_after_failure_def
          intro!: own_intros own_bpf own_drain split: prod.split)
    then show ?thesis .
  qed
  have "io_steps same_self (attach_probes (e_bpf env) task fds probes)" for fds probes
    by (induction probes arbitrary: fds) (auto simp: attach_probe_def intro!: own_intros own_bpf)
  moreover have "io_steps same_self (poll_threads fuel env task)"
    by (auto simp: io_steps_def same_self_def poll_threads_def Let_def)
  ultimately show "io_steps same_self (attach_probes_and_poll_maps fuel env task)"
    by (auto simp: attach_probes_and_poll_maps_def intro!: own_intros own_bpf)
qed (auto simp: cleanup_binder_transaction_filters_def intro!: own_intros own_bpf own_drain)

lemma own_managers:
  "io_steps same_self (TargetProcess_new uid pid name)" "io_steps same_self (MethodDescriptor_new cls name params)"
  "io_steps same_self (ExecutableMethodFileOffsets_get api tp md)" "io_steps same_self (get_running_process_pid_uid ra name)"
  "io_steps same_self (ProcessObserver_register oa)" "io_steps same_self TargetProcess_drop"
  "io_steps same_self MethodDescriptor_drop" "io_steps same_self ExecutableMethodFileOffsets_drop"
  "io_steps same_self ProcessObserver_drop"
proof -
  show "io_steps same_self (ProcessObserver_register oa)"
    by (auto simp: io_steps_def same_self_def ProcessObserver_register_def ProcessObserver_drop_def)
qed (auto simp: TargetProcess_new_def MethodDescriptor_new_def ExecutableMethodFileOffsets_get_def created_def
    get_running_process_pid_uid_def TargetProcess_drop_def MethodDescriptor_drop_def
    ExecutableMethodFileOffsets_drop_def ProcessObserver_drop_def
    intro!: own_intros split: prod.split)

lemma own_case_sum:
  "(\<And>x. io_steps same_self (f x)) \<Longrightarrow> (\<And>y. io_steps same_self (g y)) \<Longrightarrow>
     io_steps same_self (case z of Inl x \<Rightarrow> f x | Inr y \<Rightarrow> g y)"
  by (simp split: sum.split)

lemma own_resolve_process: "io_steps same_self (resolve_process fuel env target sel dur)"
proof -
  have "io_steps same_self (poll_app_start n env name tm)" for n name tm
    by (induction n) (auto intro!: own_intros own_bpf)
  then have probe: "io_steps same_self (poll_with_probe fuel env name dur pid offs prog)" for name pid offs prog
    unfolding poll_with_probe_def by (intro own_intros own_bpf)
  have offs: "io_steps same_self (app_start_offsets api)" for api
    by (auto simp: app_start_offsets_def get_ProcessRecord_makeActive_offsets_def get_onProcessActive_offsets_def
        system_server_offsets_def TargetProcess_system_server_def intro!: own_intros own_managers own_case_sum)
  show ?thesis
    by (auto simp: resolve_process_def wait_for_app_start_def wait_for_app_start_uprobe_def resolve_named_def
        wait_for_app_start_observer_def intro!: own_intros own_bpf own_managers probe offs
        split: TargetProcessSelection.split prod.split)
qed

lemma own_resolve_offsets:
  "io_steps same_self (resolve_offsets env process desc :: ('h st, ExecutableMethodFileOffsets option) io)"
proof -
  have "io_steps same_self (retry_offsets api tp md retries backoff :: ('h st, MethodFileOffsets option) io)" for api tp md retries backoff
  proof (induction "MAX_RETRIES - retries" arbitrary: retries backoff rule: less_induct)
    case less
    have "io_steps same_self (retry_offsets api tp md (retries + 1) (backoff * 2) :: ('h st, MethodFileOffsets option) io)"
      if "\<not> MAX_RETRIES \<le> retries"
      by (rule less.hyps) (use that in arith)
    then show ?case
      by (subst retry_offsets.simps) (auto intro!: own_intros own_managers own_case_sum)
  qed
  then show ?thesis
    by (auto simp: resolve_offsets_def to_target_process_def to_method_descriptor_def drop_offsets_def
        get_executable_method_file_offsets_with_retry_def intro!: own_intros own_managers own_case_sum)
qed

lemma own_task_resolve_config: "io_steps same_self (task_resolve_config fuel env config)"
proof -
  have "io_steps same_self (resolve_probe fl (resolve_offsets penv) process probe)" for fl penv process probe
    by (auto simp: resolve_probe_def Let_def intro!: own_intros own_resolve_offsets)
  then show ?thesis
    by (auto simp: task_resolve_config_def resolve_config_def resolve_allowed_def resolve_single_task_def
        resolve_probes_def wrap_config_err_def Let_def
        intro!: own_intros own_case_sum own_resolve_process split: list.split)
qed

lemma ownD: "io_steps same_self m \<Longrightarrow> m (g, t) = (r, (g', t')) \<Longrightarrow> g' = g"
  unfolding io_steps_def same_self_def by (metis fst_conv snd_conv)

text \<open>
  C35. The daemon without the service, below SDK level 37, when the clocks advance, the filter map is a bounded
  hash map and the fuel is enough. If the configuration file cannot be read, the daemon exits with
  code 1. Otherwise it resolves what it read. An error of the resolver is reported, and the exit code
  is 1. A resolved task, also one without maps, is executed, with its maps marked as polled; the
  execution comes to an end, what the daemon does after the resolution is exactly that execution,
  and the exit code is 0. In each case the state is \<open>None\<close> at the end.
\<close>

theorem single_task_daemon:
  assumes "live_env fuel env" and "\<not> is_at_least_cinnamon_bun (e_device (s_daemon env))"
  shows "let started = [InvocationWrite InvocationTypeServiceStarted] in
    case s_config_file env started of
      None \<Rightarrow> snd (main_impl fuel env (None, [])) = (None, started @ [ReadConfigFile]) \<and> main_exit_code fuel env = Some 1
    | Some bytes \<Rightarrow> \<exists>x t t'.
        task_resolve_config fuel env bytes (None :: GlobalState, started @ [ReadConfigFile]) = (Ok x, (None, t))
        \<and> snd (main_impl fuel env (None, [])) = (None, t')
        \<and> (case x of
             Inl e \<Rightarrow> config_error_report e (None :: GlobalState, t) = (Ok (), (None, t')) \<and> main_exit_code fuel env = Some 1
           | Inr task \<Rightarrow>
               execute fuel (s_daemon env) task (Some \<lparr>polled_bpf_maps = maps_of task\<rparr>, t)
                 = (Ok (), (Some \<lparr>polled_bpf_maps = maps_of task\<rparr>, t'))
               \<and> main_exit_code fuel env = Some 0)"
proof (cases "s_config_file env [InvocationWrite InvocationTypeServiceStarted]")
  case None
  with assms(2) show ?thesis
    by (simp add: main_exit_code_def main_impl_def handle_tasks_def file_path_to_bytes_def)
next
  case (Some bytes)
  let ?t = "[InvocationWrite InvocationTypeServiceStarted, ReadConfigFile]"
  obtain x g t where res: "task_resolve_config fuel env bytes (None :: GlobalState, ?t) = (Ok x, (g, t))"
    using resolve_live [OF assms(1), of bytes "(None :: GlobalState, ?t)"] by auto
  have g: "g = None" by (rule ownD [OF own_task_resolve_config res])
  show ?thesis
  proof (cases x)
    case (Inl e)
    obtain t' where "config_error_report e (None :: GlobalState, t) = (Ok (), (None, t'))"
      by (simp add: config_error_report_def)
    with Some res assms(2) g Inl show ?thesis
      by (simp add: main_exit_code_def main_impl_def handle_tasks_def file_path_to_bytes_def io_bind_def)
  next
    case (Inr task)
    let ?held = "Some \<lparr>polled_bpf_maps = maps_of task\<rparr>"
    have "task_wf task" by (rule task_resolve_config_wf) (use res Inr in blast)
    then obtain g' t' where ex: "execute fuel (s_daemon env) task (?held, t) = (Ok (), (g', t'))"
      using execute_live [OF assms(1), of task "(?held, t)"] by auto
    have g': "g' = ?held" by (rule ownD [OF own_execute ex])
    have "update_polled_bpf_maps task (None, t) = (Ok (), (?held, t))"
      "cleanup_polled_bpf_maps task (?held, t') = (Ok (), (None, t'))"
      by (simp_all add: update_polled_run cleanup_polled_run polled_def)
    with Some res assms(2) g g' Inr ex show ?thesis
      by (simp add: main_exit_code_def main_impl_def handle_tasks_def file_path_to_bytes_def io_bind_def on_err_def)
  qed
qed

subsection \<open>A concrete service\<close>

definition bare_task :: "string list \<Rightarrow> Task" where
  "bare_task ms = example_task\<lparr>probe_configs := [], bpf_maps := ms, target_process_name := Some ''com.app''\<rparr>"

definition bare_resolved :: "string list \<Rightarrow> ResolvedTask" where
  "bare_resolved ms =
     \<lparr>rt_id = 7, rt_duration = 180000000000, resolved_process = \<lparr>rp_pid = 77, rp_uid = 10001, rp_name = ''com.app''\<rparr>,
      bpf_map_paths = remdups (map prefix_bpf ms), statsd_logging_config = None, resolved_probes = []\<rparr>"

text \<open>The bytes of a configuration are the name of its one map.\<close>

definition example_service :: "int \<Rightarrow> service_env" where
  "example_service level =
     \<lparr>s_daemon = example_daemon\<lparr>e_device := \<lparr>api_level = level, read_property = \<lambda>_. Some ''user''\<rparr>\<rparr>,
      s_process = example_process_env False,
      s_parse = \<lambda>bytes. Some \<lparr>tasks = [bare_task [bytes]]\<rparr>,
      s_config_file = \<lambda>_. Some ''map_Generic'', s_register = \<lambda>_. True\<rparr>"

abbreviation example_fuel :: nat where "example_fuel \<equiv> 3000000000000000000"

lemma example_service_live: "live_env example_fuel (example_service level)" "maps_required (example_service level)"
proof -
  have "filter_kernel example_fuel (e_bpf example_daemon) (\<lambda>t. map_of (kernel_contents [] t))"
    by (rule example_filter_kernel) simp
  then show "live_env example_fuel (example_service level)"
    using example_ticking example_process_env_ok(2) [of False]
    by (auto simp: live_env_def example_service_def)
qed (simp add: maps_required_def example_service_def bare_task_def)

lemma example_find:
  "find_running ''com.app'' [None, Some \<lparr>ri_process_name = Some ''com.app'', ri_pid = 77, ri_uid = 10001\<rparr>] =
     Ok (77, 10001)"
  by code_simp

lemma example_app_named:
  "\<exists>t'. resolve_named (example_process_env False) (Some ''com.app'') (h, t) =
     (Ok \<lparr>rp_pid = 77, rp_uid = 10001, rp_name = ''com.app''\<rparr>, (h, t'))"
proof -
  have "p_running (example_process_env False) =
      (\<lambda>_. (0, Some [None, Some \<lparr>ri_process_name = Some ''com.app'', ri_pid = 77, ri_uid = 10001\<rparr>]))"
    by (simp add: example_process_env_def fun_eq_iff)
  moreover have "try_into_signed (uint (10001 :: u32)) = Ok (10001 :: i32)" by (simp add: try_into_signed_def)
  ultimately show ?thesis
    by (simp add: resolve_named_def get_running_process_pid_uid_def created_def finally_do_def io_bind_def
        example_find del: find_running.simps)
qed

lemma bare_run:
  "\<exists>t'. task_resolve_config fuel (example_service level) bytes (h, t) = (Ok (Inr (bare_resolved [bytes])), (h, t'))"
proof -
  obtain t' where n: "resolve_named (example_process_env False) (Some ''com.app'') (h, t) =
     (Ok \<lparr>rp_pid = 77, rp_uid = 10001, rp_name = ''com.app''\<rparr>, (h, t'))" using example_app_named [of h t] by auto
  let ?task = "bare_task [bytes]"
  have d: "resolve_duration ?task = Ok 180000000000"
    by (simp add: resolve_duration_Ok_iff bare_task_def example_task_def from_secs_def)
  have m: "collect_res (resolve_map_path (e_flags example_daemon)) (bpf_maps ?task) = Ok [prefix_bpf bytes]"
    by (simp add: bare_task_def resolve_map_path_def example_enabled example_daemon_def)
  have "resolve_single_task (e_flags example_daemon) (resolve_process fuel (example_process_env False))
      (resolve_offsets (example_process_env False)) ?task 7 (h, t) = (Ok (bare_resolved [bytes]), (h, t'))"
    unfolding resolve_single_task_def m d
    by (simp add: io_bind_def bare_task_def example_task_def resolve_process_def tps_value_or_default_def n
        resolve_probes_def bare_resolved_def)
  then show ?thesis
    by (simp add: task_resolve_config_def example_service_def resolve_config_def read_config_from_bytes_def
        wrap_config_err_res resolve_allowed_def is_allowed_def bare_task_def example_task_def wrap_config_err_Inr)
qed

text \<open>Two tasks, with different maps, are started and take their maps.\<close>

definition example_state :: service_state where
  "example_state = run_schedule example_fuel (example_service 37) [0, 1, 0, 1]
     (startTasks ''map_B'' (startTasks ''map_A'' service_start))"

lemma example_reachable: "reachable example_fuel (example_service 37) example_state"
  unfolding example_state_def
  by (intro run_schedule_reachable reachable.step [OF _ service_step.start] reachable.init)

lemma two_claims:
  assumes "threads s = [Resolved a, Resolved b]" and "active s = None" and "\<not> poisoned s"
    and "maps_of a \<inter> maps_of b = {}"
  shows "threads (run_thread_at fuel env 1 (run_thread_at fuel env 0 s)) = [Running a, Running b]"
proof -
  have "run_thread_at fuel env 0 s =
      s\<lparr>active := Some \<lparr>polled_bpf_maps = maps_of a\<rparr>, threads := [Running a, Resolved b]\<rparr>"
    using assms by (simp add: run_thread_at_def thread_update_eq claim_maps_def update_polled_run polled_def)
  then show ?thesis
    using assms(3,4) by (simp add: run_thread_at_def thread_update_eq claim_maps_def update_polled_run polled_def
        Int_commute)
qed

lemma example_threads: "threads example_state = [Running (bare_resolved [''map_A'']), Running (bare_resolved [''map_B''])]"
proof -
  let ?run = "run_thread_at example_fuel (example_service 37)"
  let ?s = "startTasks ''map_B'' (startTasks ''map_A'' service_start)"
  obtain t1 where t1: "task_resolve_config example_fuel (example_service 37) ''map_A'' ((), world ?s) =
      (Ok (Inr (bare_resolved [''map_A''])), ((), t1))"
    using bare_run [of example_fuel 37 "''map_A''" "()"] by auto
  obtain t2 where t2: "task_resolve_config example_fuel (example_service 37) ''map_B'' ((), t1) =
      (Ok (Inr (bare_resolved [''map_B''])), ((), t2))"
    using bare_run [of example_fuel 37 "''map_B''" "()" t1] by auto
  have "threads (?run 1 (?run 0 ?s)) = [Resolved (bare_resolved [''map_A'']), Resolved (bare_resolved [''map_B''])]"
    "active (?run 1 (?run 0 ?s)) = None" "\<not> poisoned (?run 1 (?run 0 ?s))"
    by (simp_all add: run_thread_at_def thread_resolve_def t1 t2)
  from two_claims [OF this] have "threads (?run 1 (?run 0 (?run 1 (?run 0 ?s)))) =
      [Running (bare_resolved [''map_A'']), Running (bare_resolved [''map_B''])]"
    by (simp add: bare_resolved_def prefix_bpf_def)
  then show ?thesis by (simp add: example_state_def run_schedule_def)
qed

theorem running_tasks_disjoint_witness:
  "maps_of (bare_resolved [''map_A'']) \<inter> maps_of (bare_resolved [''map_B'']) = {}"
  by (rule running_tasks_disjoint [OF example_reachable, of 0 1]) (simp_all add: example_threads)

theorem four_turns_suffice_witness:
  "threads (run_schedule example_fuel (example_service 37) [0, 1, 0, 0, 1, 1, 0] example_state) ! 0 \<in> {Finished, Panicked}"
  by (rule four_turns_suffice [OF example_service_live(1) example_reachable]) (simp_all add: example_threads)

theorem service_never_panics_witness:
  "\<not> poisoned example_state \<and> active example_state \<noteq> None"
  using service_never_panics [OF example_service_live example_reachable] by (auto simp: example_threads)

text \<open>The service with a parser that gives a task without maps for the empty configuration.\<close>

definition empty_service :: service_env where
  "empty_service = (example_service 37)\<lparr>s_parse := \<lambda>bytes.
     Some \<lparr>tasks = [bare_task (if bytes = [] then [] else [bytes])]\<rparr>\<rparr>"

lemma bare_acceptable: "acceptable_task fuel empty_service (bare_task ms)"
proof -
  have "list_all (is_bpf_file_enabled (e_flags example_daemon)) ms"
    by (simp add: list_all_iff example_enabled example_daemon_def)
  moreover have "\<exists>p s'. resolve_process fuel (example_process_env False) (Some ''com.app'') SPECIFIC_PROCESS_NAME dur ((), t)
      = (Ok p, s')" for dur t
    using example_app_named [of "()" t] by (auto simp: resolve_process_def)
  ultimately show ?thesis
    by (simp add: acceptable_task_def empty_service_def example_service_def bare_task_def example_task_def
        is_allowed_def tps_value_or_default_def resolve_probes_def)
qed

theorem empty_task_poisons_witness:
  "poisoned (run_schedule example_fuel empty_service [0, 1, 2, 0, 1, 0, 1, 1, 0, 2]
     (startTasks ''map_B'' (startTasks ''map_A'' (startTasks [] service_start))))"
proof -
  have "live_env example_fuel empty_service"
    using example_service_live(1) [of 37] by (simp add: live_env_def empty_service_def)
  from empty_task_poisons [OF this _ _ _ bare_acceptable bare_acceptable bare_acceptable,
      of "[]" "[]" "''map_A''" "[''map_A'']" "''map_B''" "[''map_B'']"]
  show ?thesis by (simp add: empty_service_def bare_task_def Let_def)
qed

theorem single_task_daemon_witness:
  "fst (snd (main_impl example_fuel (example_service 36) (None, []))) = None
   \<and> main_exit_code example_fuel (example_service 36) = Some 0"
proof -
  have "\<not> is_at_least_cinnamon_bun (e_device (s_daemon (example_service 36)))"
    by (simp add: example_service_def is_at_least_cinnamon_bun_def)
  moreover have "s_config_file (example_service 36) = (\<lambda>_. Some ''map_Generic'')" by (simp add: example_service_def)
  ultimately show ?thesis
    using single_task_daemon [OF example_service_live(1), of 36]
      bare_run [of example_fuel 36 "''map_Generic''" "None :: GlobalState"
        "[InvocationWrite InvocationTypeServiceStarted, ReadConfigFile]"]
    by (auto split: sum.splits)
qed

end
