(* ===== verification/Client.thy ===== *)
theory Client
  imports Daemon
begin

section \<open>The client library\<close>

text \<open>
  The functions of \<open>lib/uprobestats_client.cpp\<close> and \<open>lib/uprobestats_service_client.cpp\<close> by which other processes start a task. They are
  two versions of \<open>AUprobestatsClient_startUprobestats\<close>; the second does its work in a thread of its own, and the definition is
  what that thread does. Files, properties, binder and the atom library are outside of the repository: what the calls do to the host is a
  parameter, with their results. The state of the service is that of \<^theory_text>\<open>Daemon\<close>.
\<close>

record client_host =
  h_files :: "string \<Rightarrow> char list option"
  h_modes :: "string \<Rightarrow> nat option"
  h_properties :: "(string \<times> string) list"
  h_service :: service_state
  h_startup_errors :: nat

record client_env =
  sdk_at_least_37 :: bool
  WriteStringToFile :: "char list \<Rightarrow> string \<Rightarrow> client_host \<Rightarrow> client_host"
  c_chmod :: "string \<Rightarrow> nat \<Rightarrow> client_host \<Rightarrow> client_host"
  SetProperty :: "string \<Rightarrow> string \<Rightarrow> client_host \<Rightarrow> client_host"
  waitForService :: "string \<Rightarrow> bool"
  fromBinder :: bool
  service_startTasks :: "char list \<Rightarrow> client_host \<Rightarrow> bool \<times> client_host"

definition CONFIG_FILE :: string where
  "CONFIG_FILE = ''/data/misc/uprobestats-configs/config''"

definition kUprobeStatsServiceName :: string where
  "kUprobeStatsServiceName = ''uprobestats_service''"

text \<open>The first version, and the branch of the second one for devices where the daemon may not have a service. The results of the calls are ignored.\<close>

definition start_by_property :: "client_env \<Rightarrow> char list \<Rightarrow> client_host \<Rightarrow> client_host" where
  "start_by_property env config h =
     SetProperty env ''ctl.start'' ''uprobestats'' (c_chmod env CONFIG_FILE 420 (WriteStringToFile env config CONFIG_FILE h))"

definition log_startup_error :: "client_host \<Rightarrow> client_host" where
  "log_startup_error h = h\<lparr>h_startup_errors := Suc (h_startup_errors h)\<rparr>"

definition AUprobestatsClient_startUprobestats :: "client_env \<Rightarrow> char list \<Rightarrow> client_host \<Rightarrow> client_host" where
  "AUprobestatsClient_startUprobestats env config h =
     (if \<not> sdk_at_least_37 env then start_by_property env config h
      else if \<not> waitForService env kUprobeStatsServiceName then log_startup_error h
      else if \<not> fromBinder env then log_startup_error h
      else case service_startTasks env config h of
        (True, h') \<Rightarrow> h'
      | (False, h') \<Rightarrow> log_startup_error h')"

subsection \<open>The host\<close>

text \<open>
  What the calls are documented to do. A call of the service through binder that arrives is one of \<^const>\<open>startTasks\<close>; the functions of the file system
  leave the service alone, and writing a file that succeeds makes its content the given one.
\<close>

locale client_system =
  fixes env :: client_env and writable :: bool
  assumes write_file: "WriteStringToFile env config path h = (if writable then h\<lparr>h_files := (h_files h)(path \<mapsto> config)\<rparr> else h)"
    and chmod_file: "c_chmod env path mode h =
      (if h_files h path = None then h else h\<lparr>h_modes := (h_modes h)(path \<mapsto> mode)\<rparr>)"
    and set_property: "SetProperty env name v h = h\<lparr>h_properties := h_properties h @ [(name, v)]\<rparr>"
    and call_service: "snd (service_startTasks env config h) =
      (if fst (service_startTasks env config h) then h\<lparr>h_service := startTasks config (h_service h)\<rparr> else h)"
begin

text \<open>Exactly one of: the service has the configuration in a new thread, a startup error was reported, the daemon was told to start.\<close>

lemma outcome:
  "AUprobestatsClient_startUprobestats env config h =
     (if \<not> sdk_at_least_37 env then
        h\<lparr>h_files := (if writable then (h_files h)(CONFIG_FILE \<mapsto> config) else h_files h),
          h_modes := (if writable \<or> h_files h CONFIG_FILE \<noteq> None then (h_modes h)(CONFIG_FILE \<mapsto> 420) else h_modes h),
          h_properties := h_properties h @ [(''ctl.start'', ''uprobestats'')]\<rparr>
      else if waitForService env kUprobeStatsServiceName \<and> fromBinder env \<and> fst (service_startTasks env config h)
      then h\<lparr>h_service := startTasks config (h_service h)\<rparr>
      else h\<lparr>h_startup_errors := Suc (h_startup_errors h)\<rparr>)"
  using call_service [of config h]
  by (cases "service_startTasks env config h") (auto simp: AUprobestatsClient_startUprobestats_def start_by_property_def write_file chmod_file set_property log_startup_error_def
      split: bool.splits)

end

definition working_client :: "bool \<Rightarrow> bool \<Rightarrow> bool \<Rightarrow> client_env" where
  "working_client sdk writable available =
     \<lparr>sdk_at_least_37 = sdk,
      WriteStringToFile = (\<lambda>config path h. if writable then h\<lparr>h_files := (h_files h)(path \<mapsto> config)\<rparr> else h),
      c_chmod = (\<lambda>path mode h. if h_files h path = None then h else h\<lparr>h_modes := (h_modes h)(path \<mapsto> mode)\<rparr>),
      SetProperty = (\<lambda>name v h. h\<lparr>h_properties := h_properties h @ [(name, v)]\<rparr>),
      waitForService = (\<lambda>_. available), fromBinder = True,
      service_startTasks = (\<lambda>config h. (True, h\<lparr>h_service := startTasks config (h_service h)\<rparr>))\<rparr>"

interpretation working: client_system "working_client sdk writable available" writable
  by unfold_locales (simp_all add: working_client_def)

text \<open>
  A client on a device with the service leads to a step of the service: the state stays reachable, with the configuration in a new thread.
\<close>

lemma client_reaches_service:
  assumes "reachable fuel env (h_service h)"
  shows "reachable fuel env (h_service (AUprobestatsClient_startUprobestats (working_client True writable True) config h))
    \<and> last (threads (h_service (AUprobestatsClient_startUprobestats (working_client True writable True) config h))) = Received config"
proof -
  have "h_service (AUprobestatsClient_startUprobestats (working_client True writable True) config h) = startTasks config (h_service h)"
    by (simp add: working.outcome) (simp add: working_client_def)
  with assms show ?thesis by (simp add: reachable.step [OF _ service_step.start])
qed

text \<open>
  On a device without the service a failed write goes unnoticed: the daemon is started all the same, and what it reads is the configuration of an
  earlier call, or none.
\<close>

lemma failed_write_starts_old_config:
  "h_files (AUprobestatsClient_startUprobestats (working_client False False available) config h) CONFIG_FILE = h_files h CONFIG_FILE
   \<and> last (h_properties (AUprobestatsClient_startUprobestats (working_client False False available) config h)) = (''ctl.start'', ''uprobestats'')
   \<and> h_startup_errors (AUprobestatsClient_startUprobestats (working_client False False available) config h) = h_startup_errors h"
  by (simp add: working.outcome) (simp add: working_client_def)

end
