(* ===== verification/Spec2Isabelle.thy ===== *)
theory Spec2Isabelle
  imports Resolver_Tests Bridge_Handler_Tests Bpf_Programs Event_Api Native_Side Bpf_Objects Client
begin

text \<open>
  \<^bold>\<open>The program.\<close> UprobeStats is an Android daemon, written in Rust (\<open>src/daemon\<close>). It is given a
  configuration as a protobuf, turns it into a task, attaches BPF programs to functions of other
  processes with uprobes, polls the ring buffers those programs write to, and hands every item to
  a handler, which reports to statsd (as atoms) or to a Java service (as events). The parts, from the
  outside inwards:

  \<^item> \<open>uprobestats.rs\<close> and \<open>android/uprobestats_service.rs\<close>: the process. From SDK level 37 on it is a Binder service,
    every call of \<open>startTasks\<close> spawns a thread, and \<open>GLOBAL_STATE\<close> behind a mutex holds the set of maps
    that running tasks poll. Below that level it runs the one task of a configuration file.
  \<^item> \<open>android/task.rs\<close>: the four steps of a task: resolve the configuration, take the maps, execute,
    give the maps back.
  \<^item> \<open>core/config_resolver.rs\<close> and its modules, with \<open>android/process.rs\<close> and \<open>android/offsets.rs\<close>: from the bytes
    of a configuration to a \<open>ResolvedTask\<close>, past the guardrail for user builds.
  \<^item> \<open>android/bpf_handler.rs\<close>: the poll loop and the registry of handlers, one for each kind of map.
  \<^item> \<open>core/bpf_handler.rs\<close> and its modules: the handlers.
  \<^item> \<open>core/atom.rs\<close>, \<open>android/atom.rs\<close>, \<open>ffi/\<close>: atoms, their writers, and the access to the C side
    (statssocket, BPF, the activity manager, the dynamic instrumentation manager).

  At the kernel's end stand the BPF programs (\<open>src/bpf_progs\<close>, in C), which read the registers and the memory
  of the traced process and fill the records of the ring buffers. At the other end stands the bridge service
  (\<open>src/service\<close>, in Java), which answers the questions of the handlers about packages, buffers their events and
  hands them to a consumer, and the framework API (\<open>src/framework\<close>) on both of its sides. Three parts are in C++: the functions behind the
  daemon's C interface (\<open>src/daemon/ffi\<close>), the loader that runs at boot and pins programs and maps where the daemon finds them
  (\<open>src/bpfloader\<close>), and the library by which other processes start a task (\<open>src/lib\<close>).

  \<^bold>\<open>How it is modelled.\<close> A function of the daemon that has an effect or can fail is a computation
  \<open>('s, 'a) io\<close> of \<open>Rust_Prelude\<close>: from a state to a result (\<open>Ok\<close>, \<open>Err\<close> with an \<open>anyhow\<close> error, \<open>Panic\<close>, or
  \<open>NoFuel\<close> when fuel runs out) and a new state. The state is a pair of the Rust object that the
  function works on and the \<^emph>\<open>trace\<close>, the list of effects so far (\<open>World\<close>). Code outside the repository
  is a parameter: a record of functions from the trace and the arguments of a call to its reply
  (\<^typ>\<open>clock\<close>, \<^typ>\<open>device\<close>, \<^typ>\<open>bridge\<close>, \<^typ>\<open>stats_env\<close>, \<^typ>\<open>bpf_env\<close>, \<^typ>\<open>process_env\<close>), so that any call may
  fail at any time unless a hypothesis says otherwise. These hypotheses are \<open>ticking\<close> (the clock
  never goes back, and a poll takes at least a nanosecond), \<open>kernel_hash_map\<close> and \<open>filter_kernel\<close> (the documented behaviour of a
  bounded BPF hash map), \<open>live_env\<close>, which collects them, \<open>probe_helpers\<close> (the documented results of the helpers by which
  a BPF program reads user memory), \<open>reads_memory\<close> (they read a given memory) and \<open>sys_hash_map\<close> (the documented behaviour of the system calls
  on a hash map); each has an instance that the witnesses use.
  Machine integers keep their width. The C++ code has its own computations, \<open>cpp_fun\<close> of \<open>Elf_Reader\<close>: a function gives a value, a code, the end
  of the process, or the outcome that C++ leaves undefined.

  \<^bold>\<open>The theories\<close>, each with the code it models:

  \<^descr> \<open>Rust_Prelude\<close>: results, computations, UTF-8, checked conversions, \<open>HashMap\<close> as an association
    list, \<open>core/error.rs\<close>. The locale \<open>io_preorder\<close> has the rules by which a preorder on states that every effect
    respects is respected by a composed computation.
  \<^descr> \<open>Atoms\<close>: \<open>core/atom.rs\<close>, \<open>core/bridge_service.rs\<close> and the enumerations and tables of \<open>android/atom.rs\<close>.
  \<^descr> \<open>World\<close>: the trace, \<open>core/timer.rs\<close>, \<open>core/string.rs\<close>, the device properties and flags, \<open>android/bridge_service.rs\<close>.
  \<^descr> \<open>Atom_Writer\<close>: the trait \<open>AtomWriter\<close> as the locale \<open>atom_writer\<close>, interpreted by both implementations
    (\<open>ffi/statsd/statssocket.rs\<close>, \<open>android/atom.rs\<close>). The library is given exactly the atom; a return code of 0 is a success that does
    not promise delivery.
  \<^descr> \<open>Config\<close>: \<open>core/config_resolver.rs\<close>, its modules and \<open>config/config.proto\<close>. Soundness of the resolved task with respect
    to the proto, every rejection, the guardrail against a reference definition and where it does not guard.
  \<^descr> \<open>Handler\<close>: the trait \<open>Handler\<close> as the locales \<open>handler_contract\<close> (the invariant is kept) and \<open>atom_handler\<close>
    (one item gives one atom at most).
  \<^descr> \<open>Generic_Instrumentation\<close>, \<open>Process_Management\<close> (with \<open>art_test.rs\<close>), \<open>Bitmap_Allocation\<close>, \<open>Binder_Transaction\<close>,
    \<open>Disruptive_App\<close>, \<open>Accessibility\<close>: the twelve handlers of \<open>core/bpf_handler/\<close>, each an
    interpretation of these locales. What each reports for an item, with its errors; the ledger of
    live bitmaps; which names leave a user build; which calls are associated with a permission grant.
  \<^descr> \<open>Bpf_Map\<close>: \<open>ffi/bpf/bpf.rs\<close>, \<open>android/bpf_map.rs\<close> and \<open>android/bpf_map/binder_transaction.rs\<close>. The locale \<open>bpf_map_codec\<close>
    has the laws of the C representation of keys and values. Draining the filter map.
  \<^descr> \<open>Poll_Loop\<close>: \<open>android/bpf_handler.rs\<close>. The locale \<open>polled_handler\<close> extends \<open>handler_contract\<close> and is
    interpreted on every handler of the registry. The loop ends, frees its ring buffer,
    and reports an error to statsd once.
  \<^descr> \<open>Task_Runner\<close>: \<open>android/task.rs\<close>. Executing a task ends, closes every descriptor it opened and leaves no
    binder filter behind.
  \<^descr> \<open>Managers\<close>, \<open>Processes\<close>: \<open>ffi/activity_manager\<close>, \<open>ffi/dynamic_instrumentation_manager\<close>, \<open>android/process.rs\<close>,
    \<open>android/offsets.rs\<close>. A process that is found is the one asked for, the search ends, the number of retries is
    bounded, and no object of the C side is leaked.
  \<^descr> \<open>Daemon\<close>: \<open>android/uprobestats_service.rs\<close> and \<open>uprobestats.rs\<close>. The service is the step relation \<open>service_step\<close>; the locale
    \<open>map_registry\<close> states what it relies on of the set of polled maps and is interpreted on the operations of
    \<open>android/task.rs\<close>. Running tasks have disjoint maps, every task ends, nothing panics if no
    task is without maps, and what happens if one is.
  \<^descr> \<open>Bpf_Helpers\<close>: \<open>bpf/headers/include/uprobestats_bpf_fns.h\<close>. Copying a Java string stays within its destination, and
    what arrives of a string of the traced process.
  \<^descr> \<open>Bpf_Programs\<close>: the programs of \<open>bpf_progs/\<close>, each a function from registers, kernel and reserved slot to its return value and the
    record it submits. What they submit is what the handlers accept: the binder filter from the configuration through the kernel map
    back to the handler, permission grants, accessibility calls; and where the two sides do not fit together.
  \<^descr> \<open>Bridge_Service\<close>: \<open>UprobeStatsBridgeServiceImpl.java\<close>. The queue is the step relation \<open>bridge_step\<close> of binder threads, flush handler
    and main thread; it refines the abstract \<open>channel_step\<close>, a queue that delivers or loses batches from its front. Every accepted event
    is delivered if nothing fails, and what a failed binding does.
  \<^descr> \<open>Event_Api\<close>: the sender and the consumer's base class of the framework. The translation between bundles and AIDL
    events and back, and what the consumer reads of an event of the daemon.
  \<^descr> \<open>Logging\<close>: the log level of \<open>uprobestats.rs\<close> and the hex dump that the test module of \<open>android/bpf_handler.rs\<close> has (nothing calls it). A user build never logs below
    the level of information, and the dump shows every byte.
  \<^descr> \<open>Native_Side\<close>: \<open>ffi/bpf/bpf.cpp\<close> and \<open>ffi/activity_manager/activity_manager.cpp\<close>, over the system calls and the functions of the platform
    libraries. They are instances of the parameters of \<open>Bpf_Map\<close>, \<open>Poll_Loop\<close> and \<open>Managers\<close>: on a kernel with a hash map the C++ functions have the
    behaviour that the daemon relies on, down to the signs of error codes, and draining the filter through them empties it.
  \<^descr> \<open>Elf_Reader\<close>, \<open>Bpf_Loader\<close>: \<open>bpfloader/UprobeStatsBpfLoad.cpp\<close>, from the bytes of an object file to the requests to the kernel. The locale \<open>effects\<close>
    has the rules for what a computation leaves behind and gives, interpreted for reading (nothing changes but the stream) and for loading (what events
    are added). The loader stays within its directory and its program type for any object file and any kernel; a successful load has installed
    every map and every mandatory program that the running kernel is to have; a relocation changes one operand.
  \<^descr> \<open>Bpf_Objects\<close>: what the files of \<open>bpf_progs/\<close> declare. The paths where the loader pins it are those that the daemon has as constants.
  \<^descr> \<open>Client\<close>: \<open>src/lib\<close>. The locale \<open>client_system\<close> states what the platform's calls do; a call of the client is a step of the service of \<open>Daemon\<close>.
  \<^descr> \<open>Resolver_Tests\<close>, \<open>Handler_Tests\<close>, \<open>Bridge_Handler_Tests\<close>: the unit tests of the repository, each a definition with the name of
    the test and a lemma that it passes on the model. They check the definitions against the code, not the code. Of the tests in
    \<open>core/\<close> only the three of the protobuf parser are left out.

  \<^bold>\<open>Threads.\<close> A thread of the service takes four steps, and the steps of different threads interleave in any order.
  The second and the fourth are under the lock, so that they are atomic in the program too. The first
  and the third touch nothing that the threads share but the trace; as steps they
  put their effects into the trace as a block. The polling threads of one task each run on a copy of the
  trace at the moment of \<open>thread::scope\<close>, and what a thread did is one effect \<^const>\<open>ThreadScope\<close>
  of the trace of the task. Replies are functions of the trace, so a reply in one polling thread cannot depend on what another
  has done since. A panic ends its thread; with the lock held it poisons the lock.

  \<^bold>\<open>Fuel.\<close> Three loops of the program have no bound of their own: the poll loop, the loop that waits for the start of
  an app, and \<open>drain\<close>. The first two stop at a timeout, and with a clock that advances with every poll one unit per
  nanosecond of the timeout, rounded up to milliseconds, is enough; \<open>drain\<close> needs one more than the number of keys
  that the map can have. The largest duration that a configuration can ask for is \<open>2 ^ 31 - 1\<close> seconds, which
  gives the bound of \<open>live_env\<close>. The theorems say that enough fuel gives a result.

  \<^bold>\<open>Simplifications.\<close> \<open>/proc\<close> is read at one moment; the calls that a process observer gets before its timeout are a list;
  the iteration order of a hash map or set, which Rust leaves open, is the order of insertion; the cookies and raw pointers of the C interface are not modelled, only who owns the object; \<open>thread::scope\<close> can always spawn its threads (the library panics if it cannot); of
  the attributes of a perf event the constant \<open>size\<close> is left out; the texts of
  error messages are kept only where code looks at them.

  \<^bold>\<open>In the kernel and in the system server.\<close> A program runs on one slot of its ring buffer, whose contents before are an argument: the kernel does
  not clear it. The layouts of Java objects that the programs rely on are stated as predicates on the memory (\<open>java_string\<close>, \<open>java_ref\<close>). In the
  bridge service a synchronized block is one step, and so is the code between two of them that no other thread can observe; a timer may elapse
  at any time after it was set, so that delays are kept but not measured.

  \<^bold>\<open>Not modelled.\<close> The text of log lines and \<open>atrace\<close> (no other code depends on them, except the \<open>debug!\<close> of
  \<open>AotHandler\<close>, whose argument can fail and which is modelled); \<open>ffi/statsd/statslog_wrapper.rs\<close>, which re-exports bindings that the
  build generates; the protobuf parser, which the build generates too; the store of \<open>call_detail\<close> one past the end of its array, which C leaves undefined; the
  registration of the Java service and \<open>toString\<close> of its event; the integration tests (\<open>src/test\<close>), flag declarations and packaging. Of the loader, log lines,
  the umask and the kernel's file with the type of FUSE programs are left out (the type is a parameter).
\<close>

section \<open>Across the components\<close>

text \<open>
  C27. A disabled launcher activity with a long class name is never reported. The activity is one of the
  launcher activities of its package, so the bridge service would recognise it by its name; but the
  program in the kernel copies only the first 63 characters, the service does not know an
  activity of that name, and on a user build the handler returns without writing an atom or
  sending an event, whatever the new state of the component is.
\<close>

theorem long_launcher_class_unreported:
  assumes "reads_memory k mem" and "r_regs ctx 2 \<noteq> 0"
    and "java_string_at mem (r_regs ctx 2 + 8) cls" and "ascii cls" and "cls \<noteq> []"
    and "java_string_at mem (r_regs ctx 2 + 12) pkg" and "ascii pkg" and "pkg \<noteq> []"
    and "java_string mem (r_regs ctx 6) caller" and "ascii caller"
    and "has_permission p" and "is_user_build d" and "is_at_least_cinnamon_bun d"
    and "cls \<in> set (launcher_activities p pkg True)"
    and "take 63 cls \<notin> set (launcher_activities p (take 63 pkg) True)"
  shows "isLauncherActivity_impl p pkg cls True = Inr True
    \<and> (\<exists>out t'. set_component_enabled_setting k ctx (Some slot) = (0, Some out)
        \<and> Component_on_item d clk (java_bridge p st) write_atom task out (h, t) = (Ok (), (h, t'))
        \<and> quiet t t')"
proof
  show "isLauncherActivity_impl p pkg cls True = Inr True"
    using assms(11,14) by (simp add: isLauncherActivity_impl_def enforceCallingPermission_def activity_loop_iff)
  from component_names_truncated [OF assms(1-10), of slot d clk "java_bridge p st" write_atom task]
  obtain out where out: "set_component_enabled_setting k ctx (Some slot) = (0, Some out)"
    and run: "Component_on_item d clk (java_bridge p st) write_atom task out =
      io_bind (check_disabled_launcher_activity_and_log_to_statsd d (java_bridge p st) write_atom (take 63 pkg)
        (take 63 cls) (ucast (r_regs ctx 3)) (take 63 caller)) (\<lambda>is_disabled.
      if is_disabled then Component_enqueue_event d clk (java_bridge p st) (take 63 pkg) (take 63 cls) (take 63 caller)
      else ret ())" by blast
  let ?t' = "if sint (ucast (r_regs ctx 3) :: i32) < sint COMPONENT_ENABLED_STATE_DISABLED then t
    else t @ [BridgeGet, BridgeIsLauncherActivity (take 63 pkg) (take 63 cls) True]"
  have "quiet t ?t'" by (simp add: quiet_def sink_defs)
  moreover have "bridge_interface (java_bridge p st)" by (simp add: java_bridge_def)
  then have "Component_on_item d clk (java_bridge p st) write_atom task out (h, t) = (Ok (), (h, ?t'))"
    using assms(12,13,15) unfolding run check_disabled_launcher_activity_and_log_to_statsd_def
    by (simp add: bridge_service_get_def isLauncherActivity_def java_bridge_answers [OF assms(11)])
  ultimately show "\<exists>out t'. set_component_enabled_setting k ctx (Some slot) = (0, Some out)
      \<and> Component_on_item d clk (java_bridge p st) write_atom task out (h, t) = (Ok (), (h, t')) \<and> quiet t t'"
    using out by blast
qed

definition long_class :: string where
  "long_class = replicate 64 CHR ''c''"

definition launcher_memory :: user_memory where
  "launcher_memory = flat_memory 0x1000 (replicate 8 NUL @ le_bytes 4 0x1010 @ le_bytes 4 0x1061
     @ string_object long_class @ string_object ''a.b'')"

definition launcher_platform :: platform where
  "launcher_platform = example_platform\<lparr>launcher_activities := (\<lambda>_ _. [long_class])\<rparr>"

lemma launcher_strings:
  "java_string_at launcher_memory 0x1008 long_class" "java_string_at launcher_memory 0x100C ''a.b''"
  "java_string launcher_memory 0x1061 ''a.b''"
proof -
  have bytes: "unat (a - 0x1000) + n \<le> 117 \<Longrightarrow> mem_bytes launcher_memory a n =
      Some (take n (drop (unat (a - 0x1000)) (replicate 8 NUL @ le_bytes 4 0x1010 @ le_bytes 4 0x1061
        @ string_object long_class @ string_object ''a.b'')))" for a n
    unfolding launcher_memory_def by (rule flat_memory_bytes) (simp_all add: string_object_def long_class_def)
  have "java_ref launcher_memory 0x1008 0x1010" "java_ref launcher_memory 0x100C 0x1061"
    and pkg: "java_string launcher_memory 0x1061 ''a.b''" and cls: "java_string launcher_memory 0x1010 long_class"
    by (simp_all add: java_ref_def java_string_def bytes string_object_def long_class_def)
  then show "java_string_at launcher_memory 0x1008 long_class" "java_string_at launcher_memory 0x100C ''a.b''"
    unfolding java_string_at_def by blast+
  show "java_string launcher_memory 0x1061 ''a.b''" by (rule pkg)
qed

theorem long_launcher_class_unreported_witness:
  "isLauncherActivity_impl launcher_platform ''a.b'' long_class True = Inr True
    \<and> (\<exists>out t'. set_component_enabled_setting (memory_kernel launcher_memory 0 0)
          (regs_of [(2, 0x1000), (3, 2), (6, 0x1061)]) (Some example_setting) = (0, Some out)
        \<and> Component_on_item (example_device ''user'') example_clock (java_bridge launcher_platform (\<lambda>_. bridge_init None))
            (CodegenAtomWriter_write example_env) example_resolved out ((), []) = (Ok (), ((), t'))
        \<and> quiet [] t')"
proof (rule long_launcher_class_unreported [OF memory_kernel_ok(2), where cls = long_class and pkg = "''a.b''"
      and caller = "''a.b''"])
  show "take 63 long_class \<notin> set (launcher_activities launcher_platform (take 63 ''a.b'') True)"
    by (simp add: launcher_platform_def example_platform_def long_class_def)
qed (use launcher_strings in \<open>simp_all add: regs_of_def launcher_platform_def example_platform_def
      long_class_def ascii_def example_device_def
      is_user_build_def is_at_least_cinnamon_bun_def\<close>)

end
